(* ===== verification/TFPrelude.thy ===== *)
theory TFPrelude imports Main "HOL-Library.Word" "HOL-Library.Monad_Syntax" begin

text \<open>
  Prelude of the ThymesisFlow development: the C types at their widths, the byte-level
  primitives of \<^verbatim>\<open>string.h\<close> the code calls, and the little-endian representation of
  integers in a byte buffer.

  A \<^verbatim>\<open>char *\<close> is a value of type \<open>cptr\<close>: \<open>None\<close> is \<^verbatim>\<open>NULL\<close> and \<open>Some bs\<close> is a
  pointer whose readable (writable) bytes, up to the end of what may be accessed, are
  \<open>bs\<close>.  A computation has type \<open>'a option\<close>: \<open>None\<close> says that the call does not return
  to its caller in a defined way (a read or write out of bounds, a \<^verbatim>\<open>NULL\<close> or dangling
  pointer, an endless loop).  A theorem that a function returns is a theorem that its
  value is \<open>Some\<close>.
\<close>

unbundle bit_operations_syntax

section \<open>Types\<close>

type_synonym byte = "8 word"
type_synonym bytes = "byte list"
type_synonym cptr = "bytes option"
type_synonym cint = "32 word"
type_synonym u64 = "64 word"

named_theorems layout_defs \<open>sizes and offsets of the wire format\<close>
named_theorems err_defs \<open>the numeric error codes\<close>

section \<open>The option monad\<close>

lemma bind_Some_iff [simp]:
  "(m \<bind> f = Some y) \<longleftrightarrow> (\<exists>x. m = Some x \<and> f x = Some y)"
  by (cases m) auto

lemma bind_None_iff:
  "(m \<bind> f = None) \<longleftrightarrow> m = None \<or> (\<exists>x. m = Some x \<and> f x = None)"
  by (cases m) auto

section \<open>Copying bytes\<close>

text \<open>
  \<open>mem_read off n src\<close> is what \<^verbatim>\<open>memcpy(_, src + off, n)\<close> reads, \<open>mem_write off bs dst\<close>
  the destination after \<^verbatim>\<open>memcpy(dst + off, _, n)\<close> has stored the \<open>n\<close> bytes \<open>bs\<close>.
\<close>

definition mem_read :: "nat \<Rightarrow> nat \<Rightarrow> bytes \<Rightarrow> bytes option" where
  "mem_read off n src =
     (if off + n \<le> length src then Some (take n (drop off src)) else None)"

definition put_at :: "nat \<Rightarrow> bytes \<Rightarrow> bytes \<Rightarrow> bytes" where
  "put_at off bs dst = take off dst @ bs @ drop (off + length bs) dst"

definition get_at :: "nat \<Rightarrow> nat \<Rightarrow> bytes \<Rightarrow> bytes" where
  "get_at off n src = take n (drop off src)"

definition mem_write :: "nat \<Rightarrow> bytes \<Rightarrow> bytes \<Rightarrow> bytes option" where
  "mem_write off bs dst =
     (if off + length bs \<le> length dst then Some (put_at off bs dst) else None)"

lemma mem_read_in: "off + n \<le> length src \<Longrightarrow> mem_read off n src = Some (get_at off n src)"
  by (simp add: mem_read_def get_at_def)

lemma mem_read_out: "length src < off + n \<Longrightarrow> mem_read off n src = None"
  by (simp add: mem_read_def)

lemma mem_write_in:
  "off + length bs \<le> length dst \<Longrightarrow> mem_write off bs dst = Some (put_at off bs dst)"
  by (simp add: mem_write_def)

lemma mem_write_out: "length dst < off + length bs \<Longrightarrow> mem_write off bs dst = None"
  by (simp add: mem_write_def)

lemma length_put_at [simp]:
  "off + length bs \<le> length dst \<Longrightarrow> length (put_at off bs dst) = length dst"
  by (simp add: put_at_def)

lemma length_get_at [simp]: "off + n \<le> length src \<Longrightarrow> length (get_at off n src) = n"
  by (simp add: get_at_def)

lemma get_put_same:
  "off + length bs \<le> length dst \<Longrightarrow> n = length bs \<Longrightarrow> get_at off n (put_at off bs dst) = bs"
  by (simp add: get_at_def put_at_def)

lemma nth_put_at:
  assumes "off + length bs \<le> length dst" "i < length dst"
  shows "put_at off bs dst ! i =
           (if off \<le> i \<and> i < off + length bs then bs ! (i - off) else dst ! i)"
  using assms by (auto simp: put_at_def nth_append min_def)

lemma nth_get_at: "i < n \<Longrightarrow> off + n \<le> length src \<Longrightarrow> get_at off n src ! i = src ! (off + i)"
  by (simp add: get_at_def)

lemma get_put_other:
  assumes "off + length bs \<le> length dst" "off' + n \<le> length dst"
    and "off' + n \<le> off \<or> off + length bs \<le> off'"
  shows "get_at off' n (put_at off bs dst) = get_at off' n dst"
  using assms by (intro nth_equalityI) (auto simp: nth_get_at nth_put_at)

lemma put_put_same:
  "off + length bs \<le> length dst \<Longrightarrow> length cs = length bs \<Longrightarrow>
   put_at off cs (put_at off bs dst) = put_at off cs dst"
  by (intro nth_equalityI) (auto simp: nth_put_at)

lemma put_at_all: "length bs = length dst \<Longrightarrow> put_at 0 bs dst = bs"
  by (simp add: put_at_def)

section \<open>C strings\<close>

text \<open>The bytes of a string literal, its terminating NUL included.\<close>

definition cstr :: "string \<Rightarrow> bytes" where
  "cstr s = map of_char s"

definition lit :: "string \<Rightarrow> bytes" where
  "lit s = cstr s @ [0]"

text \<open>Numbers as \<^verbatim>\<open>%lu\<close> and \<^verbatim>\<open>%lx\<close> print them, and the control characters of the formats.\<close>

fun decimal :: "nat \<Rightarrow> string" where
  "decimal n = (if n < 10 then [char_of (48 + n)] else decimal (n div 10) @ [char_of (48 + n mod 10)])"

definition hex_digits :: string where "hex_digits = ''0123456789abcdef''"

fun hex :: "nat \<Rightarrow> string" where
  "hex n = (if n < 16 then [hex_digits ! n] else hex (n div 16) @ [hex_digits ! (n mod 16)])"

declare decimal.simps [simp del] hex.simps [simp del]

definition newline :: string where "newline = [char_of (10 :: nat)]"
definition tab :: string where "tab = [char_of (9 :: nat)]"

text \<open>The characters a string function sees: up to the first NUL.\<close>

definition upto_nul :: "bytes \<Rightarrow> bytes" where
  "upto_nul bs = takeWhile (\<lambda>b. b \<noteq> 0) bs"

text \<open>
  \<open>strncmp_eq a b n\<close> is whether \<^verbatim>\<open>strncmp(a, b, n) == 0\<close>: bytes are compared until one
  differs, a NUL is met in both, or \<open>n\<close> bytes are equal; running off either object is
  undefined.  \<open>strcmp_eq\<close> is the same without the bound.
\<close>

fun strncmp_eq :: "bytes \<Rightarrow> bytes \<Rightarrow> nat \<Rightarrow> bool option" where
  "strncmp_eq _ _ 0 = Some True"
| "strncmp_eq (a # as) (b # bs) (Suc n) =
     (if a \<noteq> b then Some False else if a = 0 then Some True else strncmp_eq as bs n)"
| "strncmp_eq _ _ (Suc n) = None"

fun strcmp_eq :: "bytes \<Rightarrow> bytes \<Rightarrow> bool option" where
  "strcmp_eq (a # as) (b # bs) =
     (if a \<noteq> b then Some False else if a = 0 then Some True else strcmp_eq as bs)"
| "strcmp_eq _ _ = None"

fun strlen :: "bytes \<Rightarrow> nat option" where
  "strlen [] = None"
| "strlen (b # bs) = (if b = 0 then Some 0 else map_option Suc (strlen bs))"

text \<open>The \<open>n\<close> bytes \<^verbatim>\<open>strncpy(_, src, n)\<close> stores: the string, then NUL padding.\<close>

fun strncpy_src :: "bytes \<Rightarrow> nat \<Rightarrow> bytes option" where
  "strncpy_src _ 0 = Some []"
| "strncpy_src [] (Suc n) = None"
| "strncpy_src (b # bs) (Suc n) =
     (if b = 0 then Some (replicate (Suc n) 0) else map_option (Cons b) (strncpy_src bs n))"

lemma upto_nul_simps [simp]:
  "upto_nul [] = []"
  "upto_nul (b # bs) = (if b = 0 then [] else b # upto_nul bs)"
  by (simp_all add: upto_nul_def)

lemma upto_nul_no_nul [simp]: "0 \<notin> set (upto_nul bs)"
  by (induction bs) auto

lemma upto_nul_replicate [simp]: "upto_nul (replicate n 0) = []"
  by (cases n) auto

lemma length_upto_nul: "length (upto_nul bs) \<le> length bs"
  by (induction bs) auto

lemma upto_nul_append:
  "upto_nul (as @ bs) = (if 0 \<in> set as then upto_nul as else as @ upto_nul bs)"
  by (induction as) auto

lemma upto_nul_id: "0 \<notin> set as \<Longrightarrow> upto_nul as = as"
  by (induction as) auto

text \<open>
  When both sides hold \<open>n\<close> readable bytes (or end in a NUL before), \<^verbatim>\<open>strncmp\<close> is
  equality of the strings cut at \<open>n\<close>.
\<close>

lemma strncmp_eq_iff:
  assumes "n \<le> length as \<or> 0 \<in> set as" "n \<le> length bs \<or> 0 \<in> set bs"
  shows "strncmp_eq as bs n = Some (upto_nul (take n as) = upto_nul (take n bs))"
  using assms by (induction as bs n rule: strncmp_eq.induct) auto

lemma strcmp_eq_iff:
  assumes "0 \<in> set as" "0 \<in> set bs"
  shows "strcmp_eq as bs = Some (upto_nul as = upto_nul bs)"
  using assms by (induction as bs rule: strcmp_eq.induct) auto

lemma strlen_iff: "0 \<in> set as \<Longrightarrow> strlen as = Some (length (upto_nul as))"
  by (induction as) auto

lemma strncpy_src_length: "strncpy_src src n = Some bs \<Longrightarrow> length bs = n"
  by (induction src n arbitrary: bs rule: strncpy_src.induct) (auto split: if_splits)

lemma strncpy_src_defined:
  "n \<le> length src \<or> 0 \<in> set src \<Longrightarrow>
   strncpy_src src n =
     Some (upto_nul (take n src) @ replicate (n - length (upto_nul (take n src))) 0)"
  by (induction src n rule: strncpy_src.induct) auto

lemma nul_in_lit [simp]: "0 \<in> set (lit s)" "0 \<in> set (lit s @ bs)"
  by (simp_all add: lit_def)

section \<open>Integers in a buffer, little endian\<close>

definition le_bytes :: "nat \<Rightarrow> 'a::len word \<Rightarrow> bytes" where
  "le_bytes n w = map (\<lambda>i. ucast (drop_bit (8 * i) w)) [0..<n]"

primrec of_le :: "bytes \<Rightarrow> 'a::len word" where
  "of_le [] = 0"
| "of_le (b # bs) = ucast b OR push_bit 8 (of_le bs)"

lemma length_le_bytes [simp]: "length (le_bytes n w) = n"
  by (simp add: le_bytes_def)

lemma nth_le_bytes: "i < n \<Longrightarrow> le_bytes n w ! i = ucast (drop_bit (8 * i) w)"
  by (simp add: le_bytes_def)

lemma bit_of_le:
  "bit (of_le bs :: 'a::len word) k \<longleftrightarrow>
     k < LENGTH('a) \<and> k div 8 < length bs \<and> bit (bs ! (k div 8)) (k mod 8)"
proof (induction bs arbitrary: k)
  case Nil
  then show ?case by simp
next
  case (Cons b bs)
  show ?case
  proof (cases "k < 8")
    case True
    then show ?thesis
      by (auto simp: bit_or_iff bit_push_bit_iff bit_ucast_iff)
  next
    case False
    then have k: "k div 8 = Suc ((k - 8) div 8)" "k mod 8 = (k - 8) mod 8"
      by (auto simp: le_div_geq le_mod_geq)
    have "\<not> bit b k" using False bit_imp_le_length [of b k] by auto
    with False k show ?thesis
      by (auto simp: bit_or_iff bit_push_bit_iff bit_ucast_iff Cons.IH)
  qed
qed

lemma bit_ucast_byte: "bit (ucast (w :: 'a::len word) :: byte) k \<longleftrightarrow> k < 8 \<and> bit w k"
  by (auto simp: bit_ucast_iff)

lemma of_le_le_bytes:
  assumes "LENGTH('a::len) \<le> 8 * n"
  shows "of_le (le_bytes n (w :: 'a word)) = w"
proof (rule bit_word_eqI)
  fix k assume k: "k < LENGTH('a)"
  have "k div 8 < n" using k assms by auto
  moreover have "8 * (k div 8) + k mod 8 = k" by simp
  ultimately show "bit (of_le (le_bytes n w) :: 'a word) k = bit w k"
    using k by (simp add: bit_of_le nth_le_bytes bit_ucast_byte bit_drop_bit_eq add.commute)
qed

lemma le_bytes_of_le:
  assumes "length bs = n" "8 * n \<le> LENGTH('a::len)"
  shows "le_bytes n (of_le bs :: 'a word) = bs"
proof (rule nth_equalityI)
  show "length (le_bytes n (of_le bs :: 'a word)) = length bs" using assms by simp
next
  fix i assume "i < length (le_bytes n (of_le bs :: 'a word))"
  then have i: "i < n" by simp
  show "le_bytes n (of_le bs :: 'a word) ! i = bs ! i"
  proof (rule bit_word_eqI)
    fix k assume "k < LENGTH(8)"
    then have k: "k < 8" by simp
    then have "8 * i + k < LENGTH('a)" "(8 * i + k) div 8 = i" "(8 * i + k) mod 8 = k"
      using i assms by auto
    then show "bit (le_bytes n (of_le bs :: 'a word) ! i) k = bit (bs ! i) k"
      using i k assms
      by (simp add: nth_le_bytes bit_ucast_byte bit_drop_bit_eq bit_of_le add.commute)
  qed
qed

lemma of_le_64 [simp]: "of_le (le_bytes 8 (w :: u64)) = w"
  by (rule of_le_le_bytes) simp

lemma of_le_32 [simp]: "of_le (le_bytes 4 (w :: cint)) = w"
  by (rule of_le_le_bytes) simp

lemma of_le_8 [simp]: "of_le [b] = (b :: byte)"
  by simp

section \<open>An interface: a fixed-width value stored in a buffer\<close>

text \<open>
  A field of a wire format: at \<open>off\<close>, \<open>len\<close> bytes wide, written by \<open>enc\<close> and read by
  \<open>dec\<close>.  \<open>ok\<close> is the set of values that fit.  The laws give the get/put equations every user of
  the field needs; two fields that do not overlap do not see each other's writes.
\<close>

locale wire_field =
  fixes off len total :: nat
    and ok :: "'v \<Rightarrow> bool"
    and enc :: "'v \<Rightarrow> bytes"
    and dec :: "bytes \<Rightarrow> 'v"
  assumes inside: "off + len \<le> total"
    and enc_len: "ok v \<Longrightarrow> length (enc v) = len"
    and dec_enc: "ok v \<Longrightarrow> dec (enc v) = v"
begin

lemma put_defined:
  "length m = total \<Longrightarrow> ok v \<Longrightarrow> mem_write off (enc v) m = Some (put_at off (enc v) m)"
  using inside by (simp add: mem_write_in enc_len)

lemma put_length: "length m = total \<Longrightarrow> ok v \<Longrightarrow> length (put_at off (enc v) m) = total"
  using inside by (simp add: enc_len)

lemma get_defined: "length m = total \<Longrightarrow> mem_read off len m = Some (get_at off len m)"
  using inside by (simp add: mem_read_in)

lemma get_put:
  "length m = total \<Longrightarrow> ok v \<Longrightarrow> dec (get_at off len (put_at off (enc v) m)) = v"
  using inside by (simp add: get_put_same enc_len dec_enc)

lemma put_put: "length m = total \<Longrightarrow> ok u \<Longrightarrow> ok v \<Longrightarrow>
    put_at off (enc v) (put_at off (enc u) m) = put_at off (enc v) m"
  using inside by (simp add: put_put_same enc_len)

lemma get_other:
  "length m = total \<Longrightarrow> ok v \<Longrightarrow> off' + n \<le> total \<Longrightarrow> off' + n \<le> off \<or> off + len \<le> off' \<Longrightarrow>
   get_at off' n (put_at off (enc v) m) = get_at off' n m"
  using inside by (simp add: get_put_other enc_len)

end

end
