(* ===== verification/TFConst.thy ===== *)
theory TFConst imports TFPrelude begin

text \<open>
  The constants of \<^verbatim>\<open>libthymesisflow/include/protoconst.h\<close> (sizes, offsets, message types,
  protocol error codes), of \<^verbatim>\<open>errcode.h\<close> (the status a request ends with), of
  \<^verbatim>\<open>connection.h\<close> and of \<^verbatim>\<open>thymesisflow.h\<close>, by their names in the code.
\<close>

section \<open>protoconst.h: sizes and offsets\<close>

definition SOCK_PATH :: string where "SOCK_PATH = ''/tmp/thymesisflow.sock''"

definition CIRCUIT_ID_SIZE :: nat where [layout_defs]: "CIRCUIT_ID_SIZE = 36"
definition MSGTYPE_SIZE :: nat where [layout_defs]: "MSGTYPE_SIZE = 16"
definition AFUNAME_SIZE :: nat where [layout_defs]: "AFUNAME_SIZE = 256"
definition IPORT_SIZE :: nat where [layout_defs]: "IPORT_SIZE = 1"
definition MEM_SIZE :: nat where [layout_defs]: "MEM_SIZE = 8"
definition EA_SIZE :: nat where [layout_defs]: "EA_SIZE = 8"
definition NO_HOTPLUG_SIZE :: nat where [layout_defs]: "NO_HOTPLUG_SIZE = 4"
definition ERROR_SIZE :: nat where [layout_defs]: "ERROR_SIZE = 4"

definition MSG_SIZE :: nat where [layout_defs]:
  "MSG_SIZE = CIRCUIT_ID_SIZE + MSGTYPE_SIZE + AFUNAME_SIZE + IPORT_SIZE + MEM_SIZE +
              EA_SIZE + ERROR_SIZE + NO_HOTPLUG_SIZE"

definition CIRCUIT_ID_OFFSET :: nat where [layout_defs]: "CIRCUIT_ID_OFFSET = 0"
definition MSGTYPE_OFFSET :: nat where [layout_defs]:
  "MSGTYPE_OFFSET = CIRCUIT_ID_OFFSET + CIRCUIT_ID_SIZE"
definition AFUNAME_OFFSET :: nat where [layout_defs]:
  "AFUNAME_OFFSET = MSGTYPE_OFFSET + MSGTYPE_SIZE"
definition IPORT_OFFSET :: nat where [layout_defs]:
  "IPORT_OFFSET = AFUNAME_OFFSET + AFUNAME_SIZE"
definition MEM_SIZE_OFFSET :: nat where [layout_defs]:
  "MEM_SIZE_OFFSET = IPORT_OFFSET + IPORT_SIZE"
definition EA_OFFSET :: nat where [layout_defs]: "EA_OFFSET = MEM_SIZE_OFFSET + MEM_SIZE"
definition NO_HOTPLUG_OFFSET :: nat where [layout_defs]: "NO_HOTPLUG_OFFSET = EA_OFFSET + EA_SIZE"
definition ERROR_OFFSET :: nat where [layout_defs]:
  "ERROR_OFFSET = NO_HOTPLUG_OFFSET + NO_HOTPLUG_SIZE"

section \<open>protoconst.h: message types\<close>

definition MEMORY_ATTACH :: string where "MEMORY_ATTACH = ''memory_attach''"
definition COMPUTE_ATTACH :: string where "COMPUTE_ATTACH = ''compute_attach''"
definition MRESPONSE_ATTACH :: string where "MRESPONSE_ATTACH = ''mresponse_attach''"
definition CRESPONSE_ATTACH :: string where "CRESPONSE_ATTACH = ''cresponse_attach''"
definition MEMORY_DETACH :: string where "MEMORY_DETACH = ''memory_detach''"
definition COMPUTE_DETACH :: string where "COMPUTE_DETACH = ''compute_detach''"
definition MRESPONSE_DETACH :: string where "MRESPONSE_DETACH = ''mresponse_detach''"
definition CRESPONSE_DETACH :: string where "CRESPONSE_DETACH = ''cresponse_detach''"

lemmas msgtype_defs = MEMORY_ATTACH_def COMPUTE_ATTACH_def MRESPONSE_ATTACH_def
  CRESPONSE_ATTACH_def MEMORY_DETACH_def COMPUTE_DETACH_def MRESPONSE_DETACH_def
  CRESPONSE_DETACH_def

section \<open>protoconst.h: codes of the message functions\<close>

definition ERR_NULL_PARAM :: cint where [err_defs]: "ERR_NULL_PARAM = -1"
definition ERR_MSGNULL :: cint where [err_defs]: "ERR_MSGNULL = -2"
definition ERR_MSGTYPE :: cint where [err_defs]: "ERR_MSGTYPE = -3"
definition ERR_EMPTY_PARAM :: cint where [err_defs]: "ERR_EMPTY_PARAM = -4"
definition ERR_INT_PARAM :: cint where [err_defs]: "ERR_INT_PARAM = -5"
definition ERR_MEMBLOCK_SIZE :: cint where [err_defs]: "ERR_MEMBLOCK_SIZE = -5"

section \<open>errcode.h\<close>

definition ATTACH_OK :: cint where [err_defs]: "ATTACH_OK = 100"
definition ERR_AFU_OPEN :: cint where [err_defs]: "ERR_AFU_OPEN = 102"
definition ERR_AFU_ATTACH :: cint where [err_defs]: "ERR_AFU_ATTACH = 103"
definition ERR_MMIO_MAP_GLOBAL :: cint where [err_defs]: "ERR_MMIO_MAP_GLOBAL = 104"
definition ERR_MMIO_MAP_LOCAL :: cint where [err_defs]: "ERR_MMIO_MAP_LOCAL = 105"
definition ERR_WRITE_CTRL_REGISTER :: cint where [err_defs]: "ERR_WRITE_CTRL_REGISTER = 106"
definition ERR_ENABLING_NETWORK :: cint where [err_defs]: "ERR_ENABLING_NETWORK = 107"
definition ERR_PORT_UNSUPPORTED :: cint where [err_defs]: "ERR_PORT_UNSUPPORTED = 108"
definition ERR_AURORA_CHAN :: cint where [err_defs]: "ERR_AURORA_CHAN = 109"
definition ERR_ATTACH_SEG :: cint where [err_defs]: "ERR_ATTACH_SEG = 110"
definition ERR_PROBE :: cint where [err_defs]: "ERR_PROBE = 111"
definition DETACH_OK :: cint where [err_defs]: "DETACH_OK = 200"
definition ERR_REGISTER_DETACH :: cint where [err_defs]: "ERR_REGISTER_DETACH = 201"
definition ERR_MISSING_CID :: cint where [err_defs]: "ERR_MISSING_CID = 201"

section \<open>connection.h and thymesisflow.h\<close>

definition CONN_SUCCESS :: cint where [err_defs]: "CONN_SUCCESS = 0"
definition CONN_DUP :: cint where [err_defs]: "CONN_DUP = 1"
definition CONN_NULL :: cint where [err_defs]: "CONN_NULL = 2"
definition CONN_NOT_FOUND :: cint where [err_defs]: "CONN_NOT_FOUND = 3"

definition AURORA_CTRL :: u64 where "AURORA_CTRL = 0x78"
definition MEM_SEG0_CONFIG :: u64 where "MEM_SEG0_CONFIG = 0x20"
definition MEM_SEG0_OFFSET :: u64 where "MEM_SEG0_OFFSET = 0"

definition INIT_PROBE_ADDR :: u64 where "INIT_PROBE_ADDR = 0x2000000000000"
definition MEMBLOCK_SIZE :: u64 where "MEMBLOCK_SIZE = 0x10000000"
definition PROBE_PATH :: string where "PROBE_PATH = ''/sys/devices/system/memory/probe''"
definition MEMORY_PATH :: string where "MEMORY_PATH = ''/sys/devices/system/memory''"
definition CACHE_ALIGNMENT :: u64 where "CACHE_ALIGNMENT = 128"

end
