(* ===== verification/TFWorld.thy ===== *)
theory TFWorld imports TFConst begin

text \<open>
  The process the agent runs in, and what it calls outside \<^verbatim>\<open>src/\<close>: the C library, the
  kernel and \<^verbatim>\<open>libocxl\<close>.  Those are a parameter: \<open>ext\<close> answers every call with a status
  and a value (a pointer or handle, or what an out-parameter receives), and may depend on
  all calls made before.  Every call is recorded in the \<open>trace\<close> of the \<open>world\<close>, so that
  theorems can speak of the order of the effects.
\<close>

section \<open>Calls and the environment\<close>

datatype mmio_kind = OCXL_GLOBAL_MMIO | OCXL_PER_PASID_MMIO

datatype call =
    Malloc nat
  | Posix_memalign u64 u64
  | Free u64
  | Mlock u64 u64
  | Memset_zero u64 u64
  | Access string bool              \<comment> \<open>\<open>True\<close> for \<^verbatim>\<open>W_OK\<close>, \<open>False\<close> for \<^verbatim>\<open>F_OK\<close>\<close>
  | Fopen string                    \<comment> \<open>always in mode \<^verbatim>\<open>"w"\<close>\<close>
  | Fprintf u64 string
  | Fflush u64
  | Fclose u64
  | Sleep nat
  | Ocxl_afu_open bytes
  | Ocxl_afu_attach u64
  | Ocxl_mmio_map u64 mmio_kind
  | Ocxl_mmio_write64 u64 u64 u64
  | Ocxl_mmio_read64 u64 u64
  | Ocxl_afu_close u64
  | Ocxl_enable_messages
  | Unlink string
  | Mkfifo string
  | Open_wronly string
  | Close cint
  | Dprintf cint u64 u64 u64
  | Pthread_create
  | Pthread_cancel u64
  | Pthread_join u64
  | Pthread_setcancelstate bool     \<comment> \<open>\<open>True\<close> for \<^verbatim>\<open>PTHREAD_CANCEL_ENABLE\<close>\<close>
  | Mmap u64 u64                    \<comment> \<open>length and file offset\<close>
  | Munmap u64 u64
  | Open_rdwr string
  | Socket
  | Connect cint bytes
  | Remove bytes
  | Bind cint bytes
  | Listen cint nat
  | Accept cint
  | Fork                            \<comment> \<open>answered with the process id, 0 in the child\<close>
  | Kill cint                       \<comment> \<open>with \<^verbatim>\<open>SIGTERM\<close>\<close>

type_synonym result = "cint \<times> u64"

text \<open>
  \<open>mock\<close> is the build flag \<^verbatim>\<open>MOCK\<close>; \<open>junk\<close> gives the bytes found in a fresh \<^verbatim>\<open>malloc\<close>ed
  block (or an uninitialised local) at that point of the run; \<open>rodata\<close> gives the bytes
  that happen to follow a string literal in memory.
\<close>

record env =
  mock :: bool
  ext :: "call list \<Rightarrow> call \<Rightarrow> result"
  junk :: "call list \<Rightarrow> nat \<Rightarrow> byte"
  rodata :: "string \<Rightarrow> bytes"

definition junk_word :: "env \<Rightarrow> call list \<Rightarrow> nat \<Rightarrow> u64" where
  "junk_word env tr k = of_le (map (junk env tr) [k..<k + 8])"

text \<open>A pointer to a string literal: its bytes, the NUL, and what follows it.\<close>

definition literal :: "env \<Rightarrow> string \<Rightarrow> cptr" where
  "literal env s = Some (lit s @ rodata env s)"

section \<open>Connections and the world\<close>

text \<open>\<^verbatim>\<open>struct connection_s\<close>; a pointer is its address, \<^verbatim>\<open>NULL\<close> is 0.\<close>

record connection =
  circuit_id :: bytes
  afu_name :: bytes
  csize :: u64
  ea :: u64
  cnext :: u64
  no_hotplug :: cint
  afu :: u64
  stat_tid :: u64
  global :: u64
  pp_mmio :: u64

text \<open>
  \<open>heap\<close>: the connections allocated; \<open>clist\<close>: the global list head; \<open>live\<close>: the blocks
  \<^verbatim>\<open>posix_memalign\<close> returned and that are not freed; \<open>cells\<close>: the allocated \<^verbatim>\<open>pthread_t\<close>
  cells; \<open>nbufs\<close>: the number of live message and string buffers.
\<close>

record world =
  trace :: "call list"
  heap :: "u64 \<Rightarrow> connection option"
  clist :: u64
  live :: "u64 list"
  cells :: "u64 \<Rightarrow> u64 option"
  nbufs :: int

definition init_world :: world where
  "init_world = \<lparr> trace = [], heap = Map.empty, clist = 0, live = [], cells = Map.empty, nbufs = 0 \<rparr>"

definition sys :: "env \<Rightarrow> call \<Rightarrow> world \<Rightarrow> result \<times> world" where
  "sys env c w = (ext env (trace w) c, w\<lparr>trace := trace w @ [c]\<rparr>)"

definition sys_rc :: "env \<Rightarrow> call \<Rightarrow> world \<Rightarrow> cint \<times> world" where
  "sys_rc env c w = (fst (ext env (trace w) c), w\<lparr>trace := trace w @ [c]\<rparr>)"

text \<open>
  \<^verbatim>\<open>malloc\<close> for message and string buffers: \<^verbatim>\<open>NULL\<close>, or a block of unspecified bytes.
  \<open>free_buf\<close> is \<^verbatim>\<open>free\<close> of such a buffer.
\<close>

definition malloc_buf :: "env \<Rightarrow> nat \<Rightarrow> world \<Rightarrow> cptr \<times> world" where
  "malloc_buf env n w =
     (let w' = w\<lparr>trace := trace w @ [Malloc n]\<rparr> in
      if snd (ext env (trace w) (Malloc n)) = 0 then (None, w')
      else (Some (map (junk env (trace w)) [0..<n]), w'\<lparr>nbufs := nbufs w + 1\<rparr>))"

definition free_buf :: "cptr \<Rightarrow> world \<Rightarrow> world" where
  "free_buf p w = (if p = None then w else w\<lparr>nbufs := nbufs w - 1\<rparr>)"

text \<open>
  \<^verbatim>\<open>posix_memalign\<close>: on success the returned pointer is not a live block (a pointer that
  is counts as a failure); on failure the out-parameter is left alone.
\<close>

definition memalign :: "env \<Rightarrow> u64 \<Rightarrow> u64 \<Rightarrow> world \<Rightarrow> u64 option \<times> world" where
  "memalign env al sz w =
     (let (rc, p) = ext env (trace w) (Posix_memalign al sz);
          w' = w\<lparr>trace := trace w @ [Posix_memalign al sz]\<rparr> in
      if rc \<noteq> 0 \<or> p \<in> set (live w) then (None, w')
      else (Some p, if p = 0 then w' else w'\<lparr>live := p # live w\<rparr>))"

text \<open>\<^verbatim>\<open>free(p)\<close> of a memory block: undefined unless \<open>p\<close> is \<^verbatim>\<open>NULL\<close> or live.\<close>

definition free_block :: "u64 \<Rightarrow> world \<Rightarrow> world option" where
  "free_block p w =
     (if p = 0 then Some (w\<lparr>trace := trace w @ [Free p]\<rparr>)
      else if p \<in> set (live w)
      then Some (w\<lparr>trace := trace w @ [Free p], live := remove1 p (live w)\<rparr>)
      else None)"

section \<open>Lemmas\<close>

lemma sys_simps [simp]:
  "fst (sys env c w) = ext env (trace w) c"
  "snd (sys env c w) = w\<lparr>trace := trace w @ [c]\<rparr>"
  "sys_rc env c w = (fst (ext env (trace w) c), w\<lparr>trace := trace w @ [c]\<rparr>)"
  by (simp_all add: sys_def sys_rc_def)

lemma malloc_buf_length: "malloc_buf env n w = (Some b, w') \<Longrightarrow> length b = n"
  by (auto simp: malloc_buf_def Let_def split: if_splits)

text \<open>An environment whose \<^verbatim>\<open>malloc\<close> never fails for buffers.\<close>

definition malloc_ok :: "env \<Rightarrow> bool" where
  "malloc_ok env \<longleftrightarrow> (\<forall>tr n. snd (ext env tr (Malloc n)) \<noteq> 0)"

lemma malloc_buf_ok:
  "malloc_ok env \<Longrightarrow> malloc_buf env n w =
     (Some (map (junk env (trace w)) [0..<n]),
      w\<lparr>trace := trace w @ [Malloc n], nbufs := nbufs w + 1\<rparr>)"
  by (simp add: malloc_buf_def malloc_ok_def)

lemma free_buf_simps [simp]:
  "free_buf None w = w"
  "free_buf (Some b) w = w\<lparr>nbufs := nbufs w - 1\<rparr>"
  by (simp_all add: free_buf_def)

lemma free_buf_frame [simp]:
  "heap (free_buf p w) = heap w" "clist (free_buf p w) = clist w"
  "live (free_buf p w) = live w" "trace (free_buf p w) = trace w" "cells (free_buf p w) = cells w"
  by (simp_all add: free_buf_def)

text \<open>
  A concrete environment for the examples: every call succeeds, addresses are page
  aligned and never repeat, uninitialised memory is zero.
\<close>

definition demo_env :: "bool \<Rightarrow> env" where
  "demo_env m = \<lparr> mock = m, ext = (\<lambda>tr c. (0, 4096 * of_nat (Suc (length tr)))),
     junk = (\<lambda>_ _. 0), rodata = (\<lambda>_. replicate 300 0) \<rparr>"

lemma demo_env_simps [simp]:
  "mock (demo_env m) = m"
  "ext (demo_env m) tr c = (0, 4096 * of_nat (Suc (length tr)))"
  "junk (demo_env m) tr k = 0"
  "rodata (demo_env m) s = replicate 300 0"
  by (simp_all add: demo_env_def)

lemma init_world_simps [simp]:
  "trace init_world = []" "heap init_world = Map.empty" "clist init_world = 0"
  "live init_world = []" "cells init_world = Map.empty" "nbufs init_world = 0"
  by (simp_all add: init_world_def)

end
