(* ===== verification/TFStats.thy ===== *)
theory TFStats imports TFWorld begin

text \<open>
  \<^verbatim>\<open>libthymesisflow/src/stats.c\<close>: the thread that publishes the traffic counters of an AFU
  in a FIFO, its start and its stop.  \<open>stats_loop\<close> is the body of the thread; a run that
  stays in the loop forever (the normal case) is \<open>None\<close>, so the theorems about one turn
  are about \<open>stats_iter\<close>.
\<close>

section \<open>Model\<close>

definition TX_STATS :: u64 where "TX_STATS = 0x60"
definition RX_STATS :: u64 where "RX_STATS = 0x68"
definition LATENCY_STATS :: u64 where "LATENCY_STATS = 0x70"
definition THYMESISCOUNT_PATH :: string where "THYMESISCOUNT_PATH = ''/tmp/thymesispcount''"
definition PERIOD_SEC :: cint where "PERIOD_SEC = 1"

datatype thread_outcome = Running | Thread_exit | Process_exit

text \<open>
  The average latency: the cycle count in the low 37 bits over the number of samples in
  the rest; a zero divisor is undefined.
\<close>

definition average_latency :: "u64 \<Rightarrow> u64 option" where
  "average_latency latency =
     (if drop_bit 37 latency = 0 then None
      else Some (((push_bit 37 1 - 1) AND latency) div drop_bit 37 latency))"

definition stats_iter ::
    "env \<Rightarrow> u64 \<Rightarrow> cint \<Rightarrow> nat \<Rightarrow> world \<Rightarrow> (thread_outcome \<times> world) option" where
  "stats_iter env g fd period w0 =
     (let (cs, w1) = sys_rc env (Pthread_setcancelstate False) w0 in
      if cs \<noteq> 0 then Some (Process_exit, w1) else
      let ((rc, tx), w2) = sys env (Ocxl_mmio_read64 g TX_STATS) w1 in
      if rc \<noteq> 0 then Some (Thread_exit, snd (sys env (Close fd) w2)) else
      let ((rc, rx), w3) = sys env (Ocxl_mmio_read64 g RX_STATS) w2 in
      if rc \<noteq> 0 then Some (Thread_exit, snd (sys env (Close fd) w3)) else
      let ((rc, latency), w4) = sys env (Ocxl_mmio_read64 g LATENCY_STATS) w3 in
      if rc \<noteq> 0 then Some (Thread_exit, snd (sys env (Close fd) w4)) else
      do {
        avg \<leftarrow> average_latency latency;
        let w5 = snd (sys env (Dprintf fd tx rx avg) w4);
        let (cs, w6) = sys_rc env (Pthread_setcancelstate True) w5;
        if cs \<noteq> 0 then Some (Process_exit, snd (sys env (Close fd) w6))
        else Some (Running, snd (sys env (Sleep period) w6)) })"

partial_function (option) stats_loop ::
    "env \<Rightarrow> u64 \<Rightarrow> cint \<Rightarrow> nat \<Rightarrow> world \<Rightarrow> (thread_outcome \<times> world) option" where
  "stats_loop env g fd period w =
     do { r \<leftarrow> stats_iter env g fd period w;
          (case r of
             (Running, w') \<Rightarrow> stats_loop env g fd period w'
           | (out, w') \<Rightarrow> Some (out, w')) }"

text \<open>\<open>targs\<close> is \<^verbatim>\<open>NULL\<close> or the pair of the MMIO handle and the period.\<close>

definition stats_thread ::
    "env \<Rightarrow> (u64 \<times> nat) option \<Rightarrow> world \<Rightarrow> (thread_outcome \<times> world) option" where
  "stats_thread env targs w =
     (let (fd, w1) = sys_rc env (Open_wronly THYMESISCOUNT_PATH) w in
      case targs of
        None \<Rightarrow> Some (Thread_exit, w1)
      | Some (g, period) \<Rightarrow> stats_loop env g fd period w1)"

text \<open>
  \<open>tid\<close> is a pointer to a \<^verbatim>\<open>pthread_t\<close> cell.  The NULL check after \<^verbatim>\<open>malloc\<close> only prints,
  so a failed allocation is dereferenced.  \<^verbatim>\<open>pthread_create\<close> fills the cell on success.
\<close>

definition tf_init_stats_thread ::
    "env \<Rightarrow> u64 \<Rightarrow> u64 \<Rightarrow> cint \<Rightarrow> world \<Rightarrow> (cint \<times> world) option" where
  "tf_init_stats_thread env tid g period w =
     (if tid = 0 then Some (-1, w)
      else if g = 0 then Some (-1, w)
      else if sint period \<le> 0 then Some (-1, w)
      else case malloc_buf env 16 w of
        (None, w1) \<Rightarrow> None
      | (Some targs, w1) \<Rightarrow>
          let ((rc, t), w2) = sys env Pthread_create w1 in
          Some (rc, if rc = 0 then w2\<lparr>cells := (cells w2)(tid \<mapsto> t)\<rparr> else w2))"

text \<open>
  The result is the status and what \<^verbatim>\<open>*tid\<close> is set to.  The \<^verbatim>\<open>pthread_t\<close> cell is fresh
  and holds an unspecified value until the thread is created.
\<close>

definition start_stats_thread ::
    "env \<Rightarrow> u64 \<Rightarrow> world \<Rightarrow> ((cint \<times> u64) \<times> world) option" where
  "start_stats_thread env g w =
     (let w1 = snd (sys env (Unlink THYMESISCOUNT_PATH) w);
          (res, w2) = sys_rc env (Mkfifo THYMESISCOUNT_PATH) w1 in
      if res \<noteq> 0 then Some ((-1, 0), w2)
      else
        let ((_, p), w3) = sys env (Malloc 8) w2;
            fresh = (p \<noteq> 0 \<and> cells w3 p = None);
            tid = (if fresh then p else 0);
            w4 = (if fresh then w3\<lparr>cells := (cells w3)(p \<mapsto> junk_word env (trace w2) 0)\<rparr> else w3) in
        do { (rc, w5) \<leftarrow> tf_init_stats_thread env tid g PERIOD_SEC w4;
             Some ((rc, tid), w5) })"

text \<open>
  A failing \<^verbatim>\<open>pthread_cancel\<close> or \<^verbatim>\<open>pthread_join\<close> ends the process with \<^verbatim>\<open>EXIT_FAILURE\<close>, so the
  call does not return: \<open>None\<close>, like everything from which control does not come back.
\<close>

definition stop_stats_thread :: "env \<Rightarrow> u64 \<Rightarrow> world \<Rightarrow> (cint \<times> world) option" where
  "stop_stats_thread env tid w =
     (if tid = 0 then Some (-1, w)
      else do {
        t \<leftarrow> cells w tid;
        let (s, w1) = sys_rc env (Pthread_cancel t) w;
        if s \<noteq> 0 then None
        else do {
          let (s, w2) = sys_rc env (Pthread_join t) w1;
          if s \<noteq> 0 then None
          else Some (0, w2\<lparr>trace := trace w2 @ [Free tid], cells := (cells w2)(tid := None)\<rparr>) } })"

section \<open>Properties\<close>

text \<open>
  the published average is the cycle count over the sample count the register packs,
  for every count of samples that fits in its 27 bits; it is undefined exactly when no
  sample was taken.
\<close>

theorem average_latency_correct:
  assumes "count < 2 ^ 27" "cycles < 2 ^ 37"
  shows "average_latency (of_nat (count * 2 ^ 37 + cycles)) =
           (if count = 0 then None else Some (of_nat (cycles div count)))"
proof -
  define l where "l = (of_nat (count * 2 ^ 37 + cycles) :: u64)"
  have "count * 2 ^ 37 + cycles < 2 ^ 64" using assms by simp
  then have u: "unat l = count * 2 ^ 37 + cycles"
    unfolding l_def by (simp only: unat_of_nat) simp
  have hi: "unat (drop_bit 37 l) = count"
    unfolding unat_drop_bit_eq u using assms by (simp add: drop_bit_eq_div)
  have lo: "(push_bit 37 1 - 1) AND l = take_bit 37 l"
    by (simp add: take_bit_eq_mask mask_eq_exp_minus_1 and.commute)
  have ulo: "unat (take_bit 37 l) = cycles"
    unfolding unsigned_take_bit_eq u using assms by (simp add: take_bit_eq_mod)
  have "drop_bit 37 l = 0 \<longleftrightarrow> count = 0"
    using hi by (metis unat_eq_zero)
  moreover have "take_bit 37 l div drop_bit 37 l = of_nat (cycles div count)"
    by (simp only: word_arith_nat_div hi ulo)
  ultimately show ?thesis
    unfolding average_latency_def lo l_def [symmetric] by simp
qed

lemma average_latency_correct_witness:
  "average_latency (of_nat (4 * 2 ^ 37 + 1000)) = Some 250"
  using average_latency_correct [of 4 1000] by simp

text \<open>
  one turn of the thread reads the three counters in order with cancellation disabled,
  publishes one line, enables cancellation and sleeps; on a failed read it closes the FIFO
  and leaves, so it is never cancelled between a read and the line that reports it.
\<close>

theorem stats_iter_running:
  assumes "stats_iter env g fd period w = Some (Running, w')"
  shows "\<exists>tx rx lat avg. average_latency lat = Some avg \<and>
     trace w' = trace w @ [Pthread_setcancelstate False, Ocxl_mmio_read64 g TX_STATS,
       Ocxl_mmio_read64 g RX_STATS, Ocxl_mmio_read64 g LATENCY_STATS, Dprintf fd tx rx avg,
       Pthread_setcancelstate True, Sleep period] \<and> w' = w\<lparr>trace := trace w'\<rparr>"
  using assms
  by (auto simp: stats_iter_def Let_def sys_def split: if_splits prod.splits)

definition stats_env :: env where
  "stats_env = \<lparr> mock = False,
     ext = (\<lambda>tr c. if c = Ocxl_mmio_read64 1 LATENCY_STATS then (0, 0x2000000064) else (0, 7)),
     junk = (\<lambda>_ _. 0), rodata = (\<lambda>_. []) \<rparr>"

lemma stats_iter_running_witness:
  "\<exists>w'. stats_iter stats_env 1 3 1 init_world = Some (Running, w') \<and>
     (\<exists>tx rx lat avg. average_latency lat = Some avg \<and>
       trace w' = trace init_world @ [Pthread_setcancelstate False, Ocxl_mmio_read64 1 TX_STATS,
       Ocxl_mmio_read64 1 RX_STATS, Ocxl_mmio_read64 1 LATENCY_STATS, Dprintf 3 tx rx avg,
       Pthread_setcancelstate True, Sleep 1] \<and> w' = init_world\<lparr>trace := trace w'\<rparr>)"
proof -
  obtain w' where "stats_iter stats_env 1 3 1 init_world = Some (Running, w')"
    by (simp add: stats_iter_def stats_env_def sys_def average_latency_def TX_STATS_def
        RX_STATS_def LATENCY_STATS_def init_world_def)
  then show ?thesis using stats_iter_running [of stats_env 1 3 1 init_world w'] by blast
qed

end
