(* ===== verification/TFConn.thy ===== *)
theory TFConn imports TFStats begin

text \<open>
  The connection registry of \<^verbatim>\<open>libthymesisflow/src/connection.c\<close>: a singly linked list of
  heap nodes with the global head \<^verbatim>\<open>clist\<close>.  The operations are modelled on the heap; the
  list is then abstracted to the sequence of its nodes and to a map from circuit ids to
  connections, and shown to implement the registry interface.
\<close>

section \<open>Model\<close>

text \<open>
  \<^verbatim>\<open>new_conn\<close>: the last four fields of a connection, pointers, exist in the non-\<^verbatim>\<open>MOCK\<close> build
  only, which makes \<open>sizeof(connection)\<close> 360 there and 328 in the \<^verbatim>\<open>MOCK\<close> build.  A \<^verbatim>\<open>malloc\<close> result that is \<^verbatim>\<open>NULL\<close> is
  dereferenced; a result that is in use is not a result of \<^verbatim>\<open>malloc\<close>.  Fields the code
  does not set keep what the block held: the last byte of \<^verbatim>\<open>circuit_id\<close>, \<^verbatim>\<open>ea\<close>, the AFU
  and MMIO handles.
\<close>

definition conn_size :: "env \<Rightarrow> nat" where
  "conn_size env = (if mock env then 328 else 360)"

lemma conn_size_simps [simp]: "mock env \<Longrightarrow> conn_size env = 328" "\<not> mock env \<Longrightarrow> conn_size env = 360"
  by (simp_all add: conn_size_def)

definition new_conn ::
    "env \<Rightarrow> cptr \<Rightarrow> cptr \<Rightarrow> u64 \<Rightarrow> cint \<Rightarrow> world \<Rightarrow> (u64 \<times> world) option" where
  "new_conn env cid afu_nm sz nohp w =
     (let ((_, a), w1) = sys env (Malloc (conn_size env)) w;
          jw = junk_word env (trace w) in
      if a = 0 \<or> heap w a \<noteq> None then None
      else do {
        c \<leftarrow> cid;
        id_bytes \<leftarrow> mem_read 0 CIRCUIT_ID_SIZE c;
        n \<leftarrow> afu_nm;
        name_bytes \<leftarrow> strncpy_src n AFUNAME_SIZE;
        Some (a, w1\<lparr>heap := (heap w1)(a \<mapsto>
          \<lparr> circuit_id = id_bytes @ [junk env (trace w) 36],
            afu_name = name_bytes, csize = sz, ea = jw 304, cnext = 0,
            no_hotplug = nohp, afu = jw 328, stat_tid = 0,
            global = jw 344, pp_mmio = jw 352 \<rparr>)\<rparr>) })"

text \<open>The search loop; \<open>None\<close> if a pointer dangles or the list is cyclic.\<close>

partial_function (option) get_conn_loop ::
    "(u64 \<Rightarrow> connection option) \<Rightarrow> bytes \<Rightarrow> u64 \<Rightarrow> u64 option" where
  "get_conn_loop h cid runner =
     (if runner \<noteq> 0 then do {
        r \<leftarrow> h runner;
        m \<leftarrow> strncmp_eq (circuit_id r) cid CIRCUIT_ID_SIZE;
        if m then Some runner else get_conn_loop h cid (cnext r) }
      else Some runner)"

definition get_conn :: "cptr \<Rightarrow> world \<Rightarrow> u64 option" where
  "get_conn cid w =
     (if clist w = 0 then Some 0 else do { c \<leftarrow> cid; get_conn_loop (heap w) c (clist w) })"

definition add_conn :: "u64 \<Rightarrow> world \<Rightarrow> (cint \<times> world) option" where
  "add_conn conn w =
     (if clist w = 0 then Some (CONN_NULL, w\<lparr>clist := conn\<rparr>)
      else do {
        c \<leftarrow> heap w conn;
        found \<leftarrow> get_conn (Some (circuit_id c)) w;
        if found \<noteq> 0 then Some (CONN_DUP, w)
        else Some (CONN_SUCCESS,
               w\<lparr>clist := conn, heap := (heap w)(conn \<mapsto> c\<lparr>cnext := clist w\<rparr>)\<rparr>) })"

text \<open>
  The argument's \<^verbatim>\<open>circuit_id\<close> is read for the log message before the \<^verbatim>\<open>NULL\<close> test.
\<close>

definition free_conn :: "env \<Rightarrow> u64 \<Rightarrow> world \<Rightarrow> (cint \<times> world) option" where
  "free_conn env conn w = do {
     c \<leftarrow> heap w conn;
     let w1 = (if mock env then w else snd (sys env (Ocxl_afu_close (afu c)) w));
     Some (CONN_SUCCESS, w1\<lparr>trace := trace w1 @ [Free conn], heap := (heap w1)(conn := None)\<rparr>) }"

definition unlink_conn :: "u64 \<Rightarrow> u64 \<Rightarrow> connection \<Rightarrow> world \<Rightarrow> world option" where
  "unlink_conn runner prev r w =
     (if runner = clist w then Some (w\<lparr>clist := cnext r\<rparr>)
      else do { p \<leftarrow> heap w prev;
                Some (w\<lparr>heap := (heap w)(prev \<mapsto> p\<lparr>cnext := cnext r\<rparr>)\<rparr>) })"

text \<open>The matching branch of the loop of \<^verbatim>\<open>del_conn\<close>.\<close>

definition drop_conn ::
    "env \<Rightarrow> u64 \<Rightarrow> u64 \<Rightarrow> connection \<Rightarrow> world \<Rightarrow> (cint \<times> world) option" where
  "drop_conn env runner prev r w = do {
     w1 \<leftarrow> unlink_conn runner prev r w;
     w2 \<leftarrow> (if \<not> mock env \<and> stat_tid r \<noteq> 0
            then map_option snd (stop_stats_thread env (stat_tid r) w1) else Some w1);
     (_, w3) \<leftarrow> free_conn env runner w2;
     Some (CONN_SUCCESS, w3) }"

partial_function (option) del_conn_loop ::
    "env \<Rightarrow> bytes \<Rightarrow> u64 \<Rightarrow> u64 \<Rightarrow> world \<Rightarrow> (cint \<times> world) option" where
  "del_conn_loop env cid runner prev w =
     (if runner \<noteq> 0 then do {
        r \<leftarrow> heap w runner;
        m \<leftarrow> strncmp_eq (circuit_id r) cid CIRCUIT_ID_SIZE;
        if m then drop_conn env runner prev r w
        else del_conn_loop env cid (cnext r) runner w }
      else Some (CONN_NOT_FOUND, w))"

definition del_conn :: "env \<Rightarrow> cptr \<Rightarrow> world \<Rightarrow> (cint \<times> world) option" where
  "del_conn env cid w =
     (case cid of
        None \<Rightarrow> Some (CONN_NULL, w)
      | Some c \<Rightarrow>
          if clist w = 0 then Some (CONN_NULL, w)
          else del_conn_loop env c (clist w) 0 w)"

text \<open>The two lines both attach functions start with; the result of \<^verbatim>\<open>add_conn\<close> is dropped.\<close>

definition register_conn ::
    "env \<Rightarrow> cptr \<Rightarrow> cptr \<Rightarrow> u64 \<Rightarrow> cint \<Rightarrow> world \<Rightarrow> (u64 \<times> world) option" where
  "register_conn env cid afu_nm sz nohp w = do {
     (conn, w1) \<leftarrow> new_conn env cid afu_nm sz nohp w;
     (_, w2) \<leftarrow> add_conn conn w1;
     Some (conn, w2) }"

section \<open>The list in the heap\<close>

text \<open>\<open>lseg h p as q\<close>: following \<open>cnext\<close> from \<open>p\<close> visits the nodes \<open>as\<close> and ends at \<open>q\<close>.\<close>

fun lseg :: "(u64 \<Rightarrow> connection option) \<Rightarrow> u64 \<Rightarrow> u64 list \<Rightarrow> u64 \<Rightarrow> bool" where
  "lseg h p [] q = (p = q)"
| "lseg h p (a # as) q =
     (p = a \<and> a \<noteq> 0 \<and> (case h a of None \<Rightarrow> False | Some c \<Rightarrow> lseg h (cnext c) as q))"

definition cid_key :: "bytes \<Rightarrow> bytes" where
  "cid_key bs = upto_nul (take CIRCUIT_ID_SIZE bs)"

definition conn_key :: "(u64 \<Rightarrow> connection option) \<Rightarrow> u64 \<Rightarrow> bytes" where
  "conn_key h a = (case h a of None \<Rightarrow> [] | Some c \<Rightarrow> cid_key (circuit_id c))"

text \<open>
  The invariant of the registry, with the nodes of the list: a chain of distinct allocated
  nodes ending in \<^verbatim>\<open>NULL\<close>, with circuit ids of full width and pairwise different.
\<close>

definition reg_list :: "world \<Rightarrow> u64 list \<Rightarrow> bool" where
  "reg_list w as \<longleftrightarrow>
     lseg (heap w) (clist w) as 0 \<and> distinct as \<and>
     (\<forall>a \<in> set as. \<forall>c. heap w a = Some c \<longrightarrow> length (circuit_id c) = Suc CIRCUIT_ID_SIZE) \<and>
     distinct (map (conn_key (heap w)) as)"

definition reg_inv :: "world \<Rightarrow> bool" where
  "reg_inv w \<longleftrightarrow> (\<exists>as. reg_list w as)"

lemma lseg_append:
  "lseg h p (as @ bs) q \<longleftrightarrow> (\<exists>r. lseg h p as r \<and> lseg h r bs q)"
  by (induction as arbitrary: p) (auto split: option.splits)

lemma lseg_upd [simp]: "a \<notin> set as \<Longrightarrow> lseg (h(a := x)) p as q = lseg h p as q"
  by (induction as arbitrary: p) (auto split: option.splits)

lemma lseg_alloc: "lseg h p as q \<Longrightarrow> a \<in> set as \<Longrightarrow> a \<noteq> 0 \<and> (\<exists>c. h a = Some c)"
  by (induction as arbitrary: p) (auto split: option.splits)

lemma lseg_Null [simp]: "lseg h 0 as q \<longleftrightarrow> as = [] \<and> q = 0"
  by (cases as) auto

lemma lseg_unique: "lseg h p as 0 \<Longrightarrow> lseg h p bs 0 \<Longrightarrow> as = bs"
proof (induction as arbitrary: p bs)
  case Nil
  then show ?case by simp
next
  case (Cons a as)
  then show ?case by (cases bs) (auto split: option.splits)
qed

lemma conn_key_upd [simp]: "a \<notin> set as \<Longrightarrow> map (conn_key (h(a := x))) as = map (conn_key h) as"
  by (simp add: conn_key_def)

lemma strncmp_cid:
  assumes "CIRCUIT_ID_SIZE \<le> length a" "CIRCUIT_ID_SIZE \<le> length b"
  shows "strncmp_eq a b CIRCUIT_ID_SIZE = Some (cid_key a = cid_key b)"
  using assms unfolding cid_key_def by (intro strncmp_eq_iff) auto

lemma lseg_cong:
  assumes "\<forall>a \<in> set as. map_option cnext (h a) = map_option cnext (h' a)"
  shows "lseg h p as q = lseg h' p as q"
  using assms by (induction as arbitrary: p) (auto split: option.splits)

lemma conn_key_cong:
  "map_option circuit_id (h a) = map_option circuit_id (h' a) \<Longrightarrow> conn_key h a = conn_key h' a"
  by (auto simp: conn_key_def split: option.splits)

lemma reg_list_cong:
  assumes "clist w = clist w'"
    and "\<forall>a \<in> set as. map_option cnext (heap w a) = map_option cnext (heap w' a)"
    and "\<forall>a \<in> set as. map_option circuit_id (heap w a) = map_option circuit_id (heap w' a)"
  shows "reg_list w as = reg_list w' as"
proof -
  have keys: "map (conn_key (heap w)) as = map (conn_key (heap w')) as"
    using assms(3) by (auto intro: conn_key_cong)
  have "(\<forall>c. heap w a = Some c \<longrightarrow> length (circuit_id c) = Suc CIRCUIT_ID_SIZE) \<longleftrightarrow>
      (\<forall>c. heap w' a = Some c \<longrightarrow> length (circuit_id c) = Suc CIRCUIT_ID_SIZE)" if "a \<in> set as" for a
    using assms(3) that by (cases "heap w a"; cases "heap w' a") auto
  then show ?thesis
    unfolding reg_list_def keys using assms(1) lseg_cong [OF assms(2)] by (simp cong: ball_cong)
qed

text \<open>Changing other fields of a node, or anything outside the list, keeps the registry.\<close>

lemma reg_list_frame:
  "heap w' = heap w \<Longrightarrow> clist w' = clist w \<Longrightarrow> reg_list w' as = reg_list w as"
  by (simp add: reg_list_def)

lemma reg_list_node_upd:
  assumes "heap w a = Some c" "cnext c' = cnext c" "circuit_id c' = circuit_id c"
    and "heap w' = (heap w)(a \<mapsto> c')" "clist w' = clist w"
  shows "reg_list w' as = reg_list w as"
  by (rule reg_list_cong) (use assms in auto)

section \<open>The operations on the list\<close>

definition node_of :: "(u64 \<Rightarrow> connection option) \<Rightarrow> u64 list \<Rightarrow> bytes \<Rightarrow> u64" where
  "node_of h as k = (case find (\<lambda>a. conn_key h a = k) as of None \<Rightarrow> 0 | Some a \<Rightarrow> a)"

lemma node_of_simps [simp]:
  "node_of h [] k = 0"
  "node_of h (a # as) k = (if conn_key h a = k then a else node_of h as k)"
  by (simp_all add: node_of_def)

lemma node_of_mem:
  "0 \<notin> set as \<Longrightarrow> node_of h as k = (if k \<in> conn_key h ` set as then node_of h as k else 0) \<and>
    (node_of h as k \<noteq> 0 \<longleftrightarrow> k \<in> conn_key h ` set as) \<and>
    (node_of h as k \<noteq> 0 \<longrightarrow> node_of h as k \<in> set as \<and> conn_key h (node_of h as k) = k)"
  by (induction as) auto

lemma reg_list_no_null: "reg_list w as \<Longrightarrow> 0 \<notin> set as"
  unfolding reg_list_def using lseg_alloc by blast

lemma get_conn_loop_correct:
  assumes "lseg h p as 0" "CIRCUIT_ID_SIZE \<le> length cid"
    and "\<forall>a \<in> set as. \<forall>c. h a = Some c \<longrightarrow> length (circuit_id c) = Suc CIRCUIT_ID_SIZE"
  shows "get_conn_loop h cid p = Some (node_of h as (cid_key cid))"
  using assms
proof (induction as arbitrary: p)
  case Nil
  then show ?case by (simp add: get_conn_loop.simps)
next
  case (Cons a as)
  then obtain c where c: "p = a" "a \<noteq> 0" "h a = Some c" "lseg h (cnext c) as 0"
    by (auto split: option.splits)
  have "strncmp_eq (circuit_id c) cid CIRCUIT_ID_SIZE = Some (cid_key (circuit_id c) = cid_key cid)"
    using Cons.prems c by (intro strncmp_cid) auto
  moreover have "conn_key h a = cid_key (circuit_id c)" using c by (simp add: conn_key_def)
  moreover have "get_conn_loop h cid (cnext c) = Some (node_of h as (cid_key cid))"
    using Cons.prems c by (intro Cons.IH) auto
  ultimately show ?case
    using c by (subst get_conn_loop.simps) simp
qed

lemma get_conn_correct:
  assumes "reg_list w as" "CIRCUIT_ID_SIZE \<le> length cid"
  shows "get_conn (Some cid) w = Some (node_of (heap w) as (cid_key cid))"
proof (cases "clist w = 0")
  case True
  then have "as = []" using assms(1) by (cases as) (auto simp: reg_list_def)
  with True show ?thesis by (simp add: get_conn_def)
next
  case False
  then show ?thesis
    using assms get_conn_loop_correct [of "heap w" "clist w" as cid]
    by (simp add: get_conn_def reg_list_def)
qed

text \<open>Adding a node that is not in the list yet.\<close>

lemma add_conn_correct:
  assumes "reg_list w as" "heap w a = Some c" "a \<noteq> 0" "a \<notin> set as"
    and "length (circuit_id c) = Suc CIRCUIT_ID_SIZE" "cnext c = 0"
  shows "\<exists>rc w'. add_conn a w = Some (rc, w') \<and>
     (if cid_key (circuit_id c) \<in> conn_key (heap w) ` set as
      then rc = CONN_DUP \<and> w' = w
      else rc = (if as = [] then CONN_NULL else CONN_SUCCESS) \<and>
           w' = w\<lparr>clist := a, heap := (heap w)(a \<mapsto> c\<lparr>cnext := clist w\<rparr>)\<rparr> \<and>
           reg_list w' (a # as))"
proof (cases "clist w = 0")
  case True
  then have "as = []" using assms(1) by (cases as) (auto simp: reg_list_def)
  then show ?thesis
    using True assms by (auto simp: add_conn_def reg_list_def fun_upd_idem)
next
  case False
  then have ne: "as \<noteq> []" using assms(1) by (auto simp: reg_list_def)
  have nz: "0 \<notin> set as" using assms(1) by (rule reg_list_no_null)
  have found: "get_conn (Some (circuit_id c)) w =
      Some (node_of (heap w) as (cid_key (circuit_id c)))"
    using assms by (intro get_conn_correct) auto
  show ?thesis
  proof (cases "cid_key (circuit_id c) \<in> conn_key (heap w) ` set as")
    case True
    then show ?thesis
      using False assms found node_of_mem [OF nz, of "heap w" "cid_key (circuit_id c)"]
      by (simp add: add_conn_def)
  next
    case new: False
    let ?w' = "w\<lparr>clist := a, heap := (heap w)(a \<mapsto> c\<lparr>cnext := clist w\<rparr>)\<rparr>"
    have "add_conn a w = Some (CONN_SUCCESS, ?w')"
      using False new assms found node_of_mem [OF nz, of "heap w" "cid_key (circuit_id c)"]
      by (simp add: add_conn_def)
    moreover have "reg_list ?w' (a # as)"
    proof -
      have "conn_key ((heap w)(a \<mapsto> c\<lparr>cnext := clist w\<rparr>)) a = cid_key (circuit_id c)"
        by (simp add: conn_key_def)
      then show ?thesis
        using assms new by (auto simp: reg_list_def)
    qed
    ultimately show ?thesis using new ne by simp
  qed
qed

text \<open>
  Removing: the loop stops at the first node with the key.  \<open>prev\<close> is the node before
  \<open>runner\<close>, which is all the code uses it for.
\<close>

lemma del_conn_loop_skip:
  assumes "lseg (heap w) p as 0" "CIRCUIT_ID_SIZE \<le> length cid"
    and "\<forall>a \<in> set as. \<forall>c. heap w a = Some c \<longrightarrow> length (circuit_id c) = Suc CIRCUIT_ID_SIZE"
  shows "del_conn_loop env cid p prev w =
     (case find (\<lambda>a. conn_key (heap w) a = cid_key cid) as of
        None \<Rightarrow> Some (CONN_NOT_FOUND, w)
      | Some a \<Rightarrow> drop_conn env a
          (last (prev # takeWhile (\<lambda>b. conn_key (heap w) b \<noteq> cid_key cid) as)) (the (heap w a)) w)"
  using assms
proof (induction as arbitrary: p prev)
  case Nil
  then show ?case by (simp add: del_conn_loop.simps)
next
  case (Cons a as)
  then obtain c where c: "p = a" "a \<noteq> 0" "heap w a = Some c" "lseg (heap w) (cnext c) as 0"
    by (auto split: option.splits)
  have m: "strncmp_eq (circuit_id c) cid CIRCUIT_ID_SIZE = Some (conn_key (heap w) a = cid_key cid)"
    using Cons.prems c strncmp_cid [of "circuit_id c" cid] by (simp add: conn_key_def)
  show ?case
  proof (cases "conn_key (heap w) a = cid_key cid")
    case True
    then show ?thesis using c m by (subst del_conn_loop.simps) simp
  next
    case False
    have "del_conn_loop env cid p prev w = del_conn_loop env cid (cnext c) p w"
      using c m False by (subst del_conn_loop.simps) simp
    also have "\<dots> = (case find (\<lambda>a. conn_key (heap w) a = cid_key cid) as of
        None \<Rightarrow> Some (CONN_NOT_FOUND, w)
      | Some b \<Rightarrow> drop_conn env b
          (last (p # takeWhile (\<lambda>b. conn_key (heap w) b \<noteq> cid_key cid) as)) (the (heap w b)) w)"
      using Cons.prems c by (intro Cons.IH) auto
    finally show ?thesis using False c(1) by (simp split: option.split)
  qed
qed

text \<open>Unlinking the node after \<open>pre\<close>.\<close>

lemma lseg_last_upd:
  assumes "lseg h p (pre @ [b]) q" "h b = Some c" "b \<notin> set pre"
  shows "lseg (h(b \<mapsto> c\<lparr>cnext := r\<rparr>)) p (pre @ [b]) r"
  using assms by (auto simp: lseg_append)

lemma unlink_conn_correct:
  assumes reg: "reg_list w (pre @ a # post)" and r: "heap w a = Some r"
    and prev: "pre \<noteq> [] \<Longrightarrow> prev = last pre"
  shows "\<exists>w1. unlink_conn a prev r w = Some w1 \<and> reg_list w1 (pre @ post) \<and>
     heap w1 a = Some r \<and> w1 = w\<lparr>clist := clist w1, heap := heap w1\<rparr> \<and>
     (\<forall>x. map_option (cnext_update (\<lambda>_. 0)) (heap w1 x) = map_option (cnext_update (\<lambda>_. 0)) (heap w x))"
proof -
  from reg have seg: "lseg (heap w) (clist w) pre a" "lseg (heap w) (cnext r) post 0"
    and dist: "distinct (pre @ a # post)" and a: "a \<noteq> 0"
    and len: "\<forall>b \<in> set (pre @ a # post). \<forall>c. heap w b = Some c \<longrightarrow> length (circuit_id c) = Suc CIRCUIT_ID_SIZE"
    and keys: "distinct (map (conn_key (heap w)) (pre @ a # post))"
    using r by (auto simp: reg_list_def lseg_append)
  show ?thesis
  proof (cases pre rule: rev_cases)
    case Nil
    then have "clist w = a" using seg by simp
    then show ?thesis
      using Nil seg dist len keys r by (auto simp: unlink_conn_def reg_list_def)
  next
    case (snoc pre' b)
    then obtain p where p: "heap w b = Some p" "prev = b"
      using seg prev by (auto simp: lseg_append split: option.splits)
    have ab: "a \<noteq> b" "b \<notin> set pre'" "b \<notin> set post" using dist snoc by auto
    have ac: "a \<noteq> clist w"
    proof
      assume eq: "a = clist w"
      from snoc have "pre \<noteq> []" by simp
      then obtain x xs where "pre = x # xs" by (auto simp: neq_Nil_conv)
      then have "a \<in> set pre" using seg(1) eq by (auto split: option.splits)
      then show False using dist by auto
    qed
    let ?h = "(heap w)(b \<mapsto> p\<lparr>cnext := cnext r\<rparr>)"
    let ?w1 = "w\<lparr>heap := ?h\<rparr>"
    have "unlink_conn a prev r w = Some ?w1"
      using ac p by (simp add: unlink_conn_def)
    moreover have "lseg ?h (clist w) (pre @ post) 0"
      using lseg_last_upd [of "heap w" "clist w" pre' b a p "cnext r"] seg snoc p ab
      by (auto simp: lseg_append)
    moreover have "reg_list ?w1 (pre @ post)"
    proof -
      have keyf: "conn_key ?h = conn_key (heap w)"
        using p by (auto simp: conn_key_def)
      have "\<forall>c. ?h x = Some c \<longrightarrow> length (circuit_id c) = Suc CIRCUIT_ID_SIZE"
        if "x \<in> set (pre @ post)" for x
        using len p that snoc by auto
      then show ?thesis
        using dist keys \<open>lseg ?h (clist w) (pre @ post) 0\<close> by (simp add: reg_list_def keyf)
    qed
    ultimately show ?thesis
      using r ab p by simp
  qed
qed

text \<open>\<open>stop_stats_thread\<close> and the AFU calls do not touch the registry.\<close>

lemma stop_stats_frame:
  "stop_stats_thread env tid w = Some (rc, w') \<Longrightarrow>
   heap w' = heap w \<and> clist w' = clist w \<and> live w' = live w \<and> nbufs w' = nbufs w"
  by (auto simp: stop_stats_thread_def Let_def split: if_splits)

lemma tf_init_stats_frame:
  "tf_init_stats_thread env tid g period w = Some (rc, w') \<Longrightarrow>
   heap w' = heap w \<and> clist w' = clist w \<and> live w' = live w"
  by (auto simp: tf_init_stats_thread_def malloc_buf_def sys_def Let_def split: if_splits prod.splits)

lemma start_stats_frame:
  "start_stats_thread env g w = Some (r, w') \<Longrightarrow>
   heap w' = heap w \<and> clist w' = clist w \<and> live w' = live w"
  by (auto simp: start_stats_thread_def sys_def Let_def split: if_splits prod.splits
      dest: tf_init_stats_frame)

lemma drop_conn_Some:
  "drop_conn env a prev r w = Some (rc, w') \<longleftrightarrow>
   rc = CONN_SUCCESS \<and>
   (\<exists>w1 w2 y. unlink_conn a prev r w = Some w1 \<and>
      (if \<not> mock env \<and> stat_tid r \<noteq> 0
       then map_option snd (stop_stats_thread env (stat_tid r) w1) else Some w1) = Some w2 \<and>
      free_conn env a w2 = Some (y, w'))"
  unfolding drop_conn_def bind_Some_iff
  by (simp only: split_paired_Ex prod.case option.inject prod.inject) blast

lemma free_conn_Some:
  "free_conn env a w = Some (y, w') \<Longrightarrow>
   heap w' = (heap w)(a := None) \<and> clist w' = clist w \<and> live w' = live w \<and> nbufs w' = nbufs w"
  by (auto simp: free_conn_def Let_def)

text \<open>The node that is removed keeps its fields, so \<open>free_conn\<close> closes the right AFU.\<close>

lemma drop_conn_correct:
  assumes reg: "reg_list w (pre @ a # post)" and r: "heap w a = Some r"
    and prev: "pre \<noteq> [] \<Longrightarrow> prev = last pre"
    and ret: "drop_conn env a prev r w = Some (rc, w')"
  shows "rc = CONN_SUCCESS \<and> reg_list w' (pre @ post) \<and> heap w' a = None \<and>
     live w' = live w \<and> nbufs w' = nbufs w \<and>
     (\<forall>x. x \<noteq> a \<longrightarrow> map_option (cnext_update (\<lambda>_. 0)) (heap w' x) =
                    map_option (cnext_update (\<lambda>_. 0)) (heap w x))"
proof -
  obtain w1 where w1: "unlink_conn a prev r w = Some w1" "reg_list w1 (pre @ post)"
      "heap w1 a = Some r" "w1 = w\<lparr>clist := clist w1, heap := heap w1\<rparr>"
      "\<And>x. map_option (cnext_update (\<lambda>_. 0)) (heap w1 x) =
           map_option (cnext_update (\<lambda>_. 0)) (heap w x)"
    using unlink_conn_correct [OF reg r prev] by blast
  have rest1: "live w1 = live w" "nbufs w1 = nbufs w"
    by (subst w1(4), simp)+
  from ret w1(1) obtain w2 y where
      st: "(if \<not> mock env \<and> stat_tid r \<noteq> 0
        then map_option snd (stop_stats_thread env (stat_tid r) w1) else Some w1) = Some w2"
      and w2: "free_conn env a w2 = Some (y, w')" "rc = CONN_SUCCESS"
    unfolding drop_conn_Some by (simp only: option.inject) blast
  have fr: "heap w2 = heap w1 \<and> clist w2 = clist w1 \<and> live w2 = live w1 \<and> nbufs w2 = nbufs w1"
    using st by (auto split: if_splits dest: stop_stats_frame)
  have "reg_list w2 (pre @ post)" using w1(2) fr reg_list_frame [of w2 w1] by simp
  moreover have "heap w' = (heap w2)(a := None)" "clist w' = clist w2" "live w' = live w2"
      "nbufs w' = nbufs w2"
    using free_conn_Some [OF w2(1)] by simp_all
  moreover have "a \<notin> set (pre @ post)" using reg by (auto simp: reg_list_def)
  ultimately have "reg_list w' (pre @ post)"
    using reg_list_cong [of w2 w' "pre @ post"] by auto
  then show ?thesis
    using w1(5) w2(2) fr rest1 \<open>heap w' = (heap w2)(a := None)\<close> \<open>live w' = live w2\<close> \<open>nbufs w' = nbufs w2\<close>
    by simp
qed

text \<open>
  \<open>del_conn\<close> on a registry: nothing is removed if no node has the key; otherwise exactly
  one node goes, and the others stay in order with their fields.
\<close>

lemma del_conn_absent:
  assumes "reg_list w as" "CIRCUIT_ID_SIZE \<le> length cid"
    and "cid_key cid \<notin> conn_key (heap w) ` set as"
  shows "del_conn env (Some cid) w =
     Some (if as = [] then CONN_NULL else CONN_NOT_FOUND, w)"
proof -
  have f: "find (\<lambda>a. conn_key (heap w) a = cid_key cid) as = None"
    using assms(3) by (force simp: find_None_iff)
  have e: "clist w = 0 \<longleftrightarrow> as = []"
    using assms(1) by (cases as) (auto simp: reg_list_def)
  show ?thesis
    using assms del_conn_loop_skip [of w "clist w" as cid env 0] f e
    by (auto simp: del_conn_def reg_list_def)
qed

lemma del_conn_split:
  assumes reg: "reg_list w as" and cid: "CIRCUIT_ID_SIZE \<le> length cid"
    and mem: "a \<in> set as" "conn_key (heap w) a = cid_key cid"
  obtains pre post r where "as = pre @ a # post" "heap w a = Some r"
    "del_conn env (Some cid) w = drop_conn env a (last (0 # pre)) r w"
proof -
  obtain pre post where as: "as = pre @ a # post" using mem by (auto dest: split_list)
  have dist: "distinct (map (conn_key (heap w)) as)" and seg: "lseg (heap w) (clist w) as 0"
    using reg by (auto simp: reg_list_def)
  have pre: "conn_key (heap w) b \<noteq> cid_key cid" if "b \<in> set pre" for b
    using dist mem as that by force
  obtain r where r: "heap w a = Some r" using lseg_alloc [OF seg mem(1)] by auto
  have f: "find (\<lambda>b. conn_key (heap w) b = cid_key cid) as = Some a"
    unfolding as using pre mem by (induction pre) auto
  have t: "takeWhile (\<lambda>b. conn_key (heap w) b \<noteq> cid_key cid) as = pre"
    unfolding as using pre mem by (induction pre) auto
  have "clist w \<noteq> 0" using seg mem(1) by (cases as) (auto split: option.splits)
  then have "del_conn env (Some cid) w = drop_conn env a (last (0 # pre)) r w"
    using del_conn_loop_skip [OF seg cid, of env 0] reg f t r
    by (simp add: del_conn_def reg_list_def)
  with as r show ?thesis by (rule that)
qed

section \<open>The registry as a map\<close>

text \<open>
  The registry, read off the list itself: the nodes one meets from \<open>clist\<close> on (\<open>None\<close> if a
  pointer dangles or the list is cyclic), as a map from circuit ids, C strings of at most 36
  characters, to connections, the list pointer left out.
\<close>

partial_function (option) conn_nodes :: "(u64 \<Rightarrow> connection option) \<Rightarrow> u64 \<Rightarrow> u64 list option" where
  "conn_nodes h p =
     (if p = 0 then Some []
      else do { c \<leftarrow> h p; as \<leftarrow> conn_nodes h (cnext c); Some (p # as) })"

definition payload :: "connection \<Rightarrow> connection" where
  "payload c = c\<lparr>cnext := 0\<rparr>"

definition registry :: "world \<Rightarrow> bytes \<Rightarrow> connection option" where
  "registry w =
     (case conn_nodes (heap w) (clist w) of
        None \<Rightarrow> Map.empty
      | Some as \<Rightarrow> map_of (map (\<lambda>a. (conn_key (heap w) a, payload (the (heap w a)))) as))"

lemma conn_nodes_lseg: "lseg h p as 0 \<Longrightarrow> conn_nodes h p = Some as"
proof (induction as arbitrary: p)
  case Nil
  then show ?case by (simp add: conn_nodes.simps)
next
  case (Cons a as)
  then obtain c where "p = a" "a \<noteq> 0" "h a = Some c" "lseg h (cnext c) as 0"
    by (auto split: option.splits)
  then show ?case using Cons.IH by (subst conn_nodes.simps) simp
qed

lemma conn_nodes_reg: "reg_list w as \<Longrightarrow> conn_nodes (heap w) (clist w) = Some as"
  by (simp add: reg_list_def conn_nodes_lseg)

lemma registry_map_of:
  assumes "reg_list w as"
  shows "registry w k =
     map_of (map (\<lambda>a. (conn_key (heap w) a, payload (the (heap w a)))) as) k"
  by (simp add: registry_def conn_nodes_reg [OF assms])

lemma registry_mem:
  assumes "reg_list w as"
  shows "registry w k \<noteq> None \<longleftrightarrow> k \<in> conn_key (heap w) ` set as"
proof -
  have "registry w k = None \<longleftrightarrow> k \<notin> conn_key (heap w) ` set as"
    unfolding registry_map_of [OF assms] map_of_eq_None_iff by (simp add: image_image)
  then show ?thesis by simp
qed

section \<open>Registering and removing\<close>

lemma new_conn_Some:
  assumes "new_conn env (Some cid) nm sz nohp w = Some (a, w1)"
  shows "\<exists>c. CIRCUIT_ID_SIZE \<le> length cid \<and> a \<noteq> 0 \<and> heap w a = None \<and>
     circuit_id c = take CIRCUIT_ID_SIZE cid @ [junk env (trace w) 36] \<and>
     csize c = sz \<and> no_hotplug c = nohp \<and> stat_tid c = 0 \<and> cnext c = 0 \<and>
     ea c = junk_word env (trace w) 304 \<and>
     w1 = w\<lparr>trace := trace w @ [Malloc (conn_size env)], heap := (heap w)(a \<mapsto> c)\<rparr>"
proof -
  from assms obtain nb where b: "CIRCUIT_ID_SIZE \<le> length cid" "a \<noteq> 0" "heap w a = None"
      "w1 = w\<lparr>trace := trace w @ [Malloc (conn_size env)], heap := (heap w)(a \<mapsto>
        \<lparr> circuit_id = take CIRCUIT_ID_SIZE cid @ [junk env (trace w) 36],
          afu_name = nb, csize = sz, ea = junk_word env (trace w) 304, cnext = 0,
          no_hotplug = nohp, afu = junk_word env (trace w) 328, stat_tid = 0,
          global = junk_word env (trace w) 344, pp_mmio = junk_word env (trace w) 352 \<rparr>)\<rparr>"
    by (auto simp: new_conn_def sys_def mem_read_def Let_def split: if_splits prod.splits)
  show ?thesis
    by (intro exI conjI; (rule b(1-3) | rule b(4))?; simp)
qed

lemma register_conn_correct:
  assumes reg: "reg_list w as"
    and ret: "register_conn env (Some cid) nm sz nohp w = Some (a, w')"
  shows "\<exists>c. CIRCUIT_ID_SIZE \<le> length cid \<and> a \<noteq> 0 \<and> heap w a = None \<and>
     heap w' a = Some c \<and> cid_key (circuit_id c) = cid_key cid \<and>
     length (circuit_id c) = Suc CIRCUIT_ID_SIZE \<and>
     csize c = sz \<and> no_hotplug c = nohp \<and> stat_tid c = 0 \<and> ea c = junk_word env (trace w) 304 \<and>
     reg_list w' (if cid_key cid \<in> conn_key (heap w) ` set as then as else a # as) \<and>
     (\<forall>x. x \<noteq> a \<longrightarrow> heap w' x = heap w x) \<and>
     live w' = live w \<and> nbufs w' = nbufs w \<and> cells w' = cells w \<and>
     trace w' = trace w @ [Malloc (conn_size env)]"
proof -
  from ret obtain w1 rc where new: "new_conn env (Some cid) nm sz nohp w = Some (a, w1)"
      and add: "add_conn a w1 = Some (rc, w')"
    by (auto simp: register_conn_def)
  obtain c where c: "CIRCUIT_ID_SIZE \<le> length cid" "a \<noteq> 0" "heap w a = None"
      "circuit_id c = take CIRCUIT_ID_SIZE cid @ [junk env (trace w) 36]"
      "csize c = sz" "no_hotplug c = nohp" "stat_tid c = 0" "cnext c = 0"
      "ea c = junk_word env (trace w) 304"
      "w1 = w\<lparr>trace := trace w @ [Malloc (conn_size env)], heap := (heap w)(a \<mapsto> c)\<rparr>"
    using new_conn_Some [OF new] by blast
  have len: "length (circuit_id c) = Suc CIRCUIT_ID_SIZE" using c(1,4) by simp
  have key: "cid_key (circuit_id c) = cid_key cid" using c(1,4) by (simp add: cid_key_def)
  have na: "a \<notin> set as" using reg c(3) lseg_alloc unfolding reg_list_def by fastforce
  have reg1: "reg_list w1 as" using reg na reg_list_cong [of w w1 as] c(10) by auto
  have keys: "conn_key (heap w1) ` set as = conn_key (heap w) ` set as"
    using na c(10) by (auto simp: conn_key_def)
  have "heap w1 a = Some c" using c(10) by simp
  from add_conn_correct [OF reg1 this c(2) na len c(8)] add
  show ?thesis
    unfolding key keys using c len key reg1
    by (cases "cid_key cid \<in> conn_key (heap w) ` set as") (simp_all, force+)
qed

text \<open>\<open>register_conn\<close> returns when \<^verbatim>\<open>malloc\<close> does and the two strings are readable.\<close>

lemma register_conn_defined:
  assumes reg: "reg_list w as"
    and m: "ext env (trace w) (Malloc (conn_size env)) = (r, a)" "a \<noteq> 0" "heap w a = None"
    and cid: "CIRCUIT_ID_SIZE \<le> length cid"
    and nm: "AFUNAME_SIZE \<le> length nm \<or> 0 \<in> set nm"
  shows "\<exists>w'. register_conn env (Some cid) (Some nm) sz nohp w = Some (a, w')"
proof -
  obtain nb where nb: "strncpy_src nm AFUNAME_SIZE = Some nb"
    using strncpy_src_defined [OF nm] by blast
  obtain w1 where new: "new_conn env (Some cid) (Some nm) sz nohp w = Some (a, w1)"
    using m cid nb by (auto simp: new_conn_def sys_def mem_read_in Let_def)
  obtain c where c: "heap w1 a = Some c" "cnext c = 0"
      "length (circuit_id c) = Suc CIRCUIT_ID_SIZE" "clist w1 = clist w" "heap w1 = (heap w)(a \<mapsto> c)"
    using m cid new_conn_Some [OF new] by auto
  have na: "a \<notin> set as" using reg m(3) lseg_alloc unfolding reg_list_def by fastforce
  have "reg_list w1 as" using reg na reg_list_cong [of w w1 as] c by auto
  from add_conn_correct [OF this c(1) m(2) na c(3,2)] new
  show ?thesis by (auto simp: register_conn_def)
qed

lemma del_conn_present:
  assumes reg: "reg_list w as" and cid: "CIRCUIT_ID_SIZE \<le> length cid"
    and mem: "a \<in> set as" "conn_key (heap w) a = cid_key cid"
    and ret: "del_conn env (Some cid) w = Some (rc, w')"
  shows "rc = CONN_SUCCESS \<and> reg_list w' (remove1 a as) \<and> heap w' a = None \<and>
     live w' = live w \<and> nbufs w' = nbufs w \<and>
     (\<forall>x. x \<noteq> a \<longrightarrow> map_option payload (heap w' x) = map_option payload (heap w x))"
proof -
  obtain pre post r where s: "as = pre @ a # post" "heap w a = Some r"
      "del_conn env (Some cid) w = drop_conn env a (last (0 # pre)) r w"
    using del_conn_split [OF reg cid mem] by metis
  have "a \<notin> set pre" using reg s(1) by (auto simp: reg_list_def)
  then have "remove1 a as = pre @ post" by (simp add: s(1) remove1_append)
  moreover have "payload = cnext_update (\<lambda>_. 0)" by (rule ext) (simp add: payload_def)
  ultimately show ?thesis
    using drop_conn_correct [of w pre a post r "last (0 # pre)" env rc w'] reg s ret by simp
qed

text \<open>In the \<^verbatim>\<open>MOCK\<close> build \<open>del_conn\<close> always returns; else if the node has no counter thread.\<close>

lemma del_conn_defined:
  assumes reg: "reg_list w as" and cid: "CIRCUIT_ID_SIZE \<le> length cid"
    and quiet: "mock env \<or> (\<forall>a \<in> set as. \<forall>c. heap w a = Some c \<longrightarrow>
       conn_key (heap w) a = cid_key cid \<longrightarrow> stat_tid c = 0)"
  shows "\<exists>rc w'. del_conn env (Some cid) w = Some (rc, w')"
proof (cases "cid_key cid \<in> conn_key (heap w) ` set as")
  case False
  then show ?thesis using del_conn_absent [OF reg cid] by blast
next
  case True
  then obtain a where mem: "a \<in> set as" "conn_key (heap w) a = cid_key cid" by auto
  obtain pre post r where s: "as = pre @ a # post" "heap w a = Some r"
      "del_conn env (Some cid) w = drop_conn env a (last (0 # pre)) r w"
    using del_conn_split [OF reg cid mem] by metis
  have prev: "pre \<noteq> [] \<Longrightarrow> last (0 # pre) = last pre" by simp
  obtain w1 where w1: "unlink_conn a (last (0 # pre)) r w = Some w1" "heap w1 a = Some r"
    using unlink_conn_correct [OF reg [unfolded s(1)] s(2) prev] by blast
  have st: "(if \<not> mock env \<and> stat_tid r \<noteq> 0
       then map_option snd (stop_stats_thread env (stat_tid r) w1) else Some w1) = Some w1"
    using quiet mem s(2) by auto
  obtain y w' where "free_conn env a w1 = Some (y, w')"
    using w1(2) by (auto simp: free_conn_def Let_def)
  then have "drop_conn env a (last (0 # pre)) r w = Some (CONN_SUCCESS, w')"
    unfolding drop_conn_Some using w1(1) st by blast
  then show ?thesis using s(3) by simp
qed

section \<open>Interface: a registry of connections\<close>

text \<open>
  What the attach and detach operations rely on.  \<open>ins k c w w'\<close> and \<open>del k w w'\<close> are
  the steps of the provider; a key that is present is not replaced.
\<close>

datatype ('k, 'c) reg_op = Ins 'k 'c | Del 'k

fun reg_apply :: "('k, 'c) reg_op \<Rightarrow> ('k \<Rightarrow> 'c option) \<Rightarrow> ('k \<Rightarrow> 'c option)" where
  "reg_apply (Ins k c) m = (if m k = None then m(k := Some c) else m)"
| "reg_apply (Del k) m = m(k := None)"

fun reg_run ::
    "('k \<Rightarrow> 'c \<Rightarrow> 'w \<Rightarrow> 'w \<Rightarrow> bool) \<Rightarrow> ('k \<Rightarrow> 'w \<Rightarrow> 'w \<Rightarrow> bool) \<Rightarrow>
     ('k, 'c) reg_op list \<Rightarrow> 'w \<Rightarrow> 'w \<Rightarrow> bool" where
  "reg_run ins del [] w w' \<longleftrightarrow> w = w'"
| "reg_run ins del (Ins k c # ops) w w' \<longleftrightarrow> (\<exists>u. ins k c w u \<and> reg_run ins del ops u w')"
| "reg_run ins del (Del k # ops) w w' \<longleftrightarrow> (\<exists>u. del k w u \<and> reg_run ins del ops u w')"

locale conn_registry =
  fixes inv :: "'w \<Rightarrow> bool"
    and look :: "'w \<Rightarrow> 'k \<Rightarrow> 'c option"
    and ins :: "'k \<Rightarrow> 'c \<Rightarrow> 'w \<Rightarrow> 'w \<Rightarrow> bool"
    and del :: "'k \<Rightarrow> 'w \<Rightarrow> 'w \<Rightarrow> bool"
  assumes ins_inv: "inv w \<Longrightarrow> ins k c w w' \<Longrightarrow> inv w'"
    and del_inv: "inv w \<Longrightarrow> del k w w' \<Longrightarrow> inv w'"
    and ins_look: "inv w \<Longrightarrow> ins k c w w' \<Longrightarrow> look w' = reg_apply (Ins k c) (look w)"
    and del_look: "inv w \<Longrightarrow> del k w w' \<Longrightarrow> look w' = reg_apply (Del k) (look w)"
begin

lemma run_refines:
  "inv w \<Longrightarrow> reg_run ins del ops w w' \<Longrightarrow> inv w' \<and> look w' = fold reg_apply ops (look w)"
proof (induction ops arbitrary: w)
  case Nil
  then show ?case by simp
next
  case (Cons x ops)
  show ?case
  proof (cases x)
    case (Ins k c)
    with Cons.prems obtain u where u: "ins k c w u" "reg_run ins del ops u w'" by auto
    show ?thesis
      using Cons.IH [OF ins_inv [OF Cons.prems(1) u(1)] u(2)] ins_look [OF Cons.prems(1) u(1)]
      by (simp add: Ins)
  next
    case (Del k)
    with Cons.prems obtain u where u: "del k w u" "reg_run ins del ops u w'" by auto
    show ?thesis
      using Cons.IH [OF del_inv [OF Cons.prems(1) u(1)] u(2)] del_look [OF Cons.prems(1) u(1)]
      by (simp add: Del fun_upd_def)
  qed
qed

lemma ins_del_restores:
  "inv w \<Longrightarrow> look w k = None \<Longrightarrow> ins k c w u \<Longrightarrow> del k u w' \<Longrightarrow> look w' = look w"
  using ins_look [of w k c u] del_look [of u k w'] ins_inv [of w k c u]
  by (auto simp: fun_eq_iff)

end

text \<open>The provider: registering a new connection and \<^verbatim>\<open>del_conn\<close>, in any environment.\<close>

definition conn_ins :: "bytes \<Rightarrow> connection \<Rightarrow> world \<Rightarrow> world \<Rightarrow> bool" where
  "conn_ins k c w w' \<longleftrightarrow> (\<exists>env cid nm sz nohp a.
     register_conn env (Some cid) nm sz nohp w = Some (a, w') \<and> k = cid_key cid \<and>
     map_option payload (heap w' a) = Some c)"

definition conn_del :: "bytes \<Rightarrow> world \<Rightarrow> world \<Rightarrow> bool" where
  "conn_del k w w' \<longleftrightarrow> (\<exists>env cid rc.
     CIRCUIT_ID_SIZE \<le> length cid \<and> k = cid_key cid \<and> del_conn env (Some cid) w = Some (rc, w'))"

lemma map_of_remove1:
  assumes "distinct (map f as)" "a \<in> set as"
  shows "map_of (map (\<lambda>x. (f x, g x)) (remove1 a as)) =
    (map_of (map (\<lambda>x. (f x, g x)) as))(f a := None)"
  using assms
proof (induction as)
  case Nil
  then show ?case by simp
next
  case (Cons x as)
  have absent: "map_of (map (\<lambda>x. (f x, g x)) as) (f x) = None"
    using Cons.prems by (force simp: map_of_eq_None_iff)
  show ?case
  proof (cases "x = a")
    case True
    with absent show ?thesis by auto
  next
    case False
    then have "f a \<in> f ` set as" "f x \<notin> f ` set as" using Cons.prems by auto
    then have "f a \<noteq> f x" by metis
    then show ?thesis using Cons False by (auto simp: fun_upd_twist)
  qed
qed

lemma reg_nodes_cong:
  assumes "\<forall>a \<in> set as. map_option payload (heap w' a) = map_option payload (heap w a)"
  shows "map (\<lambda>a. (conn_key (heap w') a, payload (the (heap w' a)))) as =
         map (\<lambda>a. (conn_key (heap w) a, payload (the (heap w a)))) as"
proof -
  have "conn_key (heap w') a = conn_key (heap w) a \<and>
      payload (the (heap w' a)) = payload (the (heap w a))" if "a \<in> set as" for a
  proof -
    have eq: "map_option payload (heap w' a) = map_option payload (heap w a)"
      using assms that by simp
    then have "map_option circuit_id (map_option payload (heap w' a)) =
        map_option circuit_id (map_option payload (heap w a))"
      by simp
    then have "conn_key (heap w') a = conn_key (heap w) a"
      by (intro conn_key_cong) (simp add: option.map_comp comp_def payload_def)
    with eq show ?thesis by (cases "heap w a"; cases "heap w' a") auto
  qed
  then show ?thesis by simp
qed

lemma conn_ins_correct:
  assumes "reg_inv w" "conn_ins k c w w'"
  shows "reg_inv w' \<and> registry w' = reg_apply (Ins k c) (registry w)"
proof -
  obtain as where as: "reg_list w as" using assms(1) by (auto simp: reg_inv_def)
  obtain env cid nm sz nohp a where ret: "register_conn env (Some cid) nm sz nohp w = Some (a, w')"
    and k: "k = cid_key cid" and c: "map_option payload (heap w' a) = Some c"
    using assms(2) by (auto simp: conn_ins_def)
  let ?nodes = "\<lambda>w. map (\<lambda>a. (conn_key (heap w) a, payload (the (heap w a)))) as"
  obtain d where d: "heap w a = None" "heap w' a = Some d" "cid_key (circuit_id d) = k"
      "reg_list w' (if k \<in> conn_key (heap w) ` set as then as else a # as)"
      "\<forall>x. x \<noteq> a \<longrightarrow> heap w' x = heap w x"
    using register_conn_correct [OF as ret] k by auto
  have "a \<notin> set as" using as d(1) lseg_alloc unfolding reg_list_def by fastforce
  then have nodes: "?nodes w' = ?nodes w" by (intro reg_nodes_cong) (use d(5) in auto)
  have look: "registry w = map_of (?nodes w)"
    by (rule ext) (rule registry_map_of [OF as])
  have mem: "registry w k = None \<longleftrightarrow> k \<notin> conn_key (heap w) ` set as"
    unfolding look map_of_eq_None_iff by (simp add: image_image)
  show ?thesis
  proof (cases "k \<in> conn_key (heap w) ` set as")
    case True
    then have "reg_list w' as" using d(4) by simp
    then have "registry w' = map_of (?nodes w')" by (intro ext registry_map_of)
    then show ?thesis using mem True \<open>reg_list w' as\<close> look nodes by (auto simp: reg_inv_def)
  next
    case False
    then have reg': "reg_list w' (a # as)" using d(4) by simp
    have "registry w' = map_of ((conn_key (heap w') a, payload (the (heap w' a))) # ?nodes w')"
      using registry_map_of [OF reg'] by (intro ext) simp
    also have "\<dots> = (registry w)(k := Some c)"
      unfolding nodes using look c d(2,3) by (simp add: conn_key_def)
    finally show ?thesis using mem False reg' by (auto simp: reg_inv_def)
  qed
qed

lemma conn_del_correct:
  assumes "reg_inv w" "conn_del k w w'"
  shows "reg_inv w' \<and> registry w' = reg_apply (Del k) (registry w)"
proof -
  obtain as where as: "reg_list w as" using assms(1) by (auto simp: reg_inv_def)
  obtain env cid rc where cid: "CIRCUIT_ID_SIZE \<le> length cid" "k = cid_key cid"
    and ret: "del_conn env (Some cid) w = Some (rc, w')"
    using assms(2) by (auto simp: conn_del_def)
  let ?nodes = "\<lambda>w as. map (\<lambda>a. (conn_key (heap w) a, payload (the (heap w a)))) as"
  have look: "registry w = map_of (?nodes w as)"
    by (rule ext) (rule registry_map_of [OF as])
  show ?thesis
  proof (cases "k \<in> conn_key (heap w) ` set as")
    case False
    then have "w' = w" using del_conn_absent [OF as cid(1)] ret cid(2) by auto
    moreover have "registry w k = None"
      unfolding look map_of_eq_None_iff using False by (simp add: image_image)
    ultimately show ?thesis using assms(1) by (auto simp: fun_upd_idem)
  next
    case True
    then obtain a where a: "a \<in> set as" "conn_key (heap w) a = cid_key cid" using cid(2) by auto
    have dist: "distinct as" "distinct (map (conn_key (heap w)) as)"
      using as by (auto simp: reg_list_def)
    have d: "reg_list w' (remove1 a as)"
        "\<forall>x. x \<noteq> a \<longrightarrow> map_option payload (heap w' x) = map_option payload (heap w x)"
      using del_conn_present [OF as cid(1) a ret] by simp_all
    have "?nodes w' (remove1 a as) = ?nodes w (remove1 a as)"
      using d(2) dist(1) by (intro reg_nodes_cong) auto
    then have "registry w' = map_of (?nodes w (remove1 a as))"
      by (intro ext) (simp only: registry_map_of [OF d(1)])
    also have "\<dots> = (registry w)(k := None)"
      unfolding look cid(2) a(2) [symmetric] by (rule map_of_remove1 [OF dist(2) a(1)])
    finally show ?thesis using d(1) by (auto simp: reg_inv_def)
  qed
qed

interpretation regs: conn_registry reg_inv registry conn_ins conn_del
proof unfold_locales
  fix w w' k c
  assume "reg_inv w" "conn_ins k c w w'"
  from conn_ins_correct [OF this] show "reg_inv w'"
    and "registry w' = reg_apply (Ins k c) (registry w)" by simp_all
next
  fix w w' k
  assume "reg_inv w" "conn_del k w w'"
  from conn_del_correct [OF this] show "reg_inv w'"
    and "registry w' = reg_apply (Del k) (registry w)" by simp_all
qed

section \<open>Properties\<close>

lemma reg_inv_init: "reg_inv init_world"
  by (auto simp: reg_inv_def reg_list_def intro!: exI [of _ "[]"])

definition demo_cid :: bytes where
  "demo_cid = replicate 36 65 @ [0]"

lemma demo_cid_key: "cid_key demo_cid = replicate 36 65" "CIRCUIT_ID_SIZE \<le> length demo_cid"
  by (simp_all add: demo_cid_def cid_key_def layout_defs upto_nul_id)

lemma demo_register:
  "\<exists>w'. register_conn (demo_env m) (Some demo_cid) (Some [65, 0]) sz nohp init_world =
     Some (4096, w')"
  by (rule register_conn_defined [of init_world "[]" _ 0])
     (simp_all add: reg_list_def demo_cid_key)

lemma demo_register_inv:
  "\<exists>w' c. register_conn (demo_env m) (Some demo_cid) (Some [65, 0]) sz nohp init_world =
     Some (4096, w') \<and> conn_ins (replicate 36 65) c init_world w' \<and> reg_inv w' \<and>
     registry w' (replicate 36 65) = Some c \<and> clist w' = 4096"
proof -
  obtain w' where w': "register_conn (demo_env m) (Some demo_cid) (Some [65, 0]) sz nohp init_world =
     Some (4096, w')" using demo_register by blast
  have reg0: "reg_list init_world []" by (simp add: reg_list_def)
  obtain c where c: "heap w' 4096 = Some c" "reg_list w' [4096]"
    using register_conn_correct [OF reg0 w'] by auto
  have ins: "conn_ins (replicate 36 65) (payload c) init_world w'"
    unfolding conn_ins_def using w' c(1) demo_cid_key(1) by fastforce
  moreover have "registry init_world = Map.empty"
    using registry_map_of [OF reg0] by auto
  ultimately show ?thesis
    using w' c conn_ins_correct [OF reg_inv_init ins] by (auto simp: reg_list_def split: option.splits)
qed

text \<open>
  C29: \<^verbatim>\<open>get_conn\<close> terminates on every well-formed list and returns the first node, in the order
  of the list, whose circuit id is the given one, and \<^verbatim>\<open>NULL\<close> exactly if there is none.
\<close>

theorem get_conn_decides:
  assumes "reg_inv w" "CIRCUIT_ID_SIZE \<le> length cid"
  shows "\<exists>as. conn_nodes (heap w) (clist w) = Some as \<and> 0 \<notin> set as \<and>
     get_conn (Some cid) w = Some (case find (\<lambda>a. conn_key (heap w) a = cid_key cid) as of
       None \<Rightarrow> 0 | Some a \<Rightarrow> a)"
proof -
  obtain as where as: "reg_list w as" using assms(1) by (auto simp: reg_inv_def)
  show ?thesis
    using conn_nodes_reg [OF as] reg_list_no_null [OF as] get_conn_correct [OF as assms(2)]
    by (intro exI [of _ as]) (simp add: node_of_def)
qed

lemma get_conn_decides_witness:
  "\<exists>w. conn_nodes (heap w) (clist w) = Some [4096] \<and> get_conn (Some demo_cid) w = Some 4096"
proof -
  obtain w where w: "register_conn (demo_env True) (Some demo_cid) (Some [65, 0]) 0 0 init_world =
     Some (4096, w)" using demo_register by blast
  have reg0: "reg_list init_world []" by (simp add: reg_list_def)
  obtain c where c: "heap w 4096 = Some c" "cid_key (circuit_id c) = cid_key demo_cid" "reg_list w [4096]"
    using register_conn_correct [OF reg0 w] by auto
  have "reg_inv w" unfolding reg_inv_def using c(3) by blast
  from get_conn_decides [OF this demo_cid_key(2)] conn_nodes_reg [OF c(3)] c(1,2)
  show ?thesis by (intro exI [of _ w]) (simp add: conn_key_def)
qed

text \<open>
  C4: any sequence of registrations and removals, whatever the environment answers,
  implements the same sequence on the map of circuit ids: a registration never replaces
  an entry, a removal affects its own id only, and the list stays well formed.
\<close>

theorem registry_refines:
  assumes "reg_inv w" "reg_run conn_ins conn_del ops w w'"
  shows "reg_inv w' \<and> registry w' = fold reg_apply ops (registry w)"
  using assms by (rule regs.run_refines)

lemma demo_del:
  assumes "reg_inv w"
  shows "\<exists>w'. conn_del (replicate 36 65) w w'"
proof -
  obtain as where "reg_list w as" using assms by (auto simp: reg_inv_def)
  then obtain rc w' where "del_conn (demo_env True) (Some demo_cid) w = Some (rc, w')"
    using del_conn_defined [of w as demo_cid "demo_env True"] demo_cid_key by auto
  then show ?thesis
    unfolding conn_del_def demo_cid_key(1) [symmetric] using demo_cid_key(2) by blast
qed

lemma registry_refines_witness:
  "\<exists>c w'. reg_run conn_ins conn_del [Ins (replicate 36 65) c, Del (replicate 36 65)] init_world w' \<and>
     reg_inv w' \<and> registry w' = (registry init_world)(replicate 36 65 := None)"
proof -
  obtain u c where u: "conn_ins (replicate 36 65) c init_world u" "reg_inv u"
    using demo_register_inv by blast
  obtain w' where "conn_del (replicate 36 65) u w'" using demo_del [OF u(2)] by blast
  with u have run: "reg_run conn_ins conn_del [Ins (replicate 36 65) c, Del (replicate 36 65)]
      init_world w'" by auto
  have "fold reg_apply [Ins (replicate 36 65) c, Del (replicate 36 65)] (registry init_world) =
      (registry init_world)(replicate 36 65 := None)"
    by (simp add: fun_eq_iff)
  with registry_refines [OF reg_inv_init run] run show ?thesis by metis
qed

text \<open>
  \<^verbatim>\<open>del_conn\<close> in the \<^verbatim>\<open>MOCK\<close> build always returns, reports whether it removed
  something, and removes exactly the entry of its id.
\<close>

theorem del_conn_mock:
  assumes "mock env" "reg_inv w" "CIRCUIT_ID_SIZE \<le> length cid"
  shows "\<exists>rc w'. del_conn env (Some cid) w = Some (rc, w') \<and> reg_inv w' \<and>
     registry w' = (registry w)(cid_key cid := None) \<and>
     rc = (if registry w (cid_key cid) \<noteq> None then CONN_SUCCESS
           else if clist w = 0 then CONN_NULL else CONN_NOT_FOUND)"
proof -
  obtain as where as: "reg_list w as" using assms(2) by (auto simp: reg_inv_def)
  obtain rc w' where ret: "del_conn env (Some cid) w = Some (rc, w')"
    using del_conn_defined [OF as assms(3)] assms(1) by blast
  have del: "conn_del (cid_key cid) w w'"
    unfolding conn_del_def using assms(3) ret by blast
  have mem: "registry w (cid_key cid) \<noteq> None \<longleftrightarrow> cid_key cid \<in> conn_key (heap w) ` set as"
    by (rule registry_mem [OF as])
  have empty: "clist w = 0 \<longleftrightarrow> as = []"
    using as by (cases as) (auto simp: reg_list_def)
  have "rc = (if registry w (cid_key cid) \<noteq> None then CONN_SUCCESS
           else if clist w = 0 then CONN_NULL else CONN_NOT_FOUND)"
  proof (cases "cid_key cid \<in> conn_key (heap w) ` set as")
    case True
    then obtain a where "a \<in> set as" "conn_key (heap w) a = cid_key cid" by auto
    from del_conn_present [OF as assms(3) this ret] show ?thesis using mem True by simp
  next
    case False
    then show ?thesis using del_conn_absent [OF as assms(3) False, of env] ret mem empty by simp
  qed
  then show ?thesis using ret regs.del_inv [OF assms(2) del] regs.del_look [OF assms(2) del] by simp
qed

lemma del_conn_mock_witness:
  "\<exists>w rc w'. registry w (cid_key demo_cid) \<noteq> None \<and>
     del_conn (demo_env True) (Some demo_cid) w = Some (rc, w') \<and>
     rc = CONN_SUCCESS \<and> registry w' (cid_key demo_cid) = None"
proof -
  obtain w c where w: "reg_inv w" "registry w (replicate 36 65) = Some c"
    using demo_register_inv by blast
  obtain rc w' where "del_conn (demo_env True) (Some demo_cid) w = Some (rc, w')"
      "registry w' = (registry w)(cid_key demo_cid := None)" "rc = CONN_SUCCESS"
    using del_conn_mock [of "demo_env True" w demo_cid] w demo_cid_key by auto
  then show ?thesis using w(2) demo_cid_key(1) by (intro exI [of _ w] exI) auto
qed

text \<open>
  what \<^verbatim>\<open>add_conn\<close> returns: \<^verbatim>\<open>CONN_DUP\<close> for a registered id, which it leaves alone;
  otherwise the node is put in front, and the status is \<^verbatim>\<open>CONN_NULL\<close>, not
  \<^verbatim>\<open>CONN_SUCCESS\<close>, exactly when the list was empty.
\<close>

theorem add_conn_status:
  assumes "reg_inv w" "heap w a = Some c" "a \<noteq> 0" "cnext c = 0"
    and "length (circuit_id c) = Suc CIRCUIT_ID_SIZE"
    and "\<forall>as. reg_list w as \<longrightarrow> a \<notin> set as"
  shows "\<exists>rc w'. add_conn a w = Some (rc, w') \<and>
     (if registry w (cid_key (circuit_id c)) \<noteq> None then rc = CONN_DUP \<and> w' = w
      else rc = (if clist w = 0 then CONN_NULL else CONN_SUCCESS) \<and> clist w' = a \<and> reg_inv w' \<and>
           registry w' = (registry w)(cid_key (circuit_id c) \<mapsto> payload c))"
proof -
  obtain as where as: "reg_list w as" using assms(1) by (auto simp: reg_inv_def)
  let ?k = "cid_key (circuit_id c)"
  have na: "a \<notin> set as" using as assms(6) by blast
  have mem: "registry w ?k \<noteq> None \<longleftrightarrow> ?k \<in> conn_key (heap w) ` set as"
    by (rule registry_mem [OF as])
  have empty: "clist w = 0 \<longleftrightarrow> as = []"
    using as by (cases as) (auto simp: reg_list_def)
  obtain rc w' where add: "add_conn a w = Some (rc, w')" and res:
      "if ?k \<in> conn_key (heap w) ` set as then rc = CONN_DUP \<and> w' = w
       else rc = (if as = [] then CONN_NULL else CONN_SUCCESS) \<and>
         w' = w\<lparr>clist := a, heap := (heap w)(a \<mapsto> c\<lparr>cnext := clist w\<rparr>)\<rparr> \<and> reg_list w' (a # as)"
    using add_conn_correct [OF as assms(2,3) na assms(5,4)] by blast
  show ?thesis
  proof (cases "?k \<in> conn_key (heap w) ` set as")
    case True
    then show ?thesis using add res mem by simp
  next
    case False
    have w': "rc = (if as = [] then CONN_NULL else CONN_SUCCESS)" "reg_list w' (a # as)"
        "w' = w\<lparr>clist := a, heap := (heap w)(a \<mapsto> c\<lparr>cnext := clist w\<rparr>)\<rparr>"
      using res unfolding if_not_P [OF False] by blast+
    have heap': "clist w' = a" "heap w' = (heap w)(a \<mapsto> c\<lparr>cnext := clist w\<rparr>)"
      by (simp_all add: w'(3))
    have nodes: "map (\<lambda>a. (conn_key (heap w') a, payload (the (heap w' a)))) as =
        map (\<lambda>a. (conn_key (heap w) a, payload (the (heap w a)))) as"
      using na heap'(2) by (intro reg_nodes_cong) auto
    have new: "(conn_key (heap w') a, payload (the (heap w' a))) = (?k, payload c)"
      by (simp add: heap'(2) conn_key_def payload_def)
    have "registry w' x = ((registry w)(?k \<mapsto> payload c)) x" for x
      by (simp only: registry_map_of [OF w'(2)] list.map nodes new)
         (simp add: registry_map_of [OF as])
    then have "registry w' = (registry w)(?k \<mapsto> payload c)" by blast
    then show ?thesis using add w'(1,2) heap'(1) False mem empty by (auto simp: reg_inv_def)
  qed
qed

definition demo_node :: connection where
  "demo_node = \<lparr> circuit_id = demo_cid, afu_name = [], csize = 0, ea = 0, cnext = 0,
     no_hotplug = 0, afu = 0, stat_tid = 0, global = 0, pp_mmio = 0 \<rparr>"

lemma add_conn_status_witness:
  "\<exists>w'. add_conn 64 (init_world\<lparr>heap := [64 \<mapsto> demo_node]\<rparr>) = Some (CONN_NULL, w') \<and>
     registry w' (cid_key demo_cid) = Some (payload demo_node)"
proof -
  let ?w = "init_world\<lparr>heap := [64 \<mapsto> demo_node]\<rparr>"
  have reg: "reg_list ?w []" by (simp add: reg_list_def)
  then have inv: "reg_inv ?w" unfolding reg_inv_def by blast
  have none: "registry ?w (cid_key demo_cid) = None"
    using registry_mem [OF reg] by auto
  have "\<forall>as. reg_list ?w as \<longrightarrow> 64 \<notin> set as" by (simp add: reg_list_def)
  then show ?thesis
    using add_conn_status [OF inv, of 64 demo_node] none
    by (auto simp: demo_node_def demo_cid_def layout_defs)
qed

end
