(* ===== verification/TFPort.thy ===== *)
theory TFPort imports TFConst begin

text \<open>
  \<^verbatim>\<open>libthymesisflow/src/iport.c\<close>: the list of AFU ports of a connection and its one-byte
  representation on the wire, bit \<open>p - 1\<close> for port \<open>p\<close>.  The list nodes come from
  \<^verbatim>\<open>malloc\<close>, which is taken to succeed for them; \<open>TFPortMem\<close> refines this model to nodes in
  memory and adds \<^verbatim>\<open>free_iport_list\<close> and the printing loop \<^verbatim>\<open>cycle_ports\<close>.
\<close>

section \<open>Model\<close>

text \<open>\<^verbatim>\<open>struct port_s\<close>; \<open>PNull\<close> is the \<^verbatim>\<open>NULL\<close> list.\<close>

datatype iport_list = PNull | Port (nport: cint) (pnext: iport_list)

primrec ports_of :: "iport_list \<Rightarrow> cint list" where
  "ports_of PNull = []"
| "ports_of (Port n pl) = n # ports_of pl"

text \<open>Both branches of the code build the same node; the first leaves \<open>next\<close> \<^verbatim>\<open>NULL\<close>.\<close>

definition add_port :: "iport_list \<Rightarrow> byte \<Rightarrow> iport_list" where
  "add_port pl port_number =
     (if pl = PNull then Port (ucast port_number) PNull
      else Port (ucast port_number) pl)"

text \<open>
  \<^verbatim>\<open>1 << (nport - 1)\<close> is a shift of an \<^verbatim>\<open>int\<close>: undefined for a negative amount and for an
  amount of 31 or more (the result would not fit).  The sum is cut to 8 bits.
\<close>

definition shl_one :: "cint \<Rightarrow> cint option" where
  "shl_one k = (if 0 \<le> sint k \<and> sint k < 31 then Some (push_bit (unat k) 1) else None)"

fun marshal_loop :: "byte \<Rightarrow> iport_list \<Rightarrow> byte option" where
  "marshal_loop port_rep PNull = Some port_rep"
| "marshal_loop port_rep (Port n pl) =
     do { b \<leftarrow> shl_one (n - 1); marshal_loop (port_rep + ucast b) pl }"

definition marshal_iports :: "iport_list \<Rightarrow> byte option" where
  "marshal_iports pl = marshal_loop 0 pl"

text \<open>The loop \<^verbatim>\<open>while (i)\<close> over an 8-bit \<open>i\<close> that is shifted left until it is 0.\<close>

partial_function (option) unmarshal_loop ::
    "byte \<Rightarrow> byte \<Rightarrow> byte \<Rightarrow> iport_list \<Rightarrow> iport_list option" where
  "unmarshal_loop n i pos pl =
     (if i \<noteq> 0
      then unmarshal_loop n (push_bit 1 i) (pos + 1)
             (if i AND n \<noteq> 0 then add_port pl pos else pl)
      else Some pl)"

definition unmarshal_iports :: "byte \<Rightarrow> iport_list option" where
  "unmarshal_iports n = unmarshal_loop n 1 1 PNull"

section \<open>Behaviour\<close>

lemma ports_of_add_port [simp]: "ports_of (add_port pl p) = ucast p # ports_of pl"
  by (cases pl) (simp_all add: add_port_def)

lemma ports_of_eq_Nil [simp]: "ports_of pl = [] \<longleftrightarrow> pl = PNull"
  by (cases pl) auto

text \<open>Ports of the mask from position \<open>k\<close> on, lowest first.\<close>

definition mask_ports :: "byte \<Rightarrow> nat list \<Rightarrow> cint list" where
  "mask_ports n ks = map (\<lambda>k. of_nat (Suc k)) (filter (bit n) ks)"

lemma bit_single: "bit (2 ^ k :: byte) j \<longleftrightarrow> k < 8 \<and> j = k"
  by (auto simp: bit_exp_iff)

lemma single_nonzero: "k < 8 \<Longrightarrow> (2 ^ k :: byte) \<noteq> 0"
  using bit_single [of k k] by auto

lemma and_single_bit: "k < 8 \<Longrightarrow> 2 ^ k AND n \<noteq> 0 \<longleftrightarrow> bit (n :: byte) k"
proof -
  assume k: "k < 8"
  have "2 ^ k AND n = (if bit n k then 2 ^ k else 0)"
    using k by (intro bit_word_eqI) (auto simp: bit_and_iff bit_single)
  with k show ?thesis by (simp add: single_nonzero)
qed

lemma unmarshal_loop_step:
  assumes k: "k < 8"
  shows "unmarshal_loop n (2 ^ k) (of_nat (Suc k)) pl =
     unmarshal_loop n (2 ^ Suc k) (of_nat (Suc (Suc k)))
       (if bit n k then add_port pl (of_nat (Suc k)) else pl)"
proof -
  have sh: "(2 ^ Suc k :: byte) = push_bit 1 (2 ^ k)"
    by (simp add: push_bit_eq_mult)
  have pos: "(of_nat (Suc (Suc k)) :: byte) = of_nat (Suc k) + 1" by simp
  show ?thesis
    unfolding sh pos using single_nonzero [OF k] and_single_bit [OF k, of n]
    by (subst unmarshal_loop.simps) (simp only: if_True not_False_eq_True)
qed

lemma unmarshal_loop_end: "unmarshal_loop n (2 ^ 8) pos pl = Some pl"
proof -
  have z: "(2 ^ 8 :: byte) = 0" by simp
  show ?thesis unfolding z by (subst unmarshal_loop.simps) simp
qed

lemma ucast_of_nat_small: "k < 8 \<Longrightarrow> ucast (of_nat (Suc k) :: byte) = (of_nat (Suc k) :: cint)"
  by (simp add: unsigned_of_nat take_bit_nat_eq_self del: of_nat_Suc)

text \<open>The loop collects the set bits of the mask, so the highest port ends up first.\<close>

lemma unmarshal_loop_ports:
  assumes "k \<le> 8"
  shows "\<exists>pl'. unmarshal_loop n (2 ^ k) (of_nat (Suc k)) pl = Some pl' \<and>
           ports_of pl' = rev (mask_ports n [k..<8]) @ ports_of pl"
  using assms
proof (induction k arbitrary: pl rule: inc_induct)
  case base
  show ?case by (simp only: unmarshal_loop_end) (simp add: mask_ports_def)
next
  case (step k)
  let ?pl = "if bit n k then add_port pl (of_nat (Suc k)) else pl"
  obtain pl' where pl': "unmarshal_loop n (2 ^ Suc k) (of_nat (Suc (Suc k))) ?pl = Some pl'"
      "ports_of pl' = rev (mask_ports n [Suc k..<8]) @ ports_of ?pl"
    using step.IH by blast
  have "ports_of ?pl = rev (mask_ports n [k]) @ ports_of pl"
    using step.hyps ucast_of_nat_small [of k] by (simp add: mask_ports_def)
  moreover have "mask_ports n [k..<8] = mask_ports n [k] @ mask_ports n [Suc k..<8]"
    using step.hyps by (simp add: mask_ports_def upt_conv_Cons)
  ultimately show ?case
    using pl' unmarshal_loop_step [OF step.hyps(2), of n pl] by simp
qed

lemma unmarshal_iports_ports:
  "\<exists>pl. unmarshal_iports n = Some pl \<and> ports_of pl = rev (mask_ports n [0..<8])"
  using unmarshal_loop_ports [of 0 n PNull] by (simp add: unmarshal_iports_def)

text \<open>What marshalling adds up.\<close>

definition port_ok :: "nat \<Rightarrow> cint \<Rightarrow> bool" where
  "port_ok m p \<longleftrightarrow> 1 \<le> unat p \<and> unat p \<le> m"

definition port_sum :: "cint list \<Rightarrow> byte" where
  "port_sum ps = (\<Sum>p\<leftarrow>ps. 2 ^ (unat p - 1))"

lemma ucast_two_pow: "ucast (2 ^ k :: cint) = (2 ^ k :: byte)"
  by (rule bit_word_eqI) (auto simp: bit_ucast_iff bit_single bit_exp_iff)

lemma shl_one_of_nat: "j < 31 \<Longrightarrow> shl_one (of_nat j) = Some (push_bit j 1)"
  by (simp add: shl_one_def signed_of_nat signed_take_bit_int_eq_self unat_of_nat take_bit_nat_eq_self)

lemma port_ok_of_nat:
  assumes "port_ok m p"
  obtains j where "p = of_nat (Suc j)" "Suc j = unat p" "j < m"
proof
  show "p = of_nat (Suc (unat p - 1))" using assms by (simp add: port_ok_def of_nat_diff)
  show "Suc (unat p - 1) = unat p" using assms by (simp add: port_ok_def)
  show "unat p - 1 < m" using assms by (auto simp: port_ok_def)
qed

lemma shl_one_port:
  assumes "port_ok 31 p"
  shows "shl_one (p - 1) = Some (push_bit (unat p - 1) 1)"
proof -
  obtain j where j: "p = of_nat (Suc j)" "Suc j = unat p" "j < 31"
    using assms by (rule port_ok_of_nat)
  have "p - 1 = of_nat j" using j(1) by simp
  then show ?thesis using shl_one_of_nat [OF j(3)] by (simp add: j(2) [symmetric])
qed

lemma marshal_loop_sum:
  assumes "\<forall>p \<in> set (ports_of pl). port_ok 31 p"
  shows "marshal_loop r pl = Some (r + port_sum (ports_of pl))"
  using assms
  by (induction r pl rule: marshal_loop.induct)
     (simp_all add: port_sum_def shl_one_port ucast_two_pow add.assoc)

lemma marshal_iports_sum:
  "\<forall>p \<in> set (ports_of pl). port_ok 31 p \<Longrightarrow> marshal_iports pl = Some (port_sum (ports_of pl))"
  by (simp add: marshal_iports_def marshal_loop_sum)

lemma bit_port_sum:
  assumes "distinct ps" "\<forall>p \<in> set ps. port_ok 8 p"
  shows "bit (port_sum ps) k \<longleftrightarrow> k < 8 \<and> of_nat (Suc k) \<in> set ps"
  using assms
proof (induction ps arbitrary: k)
  case Nil
  then show ?case by (simp add: port_sum_def)
next
  case (Cons p ps)
  obtain j where j: "p = of_nat (Suc j)" "Suc j = unat p" "j < 8"
    using Cons.prems(2) by (auto elim: port_ok_of_nat)
  have IH: "bit (port_sum ps) i \<longleftrightarrow> i < 8 \<and> of_nat (Suc i) \<in> set ps" for i
    using Cons by simp
  have "port_sum (p # ps) = 2 ^ j + port_sum ps"
    by (simp add: port_sum_def flip: j(2))
  also have "\<dots> = 2 ^ j OR port_sum ps"
  proof (rule disjunctive_add)
    fix i show "\<not> bit (2 ^ j :: byte) i \<or> \<not> bit (port_sum ps) i"
      using Cons.prems(1) j(1) unfolding IH bit_single by auto
  qed
  finally have sum: "bit (port_sum (p # ps)) k \<longleftrightarrow> k = j \<or> k < 8 \<and> of_nat (Suc k) \<in> set ps"
    using j(3) by (simp add: bit_or_iff bit_single IH del: of_nat_Suc)
  have "(of_nat (Suc k) :: cint) = of_nat (Suc j) \<longleftrightarrow> k = j" if "k < 8"
    using that j(3) by (simp add: word_unat_eq_iff unat_of_nat del: of_nat_Suc)
  then have "k < 8 \<and> of_nat (Suc k) \<in> set (p # ps) \<longleftrightarrow>
      k < 8 \<and> (k = j \<or> of_nat (Suc k) \<in> set ps)"
    unfolding j(1) by auto
  with sum j(3) show ?case by blast
qed

lemma mask_ports_distinct: "distinct (mask_ports n [0..<8])"
proof -
  have "inj_on (\<lambda>k. of_nat (Suc k) :: cint) {0..<8}"
    by (rule inj_onI)
       (auto simp: word_unat_eq_iff unat_of_nat simp del: of_nat_Suc)
  then show ?thesis
    unfolding mask_ports_def by (intro distinct_map [THEN iffD2] conjI) (auto intro: inj_on_subset)
qed

lemma mask_ports_ok: "p \<in> set (mask_ports n [0..<8]) \<Longrightarrow> port_ok 8 p"
  by (auto simp: mask_ports_def port_ok_def unat_of_nat simp del: of_nat_Suc)

lemma port_ok_mono: "port_ok m p \<Longrightarrow> m \<le> m' \<Longrightarrow> port_ok m' p"
  by (auto simp: port_ok_def)

lemma mask_ports_mem:
  assumes "k < 8"
  shows "of_nat (Suc k) \<in> set (mask_ports n [0..<8]) \<longleftrightarrow> bit n k"
proof -
  have "of_nat (Suc k) = (of_nat (Suc i) :: cint) \<longleftrightarrow> i = k" if "i < 8" for i
    using assms that by (auto simp: word_unat_eq_iff unat_of_nat simp del: of_nat_Suc)
  then show ?thesis using assms
    by (auto simp: mask_ports_def simp del: of_nat_Suc)
qed

lemma port_sum_mask: "port_sum (rev (mask_ports n [0..<8])) = n"
proof (rule bit_word_eqI)
  fix k assume "k < LENGTH(8)"
  then have k: "k < 8" by simp
  have "bit (port_sum (rev (mask_ports n [0..<8]))) k \<longleftrightarrow>
      k < 8 \<and> of_nat (Suc k) \<in> set (rev (mask_ports n [0..<8]))"
    by (rule bit_port_sum) (simp_all add: mask_ports_distinct mask_ports_ok)
  also have "\<dots> \<longleftrightarrow> bit n k" using k by (simp add: mask_ports_mem del: of_nat_Suc)
  finally show "bit (port_sum (rev (mask_ports n [0..<8]))) k = bit n k" .
qed

section \<open>Interface: an integer code for a structured value\<close>

text \<open>
  What a user of the one-byte port mask relies on: decoding always succeeds, and what is
  decoded encodes to the same byte.
\<close>

locale mask_codec =
  fixes encode :: "'s \<Rightarrow> byte option"
    and decode :: "byte \<Rightarrow> 's option"
  assumes decode_total: "\<exists>s. decode n = Some s"
    and encode_decode: "decode n = Some s \<Longrightarrow> encode s = Some n"
begin

lemma decode_inj: "decode n = Some s \<Longrightarrow> decode m = Some s \<Longrightarrow> n = m"
  by (drule encode_decode)+ simp

lemma recode: "decode n = Some s \<Longrightarrow> encode s \<bind> decode = Some s"
  by (simp add: encode_decode)

end

interpretation port_mask: mask_codec marshal_iports unmarshal_iports
proof
  fix n show "\<exists>s. unmarshal_iports n = Some s"
    using unmarshal_iports_ports [of n] by blast
next
  fix n s assume "unmarshal_iports n = Some s"
  then have ports: "ports_of s = rev (mask_ports n [0..<8])"
    using unmarshal_iports_ports [of n] by auto
  then have "\<forall>p \<in> set (ports_of s). port_ok 31 p"
    by (auto intro: port_ok_mono [OF mask_ports_ok])
  then show "marshal_iports s = Some n"
    by (simp add: marshal_iports_sum ports port_sum_mask)
qed

section \<open>Properties\<close>

text \<open>
  every port mask is unmarshalled to a list of distinct ports between 1 and 8, the
  loop ends for every mask, and marshalling that list gives the mask back.
\<close>

theorem port_mask_roundtrip:
  "\<exists>pl. unmarshal_iports n = Some pl \<and> marshal_iports pl = Some n \<and>
        distinct (ports_of pl) \<and> (\<forall>p. p \<in> set (ports_of pl) = (port_ok 8 p \<and> bit n (unat p - 1)))"
proof -
  obtain pl where pl: "unmarshal_iports n = Some pl" "ports_of pl = rev (mask_ports n [0..<8])"
    using unmarshal_iports_ports by blast
  have mem: "p \<in> set (ports_of pl) \<longleftrightarrow> port_ok 8 p \<and> bit n (unat p - 1)" for p
  proof (cases "port_ok 8 p")
    case True
    then obtain j where j: "p = of_nat (Suc j)" "Suc j = unat p" "j < 8"
      by (rule port_ok_of_nat)
    have "p \<in> set (ports_of pl) \<longleftrightarrow> bit n j"
      unfolding pl(2) set_rev j(1) by (rule mask_ports_mem [OF j(3)])
    then show ?thesis using True j(2) by (simp flip: j(2))
  next
    case False
    then show ?thesis using pl(2) mask_ports_ok by auto
  qed
  show ?thesis
    using pl port_mask.encode_decode [OF pl(1)] mem mask_ports_distinct by auto
qed

text \<open>
  a list of distinct ports between 1 and 8 survives the wire up to order: what the
  peer unmarshals holds the same ports.
\<close>

theorem port_list_roundtrip:
  assumes "distinct (ports_of pl)" "list_all (port_ok 8) (ports_of pl)"
  shows "\<exists>n pl'. marshal_iports pl = Some n \<and> unmarshal_iports n = Some pl' \<and>
           set (ports_of pl') = set (ports_of pl) \<and> length (ports_of pl') = length (ports_of pl)"
proof -
  have ok: "\<forall>p \<in> set (ports_of pl). port_ok 8 p" using assms(2) by (simp add: list_all_iff)
  let ?n = "port_sum (ports_of pl)"
  obtain pl' where pl': "unmarshal_iports ?n = Some pl'"
      "ports_of pl' = rev (mask_ports ?n [0..<8])"
    using unmarshal_iports_ports by blast
  have "p \<in> set (ports_of pl') \<longleftrightarrow> p \<in> set (ports_of pl)" if p: "port_ok 8 p" for p
  proof -
    obtain j where j: "p = of_nat (Suc j)" "Suc j = unat p" "j < 8"
      using p by (rule port_ok_of_nat)
    have "p \<in> set (ports_of pl') \<longleftrightarrow> bit ?n j"
      unfolding pl'(2) set_rev j(1) by (rule mask_ports_mem [OF j(3)])
    then show ?thesis
      unfolding bit_port_sum [OF assms(1) ok, of j] using j(1,3) by blast
  qed
  then have set_eq: "set (ports_of pl') = set (ports_of pl)"
    using ok pl'(2) mask_ports_ok by auto
  moreover have "distinct (ports_of pl')" using pl'(2) mask_ports_distinct by simp
  ultimately have "length (ports_of pl') = length (ports_of pl)"
    using assms(1) by (metis distinct_card)
  moreover have "marshal_iports pl = Some ?n"
    using ok by (intro marshal_iports_sum) (auto intro: port_ok_mono)
  ultimately show ?thesis using pl'(1) set_eq by blast
qed

lemma port_list_roundtrip_witness:
  "\<exists>n pl'. marshal_iports (add_port (add_port PNull 2) 5) = Some n \<and>
     unmarshal_iports n = Some pl' \<and> set (ports_of pl') = {5, 2} \<and>
     length (ports_of pl') = Suc (Suc 0)"
  using port_list_roundtrip [of "add_port (add_port PNull 2) 5"] by (simp add: port_ok_def)

end
