(* ===== verification/TFAfu.thy ===== *)
theory TFAfu imports TFConn TFPort begin

text \<open>
  Bringing up the AFU of a connection: \<^verbatim>\<open>setup_afu_compute\<close> and \<^verbatim>\<open>setup_afu_memory\<close> of
  \<^verbatim>\<open>libthymesisflow/src/connection.c\<close>.  Both are a sequence of \<^verbatim>\<open>libocxl\<close> calls, each with
  an error code of its own; in the \<^verbatim>\<open>MOCK\<close> build their bodies are empty.  The sequences
  are compared with a list of stages run up to the first failure.
\<close>

section \<open>Model\<close>

definition OCXL_OK :: cint where [err_defs]: "OCXL_OK = 0"

definition calculate_seg_offset :: "u64 \<Rightarrow> u64 \<Rightarrow> u64 \<Rightarrow> u64" where
  "calculate_seg_offset ea_base seg_offset netid = (ea_base - seg_offset) XOR netid"

text \<open>Storing a node through the pointer \<^verbatim>\<open>conn\<close>.\<close>

definition put_node :: "u64 \<Rightarrow> connection \<Rightarrow> world \<Rightarrow> world" where
  "put_node a c w = w\<lparr>heap := (heap w)(a \<mapsto> c)\<rparr>"

text \<open>
  Out-parameters receive the value the environment answers with, also when the call
  fails.  A name without a NUL runs off its field.  The port list is dereferenced.
\<close>

definition setup_afu_compute ::
    "env \<Rightarrow> u64 \<Rightarrow> u64 \<Rightarrow> iport_list \<Rightarrow> world \<Rightarrow> (cint \<times> world) option" where
  "setup_afu_compute env conn effective_addr ports w =
     (if mock env then Some (0, w) else
      do {
        c \<leftarrow> heap w conn;
        if 0 \<notin> set (afu_name c) then None else
        let ((rc, h), w1) = sys env (Ocxl_afu_open (afu_name c)) w;
            c1 = c\<lparr>afu := h\<rparr>; w1 = put_node conn c1 w1 in
        if rc \<noteq> OCXL_OK then Some (ERR_AFU_OPEN, w1) else
        let ((rc, g), w2) = sys env (Ocxl_mmio_map (afu c1) OCXL_GLOBAL_MMIO) w1;
            c2 = c1\<lparr>global := g\<rparr>; w2 = put_node conn c2 w2 in
        if rc \<noteq> OCXL_OK then Some (ERR_MMIO_MAP_GLOBAL, w2) else
        (case ports of PNull \<Rightarrow> None | Port port next_port \<Rightarrow>
          let (rc, w3) = sys_rc env (Ocxl_mmio_write64 (global c2) AURORA_CTRL (scast port)) w2 in
          if rc \<noteq> OCXL_OK then Some (ERR_AURORA_CHAN, w3) else
          let (rc, w4) = sys_rc env (Ocxl_mmio_write64 (global c2) MEM_SEG0_CONFIG
                (calculate_seg_offset effective_addr MEM_SEG0_OFFSET (scast port))) w3 in
          if rc \<noteq> OCXL_OK then Some (ERR_ATTACH_SEG, w4)
          else do {
            ((_, tid), w5) \<leftarrow> start_stats_thread env (global c2) w4;
            Some (0, put_node conn (c2\<lparr>stat_tid := tid\<rparr>) w5) }) })"

text \<open>
  The control register: a union of five one-bit fields, the first in the lowest bit, with
  its 64-bit view.  The other bits are whatever the stack held.
\<close>

record global_mmio_control =
  test_enable :: "1 word"
  trigger_sfw_intrp :: "1 word"
  ignore_nomatch_on_read :: "1 word"
  unassigned1 :: "1 word"
  enable_pipeline :: "1 word"

definition control_word :: "global_mmio_control \<Rightarrow> u64 \<Rightarrow> u64" where
  "control_word reg stack = (stack AND NOT 31) OR ucast (test_enable reg) OR
     push_bit 1 (ucast (trigger_sfw_intrp reg)) OR push_bit 2 (ucast (ignore_nomatch_on_read reg)) OR
     push_bit 3 (ucast (unassigned1 reg)) OR push_bit 4 (ucast (enable_pipeline reg))"

definition ctrl_val :: "u64 \<Rightarrow> u64" where
  "ctrl_val stack = control_word \<lparr> test_enable = 1, trigger_sfw_intrp = 0, ignore_nomatch_on_read = 0,
     unassigned1 = 0, enable_pipeline = 0 \<rparr> stack"

definition setup_afu_memory :: "env \<Rightarrow> u64 \<Rightarrow> world \<Rightarrow> (cint \<times> world) option" where
  "setup_afu_memory env conn w =
     (if mock env then Some (0, w) else
      do {
        c \<leftarrow> heap w conn;
        if 0 \<notin> set (afu_name c) then None else
        let ((rc, h), w1) = sys env (Ocxl_afu_open (afu_name c)) w;
            c1 = c\<lparr>afu := h\<rparr>; w1 = put_node conn c1 w1 in
        if OCXL_OK \<noteq> rc then Some (ERR_AFU_OPEN, w1) else
        let (rc, w2) = sys_rc env (Ocxl_afu_attach (afu c1)) w1 in
        if OCXL_OK \<noteq> rc then Some (ERR_AFU_ATTACH, w2) else
        let ((rc, g), w3) = sys env (Ocxl_mmio_map (afu c1) OCXL_GLOBAL_MMIO) w2;
            c2 = c1\<lparr>global := g\<rparr>; w3 = put_node conn c2 w3 in
        if OCXL_OK \<noteq> rc then Some (ERR_MMIO_MAP_GLOBAL, w3) else
        let ((rc, p), w4) = sys env (Ocxl_mmio_map (afu c2) OCXL_PER_PASID_MMIO) w3;
            c3 = c2\<lparr>pp_mmio := p\<rparr>; w4 = put_node conn c3 w4 in
        if rc \<noteq> OCXL_OK then Some (ERR_MMIO_MAP_LOCAL, w4) else
        let (rc, w5) = sys_rc env
              (Ocxl_mmio_write64 (global c3) 0 (ctrl_val (junk_word env (trace w4) 0))) w4 in
        if rc \<noteq> OCXL_OK then Some (ERR_WRITE_CTRL_REGISTER, w5) else
        let w6 = snd (sys_rc env Ocxl_enable_messages w5);
            (rc, w7) = sys_rc env (Ocxl_mmio_write64 (global c3) 0x78 1) w6 in
        if rc \<noteq> OCXL_OK then Some (ERR_ENABLING_NETWORK, w7)
        else Some (0, w7) })"

section \<open>Stages\<close>

text \<open>
  The reference: calls in a fixed order, each with the code its failure is reported with
  (\<open>None\<close>: the result is ignored), up to the first failure.
\<close>

fun run_stages :: "env \<Rightarrow> (call \<times> cint option) list \<Rightarrow> call list \<Rightarrow> cint \<times> call list" where
  "run_stages env [] tr = (0, tr)"
| "run_stages env ((c, code) # stages) tr =
     (if fst (ext env tr c) = OCXL_OK \<or> code = None then run_stages env stages (tr @ [c])
      else (the code, tr @ [c]))"

text \<open>The handles the two opening calls answer with.\<close>

definition opened :: "env \<Rightarrow> connection \<Rightarrow> call list \<Rightarrow> u64" where
  "opened env c tr = snd (ext env tr (Ocxl_afu_open (afu_name c)))"

definition mapped :: "env \<Rightarrow> u64 \<Rightarrow> call list \<Rightarrow> u64" where
  "mapped env h tr = snd (ext env tr (Ocxl_mmio_map h OCXL_GLOBAL_MMIO))"

definition compute_stages :: "u64 \<Rightarrow> u64 \<Rightarrow> connection \<Rightarrow> u64 \<Rightarrow> cint \<Rightarrow> (call \<times> cint option) list" where
  "compute_stages h g c effective_addr port =
     [(Ocxl_afu_open (afu_name c), Some ERR_AFU_OPEN),
      (Ocxl_mmio_map h OCXL_GLOBAL_MMIO, Some ERR_MMIO_MAP_GLOBAL),
      (Ocxl_mmio_write64 g AURORA_CTRL (scast port), Some ERR_AURORA_CHAN),
      (Ocxl_mmio_write64 g MEM_SEG0_CONFIG (effective_addr XOR scast port), Some ERR_ATTACH_SEG)]"

definition memory_stages :: "u64 \<Rightarrow> u64 \<Rightarrow> connection \<Rightarrow> u64 \<Rightarrow> (call \<times> cint option) list" where
  "memory_stages h g c ctrl =
     [(Ocxl_afu_open (afu_name c), Some ERR_AFU_OPEN),
      (Ocxl_afu_attach h, Some ERR_AFU_ATTACH),
      (Ocxl_mmio_map h OCXL_GLOBAL_MMIO, Some ERR_MMIO_MAP_GLOBAL),
      (Ocxl_mmio_map h OCXL_PER_PASID_MMIO, Some ERR_MMIO_MAP_LOCAL),
      (Ocxl_mmio_write64 g 0 ctrl, Some ERR_WRITE_CTRL_REGISTER),
      (Ocxl_enable_messages, None),
      (Ocxl_mmio_write64 g 0x78 1, Some ERR_ENABLING_NETWORK)]"

lemma put_node_simps [simp]:
  "trace (put_node a c w) = trace w" "clist (put_node a c w) = clist w"
  "live (put_node a c w) = live w" "cells (put_node a c w) = cells w"
  "nbufs (put_node a c w) = nbufs w" "heap (put_node a c w) = (heap w)(a \<mapsto> c)"
  by (simp_all add: put_node_def)

lemma stage_codes_nz:
  "ERR_AFU_OPEN \<noteq> 0" "ERR_AFU_ATTACH \<noteq> 0" "ERR_MMIO_MAP_GLOBAL \<noteq> 0" "ERR_MMIO_MAP_LOCAL \<noteq> 0"
  "ERR_WRITE_CTRL_REGISTER \<noteq> 0" "ERR_ENABLING_NETWORK \<noteq> 0" "ERR_AURORA_CHAN \<noteq> 0" "ERR_ATTACH_SEG \<noteq> 0"
  by (simp_all add: err_defs)

lemma ctrl_val_bits: "bit (ctrl_val s) k \<longleftrightarrow> (if k < 5 then k = 0 else bit s k)"
proof -
  have "(31 :: u64) = mask 5" by (simp add: mask_eq_exp_minus_1)
  then have m: "bit (31 :: u64) k \<longleftrightarrow> k < 5" by (simp only: bit_mask_iff) auto
  have "bit (NOT 31 :: u64) k \<longleftrightarrow> k < 64 \<and> \<not> k < 5"
    using m by (simp only: bit_not_iff) (simp add: possible_bit_def)
  then show ?thesis
    unfolding ctrl_val_def control_word_def global_mmio_control.select_convs unsigned_0 unsigned_1 push_bit_of_0
      or.right_neutral bit_or_iff bit_and_iff bit_1_iff by (auto dest: bit_imp_le_length)
qed

lemma start_stats_trace:
  assumes "start_stats_thread env g w = Some (r, w')"
  shows "\<exists>ts. trace w' = trace w @ Unlink THYMESISCOUNT_PATH # Mkfifo THYMESISCOUNT_PATH # ts"
proof -
  have "\<exists>ts. trace v' = trace v @ ts" if "tf_init_stats_thread env tid g p v = Some (rc, v')"
    for tid p v rc v'
    using that
    by (auto simp: tf_init_stats_thread_def malloc_buf_def sys_def Let_def split: if_splits prod.splits)
  then show ?thesis
    using assms
    by (fastforce simp: start_stats_thread_def sys_def Let_def split: if_splits prod.splits)
qed

section \<open>Properties\<close>

text \<open>
  C27: bringing up the compute side issues exactly the four calls of the stage list, in
  order, stopping at the first that fails, and returns the code of that stage, or 0; on
  success the statistics thread is started after them.
\<close>

theorem setup_afu_compute_stages:
  assumes "\<not> mock env" "heap w a = Some c"
    and "setup_afu_compute env a effective_addr (Port port nxt) w = Some (rc, w')"
  shows "\<exists>h g tr. h = opened env c (trace w) \<and>
    g = mapped env h (trace w @ [Ocxl_afu_open (afu_name c)]) \<and>
    (rc, tr) = run_stages env (compute_stages h g c effective_addr port) (trace w) \<and>
    (rc \<noteq> 0 \<longrightarrow> trace w' = tr) \<and> (rc = 0 \<longrightarrow> take (length tr + 2) (trace w') =
       tr @ [Unlink THYMESISCOUNT_PATH, Mkfifo THYMESISCOUNT_PATH])"
proof -
  let ?h = "opened env c (trace w)"
  let ?g = "mapped env ?h (trace w @ [Ocxl_afu_open (afu_name c)])"
  show ?thesis
    using assms
    by (intro exI [of _ ?h] exI [of _ ?g] exI [of _ "snd (run_stages env
          (compute_stages ?h ?g c effective_addr port) (trace w))"])
       (auto simp: setup_afu_compute_def compute_stages_def opened_def mapped_def sys_def Let_def
         calculate_seg_offset_def MEM_SEG0_OFFSET_def stage_codes_nz
         split: if_splits prod.splits dest!: start_stats_trace)
qed

definition demo_afu_world :: world where
  "demo_afu_world = init_world\<lparr>heap := [64 \<mapsto> demo_node\<lparr>afu_name := [65, 0]\<rparr>]\<rparr>"

lemma setup_afu_compute_stages_witness:
  "\<exists>rc w' tr. setup_afu_compute (demo_env False) 64 0 (Port 1 PNull) demo_afu_world = Some (rc, w') \<and>
    (rc, tr) = run_stages (demo_env False)
      (compute_stages 4096 8192 (demo_node\<lparr>afu_name := [65, 0]\<rparr>) 0 1) []"
proof -
  obtain rc w' where ret:
    "setup_afu_compute (demo_env False) 64 0 (Port 1 PNull) demo_afu_world = Some (rc, w')"
    by (simp add: setup_afu_compute_def demo_afu_world_def sys_def Let_def OCXL_OK_def
        start_stats_thread_def tf_init_stats_thread_def malloc_buf_def PERIOD_SEC_def)
  have "heap demo_afu_world 64 = Some (demo_node\<lparr>afu_name := [65, 0]\<rparr>)" "trace demo_afu_world = []"
    by (simp_all add: demo_afu_world_def)
  then show ?thesis
    using setup_afu_compute_stages [of "demo_env False" demo_afu_world 64 _ 0 1 PNull rc w'] ret
    by (auto simp: opened_def mapped_def)
qed

text \<open>
  bringing up the memory side issues exactly the seven calls of its stage list, in
  order, up to the first failure, and returns the code of that stage, or 0.
\<close>

theorem setup_afu_memory_stages:
  assumes "\<not> mock env" "heap w a = Some c" "setup_afu_memory env a w = Some (rc, w')"
  shows "\<exists>h g ctrl. h = opened env c (trace w) \<and>
    g = mapped env h (trace w @ [Ocxl_afu_open (afu_name c), Ocxl_afu_attach h]) \<and>
    (\<forall>k < 5. bit ctrl k \<longleftrightarrow> k = 0) \<and>
    (rc, trace w') = run_stages env (memory_stages h g c ctrl) (trace w)"
proof -
  let ?h = "opened env c (trace w)"
  let ?tr = "trace w @ [Ocxl_afu_open (afu_name c), Ocxl_afu_attach ?h]"
  let ?g = "mapped env ?h ?tr"
  let ?ctrl = "ctrl_val (junk_word env (?tr @ [Ocxl_mmio_map ?h OCXL_GLOBAL_MMIO,
     Ocxl_mmio_map ?h OCXL_PER_PASID_MMIO]) 0)"
  have "(rc, trace w') = run_stages env (memory_stages ?h ?g c ?ctrl) (trace w)"
    using assms
    by (auto simp: setup_afu_memory_def memory_stages_def opened_def mapped_def sys_def Let_def
         stage_codes_nz split: if_splits prod.splits)
  then show ?thesis
    by (intro exI [of _ ?h] exI [of _ ?g] exI [of _ ?ctrl]) (simp add: ctrl_val_bits)
qed

lemma setup_afu_memory_stages_witness:
  "\<exists>rc w' ctrl. setup_afu_memory (demo_env False) 64 demo_afu_world = Some (rc, w') \<and>
    (rc, trace w') = run_stages (demo_env False)
      (memory_stages 4096 12288 (demo_node\<lparr>afu_name := [65, 0]\<rparr>) ctrl) []"
proof -
  obtain rc w' where ret: "setup_afu_memory (demo_env False) 64 demo_afu_world = Some (rc, w')"
    by (simp add: setup_afu_memory_def demo_afu_world_def sys_def Let_def OCXL_OK_def)
  have "heap demo_afu_world 64 = Some (demo_node\<lparr>afu_name := [65, 0]\<rparr>)" "trace demo_afu_world = []"
    by (simp_all add: demo_afu_world_def)
  then show ?thesis
    using setup_afu_memory_stages [of "demo_env False" demo_afu_world 64 _ rc w'] ret
    by (auto simp: opened_def mapped_def)
qed

section \<open>Frames\<close>

text \<open>What bringing up an AFU leaves alone: everything but the handles of its own node.\<close>

definition same_but_node :: "u64 \<Rightarrow> world \<Rightarrow> world \<Rightarrow> bool" where
  "same_but_node a w w' \<longleftrightarrow> live w' = live w \<and> clist w' = clist w \<and>
     (\<forall>x. x \<noteq> a \<longrightarrow> heap w' x = heap w x) \<and>
     (\<forall>c. heap w a = Some c \<longrightarrow> (\<exists>c'. heap w' a = Some c' \<and> cnext c' = cnext c \<and>
        circuit_id c' = circuit_id c \<and> afu_name c' = afu_name c \<and> ea c' = ea c \<and> csize c' = csize c \<and>
        no_hotplug c' = no_hotplug c))"

lemma setup_afu_memory_frame:
  "setup_afu_memory env a w = Some (rc, w') \<Longrightarrow> same_but_node a w w'"
  by (auto simp: setup_afu_memory_def same_but_node_def sys_def Let_def
      split: if_splits prod.splits)

lemma setup_afu_compute_frame:
  "setup_afu_compute env a effective_addr ports w = Some (rc, w') \<Longrightarrow> same_but_node a w w'"
  by (cases ports)
     (auto simp: setup_afu_compute_def same_but_node_def sys_def Let_def
      split: if_splits prod.splits dest!: start_stats_frame)

lemma same_but_node_reg:
  "same_but_node a w w' \<Longrightarrow> reg_list w as \<Longrightarrow> reg_list w' as"
proof -
  assume same: "same_but_node a w w'" and reg: "reg_list w as"
  have al: "\<exists>c. heap w b = Some c" if "b \<in> set as" for b
    using reg that lseg_alloc unfolding reg_list_def by blast
  have "map_option cnext (heap w b) = map_option cnext (heap w' b) \<and>
      map_option circuit_id (heap w b) = map_option circuit_id (heap w' b)" if "b \<in> set as" for b
    using same al [OF that] unfolding same_but_node_def by (cases "b = a") auto
  then show ?thesis
    using reg reg_list_cong [of w w' as] same unfolding same_but_node_def by auto
qed

end
