(* ===== verification/TFFlow.thy ===== *)
theory TFFlow imports TFAfu begin

text \<open>
  \<^verbatim>\<open>libthymesisflow/src/thymesisflow.c\<close>: hot-plugging and unplugging of memory blocks
  through sysfs, and the attach and detach operations of the two sides.
\<close>

section \<open>Memory blocks\<close>

text \<open>The paths fit the 128-byte buffers they are printed to.\<close>

definition block_dir :: "u64 \<Rightarrow> string" where
  "block_dir probe_addr = MEMORY_PATH @ ''/memory'' @ decimal (unat (probe_addr div MEMBLOCK_SIZE))"

definition block_state :: "u64 \<Rightarrow> string" where
  "block_state probe_addr = block_dir probe_addr @ ''/state''"

text \<open>
  The \<^verbatim>\<open>for\<close> statement both functions share: \<open>n\<close> blocks, \<open>i\<close> an \<^verbatim>\<open>int\<close> whose overflow is
  undefined, \<open>probe_addr\<close> a 64-bit address.  A body returns \<open>None\<close> to go on and
  \<open>Some rc\<close> to return from the function.
\<close>

function block_loop ::
    "(u64 \<Rightarrow> world \<Rightarrow> cint option \<times> world) \<Rightarrow> nat \<Rightarrow> nat \<Rightarrow> u64 \<Rightarrow> world \<Rightarrow>
     (cint option \<times> world) option" where
  "block_loop body n i probe_addr w =
     (if i < n then
        (case body probe_addr w of
           (Some rc, w1) \<Rightarrow> Some (Some rc, w1)
         | (None, w1) \<Rightarrow>
             if Suc i < 2 ^ 31 then block_loop body n (Suc i) (probe_addr + MEMBLOCK_SIZE) w1
             else None)
      else Some (None, w))"
  by pat_completeness auto
termination by (relation "measure (\<lambda>(body, n, i, a, w). n - i)") auto

declare block_loop.simps [simp del]

definition unplug_block :: "env \<Rightarrow> u64 \<Rightarrow> world \<Rightarrow> cint option \<times> world" where
  "unplug_block env probe_addr w =
     (let (acc, w1) = sys_rc env (Access (block_state probe_addr) True) w in
      if acc = -1 then (Some (-1), w1) else
      let ((_, fd), w2) = sys env (Fopen (block_state probe_addr)) w1 in
      if fd = 0 then (Some (-1), w2) else
      let w3 = snd (sys env (Fprintf fd (''offline'' @ newline)) w2);
          w4 = snd (sys env (Fflush fd) w3);
          w5 = snd (sys env (Fclose fd) w4) in
      (None, w5))"

definition unplug_memory_blocks :: "env \<Rightarrow> u64 \<Rightarrow> world \<Rightarrow> (cint \<times> world) option" where
  "unplug_memory_blocks env memory_size w = do {
     (r, w1) \<leftarrow> block_loop (unplug_block env) (unat (memory_size div MEMBLOCK_SIZE)) 0
                 INIT_PROBE_ADDR w;
     Some (case r of None \<Rightarrow> DETACH_OK | Some rc \<Rightarrow> rc, w1) }"

text \<open>The block is probed when its directory does not exist; failures there only log.\<close>

definition probe_block :: "env \<Rightarrow> u64 \<Rightarrow> world \<Rightarrow> world" where
  "probe_block env probe_addr w =
     (let (acc, w1) = sys_rc env (Access (block_dir probe_addr) False) w in
      if acc = -1 then
        let ((_, fd), w2) = sys env (Fopen PROBE_PATH) w1 in
        if fd = 0 then w2 else
        let w3 = snd (sys env (Fprintf fd (decimal (unat probe_addr))) w2);
            w4 = snd (sys env (Fflush fd) w3) in
        snd (sys env (Fclose fd) w4)
      else w1)"

definition hotplug_block :: "env \<Rightarrow> u64 \<Rightarrow> world \<Rightarrow> cint option \<times> world" where
  "hotplug_block env probe_addr w =
     (let w0 = probe_block env probe_addr w;
          (acc, w1) = sys_rc env (Access (block_state probe_addr) True) w0 in
      if acc = -1 then (Some ERR_PROBE, w1) else
      let ((_, fd), w2) = sys env (Fopen (block_state probe_addr)) w1 in
      if fd = 0 then (Some ERR_PROBE, w2) else
      let (res, w3) = sys_rc env (Fprintf fd (''online_movable'' @ newline)) w2 in
      if sint res \<le> 0 then (Some ERR_PROBE, w3) else
      let w4 = snd (sys env (Fflush fd) w3);
          w5 = snd (sys env (Fclose fd) w4) in
      (None, w5))"

definition hotplug_memory_blocks :: "env \<Rightarrow> u64 \<Rightarrow> world \<Rightarrow> (cint \<times> world) option" where
  "hotplug_memory_blocks env memory_size w = do {
     (r, w1) \<leftarrow> block_loop (hotplug_block env) (unat (memory_size div MEMBLOCK_SIZE)) 0
                 INIT_PROBE_ADDR w;
     Some (case r of None \<Rightarrow> ATTACH_OK | Some rc \<Rightarrow> rc, w1) }"

section \<open>Attach and detach\<close>

text \<open>\<open>eaptr\<close> is the content of the caller's variable, which the result returns.\<close>

definition attach_memory ::
    "env \<Rightarrow> cptr \<Rightarrow> cptr \<Rightarrow> iport_list \<Rightarrow> u64 \<Rightarrow> u64 \<Rightarrow> world \<Rightarrow> ((cint \<times> u64) \<times> world) option" where
  "attach_memory env cid afu_nm ports sz eaptr w = do {
     (conn, w1) \<leftarrow> register_conn env cid afu_nm sz 0 w;
     let (block, w2) = memalign env CACHE_ALIGNMENT (if mock env then drop_bit 20 256 else sz) w1;
     (case block of
        None \<Rightarrow> Some ((1, eaptr), w2)
      | Some p \<Rightarrow> do {
          c \<leftarrow> heap w2 conn;
          let w3 = put_node conn (c\<lparr>ea := p\<rparr>) w2;
          if mock env then Some ((ATTACH_OK, p), w3)
          else
            let (rc, w4) = sys_rc env (Mlock p sz) w3 in
            if sint rc < 0 then Some ((1, eaptr), w4)
            else do {
              let w5 = snd (sys env (Memset_zero p sz) w4);
              (open_res, w6) \<leftarrow> setup_afu_memory env conn w5;
              if open_res \<noteq> 0 then Some ((open_res, eaptr), w6)
              else Some ((ATTACH_OK, p), w6) } }) }"

definition attach_compute ::
    "env \<Rightarrow> cptr \<Rightarrow> cptr \<Rightarrow> iport_list \<Rightarrow> u64 \<Rightarrow> u64 \<Rightarrow> cint \<Rightarrow> world \<Rightarrow> (cint \<times> world) option" where
  "attach_compute env cid afu_nm ports effective_addr sz nohp w =
     (case ports of
        PNull \<Rightarrow> Some (ERR_PORT_UNSUPPORTED, w)
      | Port _ nxt \<Rightarrow>
          if nxt \<noteq> PNull then Some (ERR_PORT_UNSUPPORTED, w)
          else do {
            (conn, w1) \<leftarrow> register_conn env cid afu_nm sz nohp w;
            if mock env then Some (ATTACH_OK, w1)
            else do {
              (open_res, w2) \<leftarrow> setup_afu_compute env conn effective_addr ports w1;
              if open_res \<noteq> 0 then Some (open_res, w2)
              else
                let w3 = snd (sys env (Sleep 5) w2) in
                if nohp \<noteq> 0 then Some (ATTACH_OK, w3)
                else hotplug_memory_blocks env sz w3 } })"

definition detach_memory :: "env \<Rightarrow> cptr \<Rightarrow> world \<Rightarrow> (cint \<times> world) option" where
  "detach_memory env cid w = do {
     conn \<leftarrow> get_conn cid w;
     if conn = 0 then Some (ERR_MISSING_CID, w)
     else do {
       c \<leftarrow> heap w conn;
       w1 \<leftarrow> (if ea c = 0 then Some w else free_block (ea c) w);
       (_, w2) \<leftarrow> del_conn env cid w1;
       Some (DETACH_OK, w2) } }"

definition detach_compute :: "env \<Rightarrow> cptr \<Rightarrow> world \<Rightarrow> (cint \<times> world) option" where
  "detach_compute env cid w = do {
     conn \<leftarrow> get_conn cid w;
     if conn = 0 then Some (ERR_MISSING_CID, w)
     else do {
       c \<leftarrow> heap w conn;
       (res, w1) \<leftarrow> (if \<not> mock env \<and> no_hotplug c = 0 then unplug_memory_blocks env (csize c) w
                     else Some (DETACH_OK, w));
       (res_del_code, w2) \<leftarrow> del_conn env cid w1;
       Some (if res_del_code \<noteq> CONN_SUCCESS then ERR_REGISTER_DETACH else res, w2) } }"

section \<open>Interface: one block of a run over memory blocks\<close>

text \<open>The calls of blocks that follow one another in the address space, block by block.\<close>

fun blocks_done :: "(call list \<Rightarrow> u64 \<Rightarrow> call list \<Rightarrow> bool) \<Rightarrow> call list \<Rightarrow> u64 \<Rightarrow> call list list \<Rightarrow> bool" where
  "blocks_done blk tr a [] \<longleftrightarrow> True"
| "blocks_done blk tr a (ts # tss) \<longleftrightarrow> blk tr a ts \<and> blocks_done blk (tr @ ts) (a + MEMBLOCK_SIZE) tss"

text \<open>
  A body over one block either completes, with calls \<open>ts\<close> such that \<open>blk\<close>, or gives up with the
  code \<open>err\<close> after calls such that \<open>fl\<close>; it changes nothing but the trace.  Both depend on
  the trace before, as the answers to the calls do.
\<close>

locale block_body =
  fixes body :: "u64 \<Rightarrow> world \<Rightarrow> cint option \<times> world"
    and blk :: "call list \<Rightarrow> u64 \<Rightarrow> call list \<Rightarrow> bool"
    and fl :: "call list \<Rightarrow> u64 \<Rightarrow> call list \<Rightarrow> bool"
    and err :: cint
  assumes body_done: "body a w = (None, w') \<Longrightarrow> \<exists>ts. w' = w\<lparr>trace := trace w @ ts\<rparr> \<and> blk (trace w) a ts"
    and body_fail: "body a w = (Some rc, w') \<Longrightarrow>
      rc = err \<and> (\<exists>ts. w' = w\<lparr>trace := trace w @ ts\<rparr> \<and> fl (trace w) a ts)"
begin

lemma loop_frame:
  "block_loop body n i a w = Some (r, w') \<Longrightarrow> \<exists>ts. w' = w\<lparr>trace := trace w @ ts\<rparr>"
proof (induction "n - i" arbitrary: i a w)
  case 0
  then show ?case by (subst (asm) block_loop.simps) (auto intro: exI [of _ "[]"])
next
  case (Suc m)
  then have i: "i < n" "m = n - Suc i" by auto
  obtain q w1 where b: "body a w = (q, w1)" by fastforce
  then obtain ts where ts: "w1 = w\<lparr>trace := trace w @ ts\<rparr>"
    using body_done body_fail by (cases q) blast+
  show ?case
  proof (cases q)
    case None
    then have "block_loop body n (Suc i) (a + MEMBLOCK_SIZE) w1 = Some (r, w')"
      using Suc.prems b i by (subst (asm) block_loop.simps) (auto split: if_splits)
    from Suc.hyps(1) [OF i(2) this] ts show ?thesis by auto
  next
    case (Some rc)
    then show ?thesis using Suc.prems b i ts by (subst (asm) block_loop.simps) auto
  qed
qed

lemma loop_result:
  assumes "n < 2 ^ 31"
  shows "\<exists>r tss rest. block_loop body n i a w =
       Some (r, w\<lparr>trace := trace w @ concat tss @ rest\<rparr>) \<and> blocks_done blk (trace w) a tss \<and>
     (r = None \<and> length tss = n - i \<and> rest = [] \<or>
      r = Some err \<and> length tss < n - i \<and>
        fl (trace w @ concat tss) (a + of_nat (length tss) * MEMBLOCK_SIZE) rest)"
  using assms
proof (induction "n - i" arbitrary: i a w)
  case 0
  then show ?case
    by (subst block_loop.simps) (auto intro!: exI [of _ "[]"])
next
  case (Suc m)
  then have i: "i < n" "Suc i < 2 ^ 31" "m = n - Suc i" by auto
  obtain r w1 where b: "body a w = (r, w1)" by fastforce
  show ?case
  proof (cases r)
    case (Some rc)
    then obtain ts where ts: "rc = err" "w1 = w\<lparr>trace := trace w @ ts\<rparr>" "fl (trace w) a ts"
      using body_fail b by blast
    then have "block_loop body n i a w = Some (Some err, w\<lparr>trace := trace w @ ts\<rparr>)"
      using i b Some by (subst block_loop.simps) simp
    then show ?thesis
      using i(1) ts(3) by (intro exI [of _ "Some err"] exI [of _ "[]"] exI [of _ ts]) simp
  next
    case None
    then obtain ts where ts: "w1 = w\<lparr>trace := trace w @ ts\<rparr>" "blk (trace w) a ts"
      using body_done b by blast
    have step: "block_loop body n i a w = block_loop body n (Suc i) (a + MEMBLOCK_SIZE) w1"
      using i b None by (subst block_loop.simps) simp
    obtain r tss rest where rec: "block_loop body n (Suc i) (a + MEMBLOCK_SIZE) w1 =
        Some (r, w1\<lparr>trace := trace w1 @ concat tss @ rest\<rparr>)"
      "blocks_done blk (trace w1) (a + MEMBLOCK_SIZE) tss"
      "r = None \<and> length tss = n - Suc i \<and> rest = [] \<or>
       r = Some err \<and> length tss < n - Suc i \<and>
         fl (trace w1 @ concat tss) (a + MEMBLOCK_SIZE + of_nat (length tss) * MEMBLOCK_SIZE) rest"
      using Suc.hyps(1) [OF i(3) Suc.prems, of "a + MEMBLOCK_SIZE" w1] by blast
    have "a + MEMBLOCK_SIZE + of_nat (length tss) * MEMBLOCK_SIZE =
        a + of_nat (length (ts # tss)) * MEMBLOCK_SIZE" by (simp add: algebra_simps)
    then show ?thesis
      using step rec ts i(1)
      by (intro exI [of _ r] exI [of _ "ts # tss"] exI [of _ rest]) (auto simp: algebra_simps)
  qed
qed

end

text \<open>
  The calls of the blocks, with the answers that make the code go on; and those of a block
  given up, whose last call was answered by a failure.
\<close>

definition offlined :: "env \<Rightarrow> call list \<Rightarrow> u64 \<Rightarrow> call list \<Rightarrow> bool" where
  "offlined env tr a ts \<longleftrightarrow>
     (let acc = Access (block_state a) True; opn = Fopen (block_state a);
          f = snd (ext env (tr @ [acc]) opn) in
      fst (ext env tr acc) \<noteq> -1 \<and> f \<noteq> 0 \<and>
      ts = [acc, opn, Fprintf f (''offline'' @ newline), Fflush f, Fclose f])"

definition not_offlined :: "env \<Rightarrow> call list \<Rightarrow> u64 \<Rightarrow> call list \<Rightarrow> bool" where
  "not_offlined env tr a ts \<longleftrightarrow>
     (let acc = Access (block_state a) True; opn = Fopen (block_state a) in
      fst (ext env tr acc) = -1 \<and> ts = [acc] \<or>
      snd (ext env (tr @ [acc]) opn) = 0 \<and> ts = [acc, opn])"

definition probe_calls :: "env \<Rightarrow> call list \<Rightarrow> u64 \<Rightarrow> call list" where
  "probe_calls env tr a =
     (let acc = Access (block_dir a) False; f = snd (ext env (tr @ [acc]) (Fopen PROBE_PATH)) in
      if fst (ext env tr acc) \<noteq> -1 then [acc]
      else if f = 0 then [acc, Fopen PROBE_PATH]
      else [acc, Fopen PROBE_PATH, Fprintf f (decimal (unat a)), Fflush f, Fclose f])"

definition onlined :: "env \<Rightarrow> call list \<Rightarrow> u64 \<Rightarrow> call list \<Rightarrow> bool" where
  "onlined env tr a ts \<longleftrightarrow>
     (let pre = probe_calls env tr a; acc = Access (block_state a) True; opn = Fopen (block_state a);
          f = snd (ext env (tr @ pre @ [acc]) opn); wr = Fprintf f (''online_movable'' @ newline) in
      fst (ext env (tr @ pre) acc) \<noteq> -1 \<and> f \<noteq> 0 \<and>
      0 < sint (fst (ext env (tr @ pre @ [acc, opn]) wr)) \<and>
      ts = pre @ [acc, opn, wr, Fflush f, Fclose f])"

definition not_onlined :: "env \<Rightarrow> call list \<Rightarrow> u64 \<Rightarrow> call list \<Rightarrow> bool" where
  "not_onlined env tr a ts \<longleftrightarrow>
     (let pre = probe_calls env tr a; acc = Access (block_state a) True; opn = Fopen (block_state a);
          f = snd (ext env (tr @ pre @ [acc]) opn); wr = Fprintf f (''online_movable'' @ newline) in
      fst (ext env (tr @ pre) acc) = -1 \<and> ts = pre @ [acc] \<or>
      f = 0 \<and> ts = pre @ [acc, opn] \<or>
      sint (fst (ext env (tr @ pre @ [acc, opn]) wr)) \<le> 0 \<and> ts = pre @ [acc, opn, wr])"

lemma probe_block_trace: "probe_block env a w = w\<lparr>trace := trace w @ probe_calls env (trace w) a\<rparr>"
  by (auto simp: probe_block_def probe_calls_def sys_def Let_def split: prod.splits)

interpretation unplug: block_body "unplug_block env" "offlined env" "not_offlined env" "-1" for env
  by unfold_locales
     (auto simp: unplug_block_def offlined_def not_offlined_def sys_def Let_def split: if_splits prod.splits)

interpretation hotplug: block_body "hotplug_block env" "onlined env" "not_onlined env" ERR_PROBE for env
proof unfold_locales
  fix a w w'
  assume "hotplug_block env a w = (None, w')"
  then show "\<exists>ts. w' = w\<lparr>trace := trace w @ ts\<rparr> \<and> onlined env (trace w) a ts"
    by (auto simp: hotplug_block_def onlined_def probe_block_trace sys_def Let_def
        split: if_splits prod.splits)
next
  fix a w rc w'
  assume "hotplug_block env a w = (Some rc, w')"
  then show "rc = ERR_PROBE \<and> (\<exists>ts. w' = w\<lparr>trace := trace w @ ts\<rparr> \<and> not_onlined env (trace w) a ts)"
    by (auto simp: hotplug_block_def not_onlined_def probe_block_trace sys_def Let_def
        split: if_splits prod.splits)
qed

section \<open>What the operations leave alone\<close>

text \<open>Two worlds with the same list: same head, same links, same circuit ids.\<close>

definition same_links :: "world \<Rightarrow> world \<Rightarrow> bool" where
  "same_links w w' \<longleftrightarrow> clist w' = clist w \<and>
     (\<forall>x. map_option (\<lambda>c. (cnext c, circuit_id c)) (heap w' x) =
          map_option (\<lambda>c. (cnext c, circuit_id c)) (heap w x))"

lemma same_links_refl: "clist w' = clist w \<Longrightarrow> heap w' = heap w \<Longrightarrow> same_links w w'"
  by (simp add: same_links_def)

lemma same_links_trans: "same_links u v \<Longrightarrow> same_links v w \<Longrightarrow> same_links u w"
  by (simp add: same_links_def)

lemma same_links_put_node:
  "heap w a = Some c \<Longrightarrow> cnext c' = cnext c \<Longrightarrow> circuit_id c' = circuit_id c \<Longrightarrow>
   same_links w (put_node a c' w)"
  by (simp add: same_links_def)

lemma same_but_node_links:
  assumes "same_but_node a w w'" "heap w a = Some c"
  shows "same_links w w'"
  unfolding same_links_def
proof (intro conjI allI)
  show "clist w' = clist w" using assms by (simp add: same_but_node_def)
  show "map_option (\<lambda>c. (cnext c, circuit_id c)) (heap w' x) =
      map_option (\<lambda>c. (cnext c, circuit_id c)) (heap w x)" for x
    using assms unfolding same_but_node_def by (cases "x = a") auto
qed

lemma same_links_reg_list: "same_links w w' \<Longrightarrow> reg_list w' as = reg_list w as"
proof (rule reg_list_cong)
  assume s: "same_links w w'"
  show "clist w' = clist w" using s by (simp add: same_links_def)
  have "map_option f (map_option (\<lambda>c. (cnext c, circuit_id c)) (heap w' x)) =
      map_option f (map_option (\<lambda>c. (cnext c, circuit_id c)) (heap w x))"
    for f :: "u64 \<times> bytes \<Rightarrow> 'b" and x
    using s by (simp add: same_links_def)
  from this [of fst] this [of snd]
  show "\<forall>a \<in> set as. map_option cnext (heap w' a) = map_option cnext (heap w a)"
    and "\<forall>a \<in> set as. map_option circuit_id (heap w' a) = map_option circuit_id (heap w a)"
    by (simp_all add: option.map_comp comp_def)
qed

lemma same_links_key: "same_links w w' \<Longrightarrow> conn_key (heap w') = conn_key (heap w)"
proof (rule ext, rule conn_key_cong)
  fix x assume "same_links w w'"
  then have "map_option snd (map_option (\<lambda>c. (cnext c, circuit_id c)) (heap w' x)) =
      map_option snd (map_option (\<lambda>c. (cnext c, circuit_id c)) (heap w x))"
    by (simp add: same_links_def)
  then show "map_option circuit_id (heap w' x) = map_option circuit_id (heap w x)"
    by (simp add: option.map_comp comp_def)
qed

lemma dom_registry: "reg_list w as \<Longrightarrow> dom (registry w) = conn_key (heap w) ` set as"
  by (rule set_eqI) (simp only: domIff registry_mem)

lemma same_links_inv: "same_links w w' \<Longrightarrow> reg_inv w' = reg_inv w"
  by (simp add: reg_inv_def same_links_reg_list)

lemma same_links_dom: "same_links w w' \<Longrightarrow> reg_inv w \<Longrightarrow> dom (registry w') = dom (registry w)"
  unfolding reg_inv_def
  using same_links_reg_list [of w w'] same_links_key [of w w'] dom_registry by metis

lemma registry_frame: "heap w' = heap w \<Longrightarrow> clist w' = clist w \<Longrightarrow> registry w' = registry w"
  by (simp add: registry_def cong: option.case_cong)

lemma memalign_frame:
  "memalign env al sz w = (r, w') \<Longrightarrow> heap w' = heap w \<and> clist w' = clist w \<and> nbufs w' = nbufs w"
  by (auto simp: memalign_def Let_def split: if_splits prod.splits)

lemma free_block_frame:
  "free_block p w = Some w' \<Longrightarrow> heap w' = heap w \<and> clist w' = clist w \<and> nbufs w' = nbufs w"
  by (auto simp: free_block_def split: if_splits)

lemma sys_frame: "sys env c w = (r, w') \<Longrightarrow> w' = w\<lparr>trace := trace w @ [c]\<rparr>"
  by (auto simp: sys_def)

lemma hotplug_frame:
  "hotplug_memory_blocks env sz w = Some (rc, w') \<Longrightarrow> \<exists>ts. w' = w\<lparr>trace := trace w @ ts\<rparr>"
  by (auto simp: hotplug_memory_blocks_def dest: hotplug.loop_frame)

lemma unplug_frame:
  "unplug_memory_blocks env sz w = Some (rc, w') \<Longrightarrow> \<exists>ts. w' = w\<lparr>trace := trace w @ ts\<rparr>"
  by (auto simp: unplug_memory_blocks_def dest: unplug.loop_frame)

lemma register_dom:
  assumes "reg_inv w" "register_conn env (Some cid) nm sz nohp w = Some (a, w')"
  shows "reg_inv w' \<and> dom (registry w') = insert (cid_key cid) (dom (registry w))"
proof -
  obtain as where as: "reg_list w as" using assms(1) by (auto simp: reg_inv_def)
  obtain c where "heap w' a = Some c" using register_conn_correct [OF as assms(2)] by blast
  then have "conn_ins (cid_key cid) (payload c) w w'"
    unfolding conn_ins_def using assms(2) by fastforce
  from conn_ins_correct [OF assms(1) this] show ?thesis by auto
qed

lemma attach_memory_links:
  assumes "attach_memory env cid nm ports sz eaptr w = Some ((rc, e), w')"
  shows "\<exists>a w1. register_conn env cid nm sz 0 w = Some (a, w1) \<and> same_links w1 w'"
proof -
  obtain a w1 where s1: "register_conn env cid nm sz 0 w = Some (a, w1)"
    using assms by (auto simp: attach_memory_def)
  obtain b w2 where
      s2: "memalign env CACHE_ALIGNMENT (if mock env then drop_bit 20 256 else sz) w1 = (b, w2)"
    by fastforce
  note s = s1 s2
  have l: "same_links w1 w2" using memalign_frame [OF s(2)] by (simp add: same_links_refl)
  have "same_links w2 w'"
  proof (cases b)
    case None
    then show ?thesis using assms s by (simp add: attach_memory_def same_links_refl)
  next
    case (Some p)
    then obtain c where c: "heap w2 a = Some c"
      using assms s by (auto simp: attach_memory_def)
    let ?w3 = "put_node a (c\<lparr>ea := p\<rparr>) w2"
    have l3: "same_links w2 ?w3" using c by (simp add: same_links_put_node)
    have "same_links ?w3 w'"
      using assms s Some c same_but_node_links [OF setup_afu_memory_frame, of env a _ _ w']
      by (auto simp: attach_memory_def Let_def sys_def same_links_refl split: if_splits)
         (auto simp: same_links_def)
    with l3 show ?thesis by (rule same_links_trans)
  qed
  with s l same_links_trans show ?thesis by blast
qed

lemma attach_compute_links:
  assumes "attach_compute env cid nm ports e sz nohp w = Some (rc, w')"
  shows "(rc = ERR_PORT_UNSUPPORTED \<and> w' = w \<and> length (ports_of ports) \<noteq> 1) \<or>
    (\<exists>a w1. length (ports_of ports) = 1 \<and> register_conn env cid nm sz nohp w = Some (a, w1) \<and>
       same_links w1 w')"
proof (cases "length (ports_of ports) = 1")
  case False
  then show ?thesis
    using assms by (cases ports; cases "pnext ports") (auto simp: attach_compute_def)
next
  case True
  then obtain p where p: "ports = Port p PNull"
    by (cases ports; cases "pnext ports") auto
  obtain a w1 where s: "register_conn env cid nm sz nohp w = Some (a, w1)"
    using assms p by (auto simp: attach_compute_def)
  have "same_links w1 w'"
  proof (cases "mock env")
    case mock: True
    then show ?thesis using assms p s by (simp add: attach_compute_def same_links_refl)
  next
    case real: False
    then obtain rc2 w2 where w2: "setup_afu_compute env a e ports w1 = Some (rc2, w2)"
      using assms p s by (auto simp: attach_compute_def)
    then obtain c where "heap w1 a = Some c" using real by (auto simp: setup_afu_compute_def)
    with w2 have "same_links w1 w2" by (blast intro: same_but_node_links setup_afu_compute_frame)
    moreover have "heap w' = heap w2 \<and> clist w' = clist w2"
      using assms p s w2 real
      by (auto simp: attach_compute_def Let_def sys_def split: if_splits dest!: hotplug_frame)
    ultimately show ?thesis by (simp add: same_links_def)
  qed
  with s True show ?thesis by blast
qed

section \<open>The agent's operations as steps\<close>

datatype flow_op =
    Attach_memory bytes bytes iport_list u64 u64
  | Attach_compute bytes bytes iport_list u64 u64 cint
  | Detach_memory bytes
  | Detach_compute bytes

inductive flow_step :: "env \<Rightarrow> world \<Rightarrow> flow_op \<Rightarrow> cint \<Rightarrow> world \<Rightarrow> bool" for env where
  am: "attach_memory env (Some cid) (Some nm) ports sz e w = Some ((rc, e'), w') \<Longrightarrow>
       flow_step env w (Attach_memory cid nm ports sz e) rc w'"
| ac: "attach_compute env (Some cid) (Some nm) ports e sz nohp w = Some (rc, w') \<Longrightarrow>
       flow_step env w (Attach_compute cid nm ports e sz nohp) rc w'"
| dm: "CIRCUIT_ID_SIZE \<le> length cid \<Longrightarrow> detach_memory env (Some cid) w = Some (rc, w') \<Longrightarrow>
       flow_step env w (Detach_memory cid) rc w'"
| dc: "CIRCUIT_ID_SIZE \<le> length cid \<Longrightarrow> detach_compute env (Some cid) w = Some (rc, w') \<Longrightarrow>
       flow_step env w (Detach_compute cid) rc w'"

inductive_cases am_case: "flow_step env w (Attach_memory cid nm ports sz e) rc w'"
inductive_cases dm_case: "flow_step env w (Detach_memory cid) rc w'"
inductive_simps flow_step_simps:
  "flow_step env w (Attach_memory cid nm ports sz e) rc w'"
  "flow_step env w (Attach_compute cid nm ports e sz nohp) rc w'"
  "flow_step env w (Detach_memory cid) rc w'"
  "flow_step env w (Detach_compute cid) rc w'"

text \<open>A run: operations with the codes they returned.\<close>

inductive flow_run :: "env \<Rightarrow> world \<Rightarrow> (flow_op \<times> cint) list \<Rightarrow> world \<Rightarrow> bool" for env where
  none: "flow_run env w [] w"
| step: "flow_step env w op rc u \<Longrightarrow> flow_run env u ops w' \<Longrightarrow> flow_run env w ((op, rc) # ops) w'"

text \<open>The effect on the set of registered circuits, which does not depend on the code.\<close>

fun op_dom :: "flow_op \<times> cint \<Rightarrow> bytes set \<Rightarrow> bytes set" where
  "op_dom (Attach_memory cid _ _ _ _, _) K = insert (cid_key cid) K"
| "op_dom (Attach_compute cid _ ports _ _ _, _) K =
     (if length (ports_of ports) = 1 then insert (cid_key cid) K else K)"
| "op_dom (Detach_memory cid, _) K = K - {cid_key cid}"
| "op_dom (Detach_compute cid, _) K = K - {cid_key cid}"

lemma detach_registry:
  assumes "reg_inv w" "CIRCUIT_ID_SIZE \<le> length cid"
    and "heap w1 = heap w" "clist w1 = clist w" "del_conn env (Some cid) w1 = Some (rc, w')"
  shows "reg_inv w' \<and> registry w' = (registry w)(cid_key cid := None)"
proof -
  have "reg_inv w1" using assms same_links_inv [OF same_links_refl] by metis
  moreover have "conn_del (cid_key cid) w1 w'" unfolding conn_del_def using assms by blast
  ultimately show ?thesis
    using conn_del_correct registry_frame [OF assms(3,4)] by (metis reg_apply.simps(2))
qed

lemma detach_effect:
  assumes "reg_inv w" "CIRCUIT_ID_SIZE \<le> length cid"
    and "heap w1 = heap w" "clist w1 = clist w" "del_conn env (Some cid) w1 = Some (rc, w')"
  shows "reg_inv w' \<and> dom (registry w') = dom (registry w) - {cid_key cid}"
  using detach_registry [OF assms] by (simp del: fun_upd_apply)

lemma detach_memory_tail:
  "do { w1 \<leftarrow> F; (_, w2) \<leftarrow> G w1; Some (d, w2) } = Some (rc, w') \<Longrightarrow>
   \<exists>w1 y. F = Some w1 \<and> G w1 = Some (y, w') \<and> rc = d"
  by auto

lemma detach_compute_tail:
  "do { (res, w1) \<leftarrow> F; (rd, w2) \<leftarrow> G w1; Some (H res rd, w2) } = Some (rc, w') \<Longrightarrow>
   \<exists>res w1 y. F = Some (res, w1) \<and> G w1 = Some (y, w') \<and> rc = H res y"
  by auto

lemma detach_memory_Some:
  assumes "detach_memory env cid w = Some (rc, w')"
  obtains "get_conn cid w = Some 0" "rc = ERR_MISSING_CID" "w' = w"
  | a c w1 y where "get_conn cid w = Some a" "a \<noteq> 0" "heap w a = Some c"
      "(if ea c = 0 then Some w else free_block (ea c) w) = Some w1"
      "del_conn env cid w1 = Some (y, w')" "rc = DETACH_OK"
proof -
  obtain a where a: "get_conn cid w = Some a" using assms by (auto simp: detach_memory_def)
  show thesis
  proof (cases "a = 0")
    case True
    then have "get_conn cid w = Some 0" using a by simp
    moreover from this have "rc = ERR_MISSING_CID" "w' = w"
      using assms by (simp_all add: detach_memory_def)
    ultimately show thesis by (rule that(1))
  next
    case False
    then obtain c where c: "heap w a = Some c"
      using assms a by (cases "heap w a") (simp_all add: detach_memory_def)
    have e: "detach_memory env cid w =
        do { w1 \<leftarrow> (if ea c = 0 then Some w else free_block (ea c) w);
             (_, w2) \<leftarrow> del_conn env cid w1; Some (DETACH_OK, w2) }"
      using a False c by (simp add: detach_memory_def)
    from detach_memory_tail [OF trans [OF e [symmetric] assms]] obtain w1 y where
      f: "(if ea c = 0 then Some w else free_block (ea c) w) = Some w1"
        "del_conn env cid w1 = Some (y, w')" "rc = DETACH_OK"
      by blast
    show thesis by (rule that(2) [OF a False c f])
  qed
qed

lemma detach_compute_Some:
  assumes "detach_compute env cid w = Some (rc, w')"
  obtains "get_conn cid w = Some 0" "rc = ERR_MISSING_CID" "w' = w"
  | a w1 y where "get_conn cid w = Some a" "a \<noteq> 0" "heap w1 = heap w" "clist w1 = clist w"
      "del_conn env cid w1 = Some (y, w')"
proof -
  obtain a where a: "get_conn cid w = Some a" using assms by (auto simp: detach_compute_def)
  show thesis
  proof (cases "a = 0")
    case True
    then have "get_conn cid w = Some 0" using a by simp
    moreover from this have "rc = ERR_MISSING_CID" "w' = w"
      using assms by (simp_all add: detach_compute_def)
    ultimately show thesis by (rule that(1))
  next
    case False
    then obtain c where c: "heap w a = Some c"
      using assms a by (cases "heap w a") (simp_all add: detach_compute_def)
    have e: "detach_compute env cid w =
        do { (res, w1) \<leftarrow> (if \<not> mock env \<and> no_hotplug c = 0
               then unplug_memory_blocks env (csize c) w else Some (DETACH_OK, w));
             (rd, w2) \<leftarrow> del_conn env cid w1;
             Some (if rd \<noteq> CONN_SUCCESS then ERR_REGISTER_DETACH else res, w2) }"
      using a False c by (simp add: detach_compute_def)
    from detach_compute_tail [where G = "del_conn env cid" and
        H = "\<lambda>res rd. if rd \<noteq> CONN_SUCCESS then ERR_REGISTER_DETACH else res",
        OF trans [OF e [symmetric] assms]]
    obtain res w1 y where f: "(if \<not> mock env \<and> no_hotplug c = 0
          then unplug_memory_blocks env (csize c) w else Some (DETACH_OK, w)) = Some (res, w1)"
        "del_conn env cid w1 = Some (y, w')"
      by blast
    have "heap w1 = heap w \<and> clist w1 = clist w"
      using f(1) unplug_frame [of env "csize c" w res w1] by (auto split: if_splits)
    then show thesis using that(2) [OF a False] f(2) by blast
  qed
qed

lemma absent_dom:
  assumes "reg_inv w" "CIRCUIT_ID_SIZE \<le> length cid" "get_conn (Some cid) w = Some 0"
  shows "dom (registry w) - {cid_key cid} = dom (registry w)"
proof -
  obtain as where as: "reg_list w as" using assms(1) by (auto simp: reg_inv_def)
  have "cid_key cid \<notin> conn_key (heap w) ` set as"
    using get_conn_correct [OF as assms(2)] assms(3)
      node_of_mem [OF reg_list_no_null [OF as], of "heap w" "cid_key cid"] by auto
  then show ?thesis using dom_registry [OF as] by auto
qed

lemma flow_step_registry:
  assumes "flow_step env w op rc w'" "reg_inv w"
  shows "reg_inv w' \<and> dom (registry w') = op_dom (op, rc) (dom (registry w))"
  using assms
proof (induction rule: flow_step.induct)
  case (am cid nm ports sz e w rc e' w')
  then obtain a w1 where w1: "register_conn env (Some cid) (Some nm) sz 0 w = Some (a, w1)"
      "same_links w1 w'" using attach_memory_links by blast
  from register_dom [OF am.prems w1(1)] show ?case
    using same_links_inv [OF w1(2)] same_links_dom [OF w1(2)] by simp
next
  case (ac cid nm ports e sz nohp w rc w')
  from attach_compute_links [OF ac.hyps] show ?case
  proof
    assume "\<exists>a w1. length (ports_of ports) = 1 \<and>
      register_conn env (Some cid) (Some nm) sz nohp w = Some (a, w1) \<and> same_links w1 w'"
    then obtain a w1 where w1: "length (ports_of ports) = 1" "same_links w1 w'"
        "register_conn env (Some cid) (Some nm) sz nohp w = Some (a, w1)" by blast
    from register_dom [OF ac.prems w1(3)] show ?thesis
      using same_links_inv [OF w1(2)] same_links_dom [OF w1(2)] w1(1) by simp
  qed (use ac.prems in simp)
next
  case (dm cid w rc w')
  show ?case
  proof (rule detach_memory_Some [OF dm.hyps(2)])
    fix a c w1 y
    assume "(if ea c = 0 then Some w else free_block (ea c) w) = Some w1"
      "del_conn env (Some cid) w1 = Some (y, w')"
    moreover from this(1) have "heap w1 = heap w" "clist w1 = clist w"
      by (auto split: if_splits dest: free_block_frame)
    ultimately show ?thesis using detach_effect [OF dm.prems dm.hyps(1), of w1 env y w']
by simp
  qed (use dm.prems dm.hyps(1) absent_dom in auto)
next
  case (dc cid w rc w')
  show ?case
  proof (rule detach_compute_Some [OF dc.hyps(2)])
    fix a w1 y
    assume "heap w1 = heap w" "clist w1 = clist w" "del_conn env (Some cid) w1 = Some (y, w')"
    then show ?thesis using detach_effect [OF dc.prems dc.hyps(1), of w1 env y w']
by simp
  qed (use dc.prems dc.hyps(1) absent_dom in auto)
qed

lemma flow_run_registry:
  "flow_run env w ops w' \<Longrightarrow> reg_inv w \<Longrightarrow>
   reg_inv w' \<and> dom (registry w') = fold op_dom ops (dom (registry w))"
proof (induction rule: flow_run.induct)
  case (step w op rc u ops w')
  show ?case
    using flow_step_registry [OF step.hyps(1) step.prems] step.IH by (simp only: fold_simps)
qed simp

section \<open>A successful attachment of memory\<close>

lemma setup_afu_memory_rc:
  "setup_afu_memory env a w = Some (rc, w') \<Longrightarrow> rc \<noteq> ATTACH_OK \<and>
   map_option stat_tid (heap w' a) = map_option stat_tid (heap w a)"
  by (auto simp: setup_afu_memory_def sys_def Let_def err_defs split: if_splits prod.splits)

lemma attach_memory_ok:
  assumes reg: "reg_list w as"
    and ret: "attach_memory env (Some cid) nm ports sz e w = Some ((ATTACH_OK, e'), w')"
  shows "\<exists>a c. a \<noteq> 0 \<and> a \<notin> set as \<and> heap w' a = Some c \<and> ea c = e' \<and> stat_tid c = 0 \<and>
     CIRCUIT_ID_SIZE \<le> length cid \<and> cid_key (circuit_id c) = cid_key cid \<and>
     reg_list w' (if cid_key cid \<in> conn_key (heap w) ` set as then as else a # as) \<and>
     (\<forall>x. x \<noteq> a \<longrightarrow> heap w' x = heap w x) \<and> e' \<notin> set (live w) \<and>
     live w' = (if e' = 0 then live w else e' # live w)"
proof -
  obtain a w1 where s1: "register_conn env (Some cid) nm sz 0 w = Some (a, w1)"
    using ret by (auto simp: attach_memory_def)
  let ?bs = "if mock env then drop_bit 20 256 else sz"
  obtain c where c: "CIRCUIT_ID_SIZE \<le> length cid" "a \<noteq> 0" "heap w a = None" "heap w1 a = Some c"
      "cid_key (circuit_id c) = cid_key cid" "stat_tid c = 0" "live w1 = live w"
      "reg_list w1 (if cid_key cid \<in> conn_key (heap w) ` set as then as else a # as)"
      "\<forall>x. x \<noteq> a \<longrightarrow> heap w1 x = heap w x"
    using register_conn_correct [OF reg s1] by blast
  have na: "a \<notin> set as" using reg c(3) lseg_alloc unfolding reg_list_def by fastforce
  obtain b w2 where s2: "memalign env CACHE_ALIGNMENT ?bs w1 = (b, w2)" by fastforce
  have b: "b \<noteq> None"
  proof
    assume "b = None"
    with ret s1 s2 show False by (simp add: attach_memory_def err_defs)
  qed
  then obtain p where p: "b = Some p" by blast
  have al: "heap w2 = heap w1" "clist w2 = clist w1" "p \<notin> set (live w)"
      "live w2 = (if p = 0 then live w else p # live w)"
    using s2 p c(7) by (auto simp: memalign_def Let_def split: if_splits prod.splits)
  let ?w3 = "put_node a (c\<lparr>ea := p\<rparr>) w2"
  have fin: "e' = p \<and> same_but_node a ?w3 w' \<and>
      map_option stat_tid (heap w' a) = map_option stat_tid (heap ?w3 a)"
  proof (cases "mock env")
    case True
    then show ?thesis
      using ret s1 s2 p al(1) c(4) by (auto simp: attach_memory_def same_but_node_def Let_def)
  next
    case False
    let ?w5 = "?w3\<lparr>trace := trace w2 @ [Mlock p sz, Memset_zero p sz]\<rparr>"
    have w5: "setup_afu_memory env a ?w5 = Some (0, w') \<and> e' = p"
      using False ret s1 s2 p al(1) c(4)
      by (auto simp: attach_memory_def Let_def sys_def err_defs split: if_splits
          dest: setup_afu_memory_rc)
    then show ?thesis
      using setup_afu_memory_frame [of env a ?w5 0 w'] setup_afu_memory_rc [of env a ?w5 0 w']
      by (simp add: same_but_node_def)
  qed
  then obtain d where d: "heap w' a = Some d" "ea d = p" "stat_tid d = 0"
      "circuit_id d = circuit_id c" "live w' = live w2" "\<forall>x. x \<noteq> a \<longrightarrow> heap w' x = heap w x"
    using c(6,9) al(1) by (auto simp: same_but_node_def)
  have "same_links w1 w2" using al by (simp add: same_links_refl)
  moreover have "same_links w2 ?w3" using al(1) c(4) by (simp add: same_links_put_node)
  moreover have "same_links ?w3 w'" using fin by (auto intro: same_but_node_links)
  ultimately have "same_links w1 w'" by (blast intro: same_links_trans)
  then show ?thesis
    using same_links_reg_list c d al fin na
    by (intro exI [of _ a] exI [of _ d]) auto
qed

section \<open>Detaching memory\<close>

lemma node_of_eq:
  assumes "reg_list w as" "a \<in> set as" "conn_key (heap w) a = k"
  shows "node_of (heap w) as k = a"
proof -
  have "k \<in> conn_key (heap w) ` set as" using assms by auto
  then have "node_of (heap w) as k \<in> set as \<and> conn_key (heap w) (node_of (heap w) as k) = k"
    using node_of_mem [OF reg_list_no_null [OF assms(1)], of "heap w" k] by auto
  moreover have "inj_on (conn_key (heap w)) (set as)"
    using assms(1) by (simp add: reg_list_def distinct_map)
  ultimately show ?thesis using assms by (auto dest: inj_onD)
qed

lemma get_conn_present:
  assumes "reg_list w as" "CIRCUIT_ID_SIZE \<le> length cid" "a \<in> set as"
    and "conn_key (heap w) a = cid_key cid"
  shows "get_conn (Some cid) w = Some a \<and> a \<noteq> 0"
  using get_conn_correct [OF assms(1,2)] node_of_eq [OF assms(1,3,4)] reg_list_no_null [OF assms(1)]
    assms(3) by auto

lemma detach_memory_present:
  assumes reg: "reg_list w as" and cid: "CIRCUIT_ID_SIZE \<le> length cid"
    and mem: "a \<in> set as" "conn_key (heap w) a = cid_key cid" "heap w a = Some c"
    and own: "ea c = 0 \<or> ea c \<in> set (live w)" and quiet: "mock env \<or> stat_tid c = 0"
  shows "\<exists>w'. detach_memory env (Some cid) w = Some (DETACH_OK, w') \<and>
     reg_list w' (remove1 a as) \<and> registry w' = (registry w)(cid_key cid := None) \<and>
     live w' = (if ea c = 0 then live w else remove1 (ea c) (live w)) \<and>
     (\<forall>x. x \<noteq> a \<longrightarrow> map_option payload (heap w' x) = map_option payload (heap w x))"
proof -
  obtain w1 where w1: "(if ea c = 0 then Some w else free_block (ea c) w) = Some w1"
      "live w1 = (if ea c = 0 then live w else remove1 (ea c) (live w))"
      "heap w1 = heap w" "clist w1 = clist w"
  proof (cases "ea c = 0")
    case True
    then show ?thesis by (intro that [of w]) simp_all
  next
    case False
    then show ?thesis
      using own
      by (intro that [of "w\<lparr>trace := trace w @ [Free (ea c)], live := remove1 (ea c) (live w)\<rparr>"])
         (auto simp: free_block_def)
  qed
  have reg1: "reg_list w1 as" using reg w1(3,4) reg_list_frame [of w1 w] by simp
  have key1: "conn_key (heap w1) a = cid_key cid" using mem(2) w1(3) by simp
  have uniq: "b = a" if "b \<in> set as" "conn_key (heap w1) b = cid_key cid" for b
    using node_of_eq [OF reg1 that] node_of_eq [OF reg1 mem(1) key1] by simp
  obtain rc w' where del: "del_conn env (Some cid) w1 = Some (rc, w')"
    using del_conn_defined [OF reg1 cid, of env] quiet uniq mem(3) w1(3) by fastforce
  have "detach_memory env (Some cid) w = Some (DETACH_OK, w')"
    using get_conn_present [OF reg cid mem(1,2)] mem(3) w1(1) del by (simp add: detach_memory_def)
  moreover have "reg_inv w" unfolding reg_inv_def using reg by blast
  ultimately show ?thesis
    using del_conn_present [OF reg1 cid mem(1) key1 del] w1(2,3)
      detach_registry [OF _ cid w1(3,4) del] by simp
qed

lemma detach_memory_absent:
  assumes "reg_list w as" "CIRCUIT_ID_SIZE \<le> length cid"
    and "cid_key cid \<notin> conn_key (heap w) ` set as"
  shows "detach_memory env (Some cid) w = Some (ERR_MISSING_CID, w)"
  using get_conn_correct [OF assms(1,2)] assms(3)
    node_of_mem [OF reg_list_no_null [OF assms(1)], of "heap w" "cid_key cid"]
  by (simp add: detach_memory_def)

lemma detach_memory_bad:
  assumes "reg_list w as" "CIRCUIT_ID_SIZE \<le> length cid" "a \<in> set as"
    and "conn_key (heap w) a = cid_key cid" "heap w a = Some c" "ea c \<noteq> 0" "ea c \<notin> set (live w)"
  shows "detach_memory env (Some cid) w = None"
  using get_conn_present [OF assms(1-4)] assms(5-7) by (simp add: detach_memory_def free_block_def)

text \<open>
  The memory the registry owns: every block of a registered circuit is allocated, no two
  circuits share one, and, as on a memory node, no circuit has a counter thread.
\<close>

definition ea_of :: "(u64 \<Rightarrow> connection option) \<Rightarrow> u64 \<Rightarrow> u64" where
  "ea_of h a = (case h a of None \<Rightarrow> 0 | Some c \<Rightarrow> ea c)"

definition tid_of :: "(u64 \<Rightarrow> connection option) \<Rightarrow> u64 \<Rightarrow> u64" where
  "tid_of h a = (case h a of None \<Rightarrow> 0 | Some c \<Rightarrow> stat_tid c)"

definition owns :: "world \<Rightarrow> bool" where
  "owns w \<longleftrightarrow> (\<exists>as. reg_list w as \<and> distinct (live w) \<and>
     distinct (filter (\<lambda>e. e \<noteq> 0) (map (ea_of (heap w)) as)) \<and>
     ea_of (heap w) ` set as \<subseteq> insert 0 (set (live w)) \<and> (\<forall>a \<in> set as. tid_of (heap w) a = 0))"

lemma owns_init: "owns init_world"
  by (auto simp: owns_def reg_list_def intro!: exI [of _ "[]"])

lemma owns_attach:
  assumes own: "owns w"
    and ret: "attach_memory env (Some cid) nm ports sz e w = Some ((ATTACH_OK, e'), w')"
  shows "owns w'"
proof -
  obtain as where as: "reg_list w as" "distinct (live w)"
      "distinct (filter (\<lambda>e. e \<noteq> 0) (map (ea_of (heap w)) as))"
      "ea_of (heap w) ` set as \<subseteq> insert 0 (set (live w))" "\<forall>a \<in> set as. tid_of (heap w) a = 0"
    using own by (auto simp: owns_def)
  obtain a c where a: "a \<notin> set as" "heap w' a = Some c" "ea c = e'" "stat_tid c = 0"
      "reg_list w' (if cid_key cid \<in> conn_key (heap w) ` set as then as else a # as)"
      "\<forall>x. x \<noteq> a \<longrightarrow> heap w' x = heap w x" "e' \<notin> set (live w)"
      "live w' = (if e' = 0 then live w else e' # live w)"
    using attach_memory_ok [OF as(1) ret] by blast
  have old: "ea_of (heap w') x = ea_of (heap w) x" if "x \<in> set as" for x
  proof -
    have "x \<noteq> a" using a(1) that by auto
    with a(6) show ?thesis by (simp add: ea_of_def)
  qed
  then have olds: "map (ea_of (heap w')) as = map (ea_of (heap w)) as" by simp
  have oldt: "tid_of (heap w') x = 0" if "x \<in> set as" for x
  proof -
    have "x \<noteq> a" using a(1) that by auto
    with a(6) as(5) that show ?thesis by (simp add: tid_of_def)
  qed
  have newt: "tid_of (heap w') a = 0" using a(2,4) by (simp add: tid_of_def)
  have new: "ea_of (heap w') a = e'" using a(2,3) by (simp add: ea_of_def)
  have live: "distinct (live w')" "set (live w) \<subseteq> set (live w')"
    using a(7,8) as(2) by auto
  have sub: "ea_of (heap w') ` set as \<subseteq> insert 0 (set (live w'))"
    using as(4) old live(2) by fastforce
  show ?thesis
  proof (cases "cid_key cid \<in> conn_key (heap w) ` set as")
    case True
    then have "reg_list w' as" using a(5) by simp
    then show ?thesis unfolding owns_def using live(1) as(3) olds sub oldt by metis
  next
    case False
    then have reg: "reg_list w' (a # as)" using a(5) by simp
    have "distinct (filter (\<lambda>e. e \<noteq> 0) (map (ea_of (heap w')) (a # as)))"
      using as(3,4) a(7) unfolding list.map new olds by auto
    moreover have "ea_of (heap w') ` set (a # as) \<subseteq> insert 0 (set (live w'))"
      using sub new a(8) by auto
    ultimately show ?thesis unfolding owns_def using live(1) reg oldt newt by (intro exI [of _ "a # as"]) simp
  qed
qed

lemma map_remove1_sub: "distinct (filter P (map f as)) \<Longrightarrow> distinct (filter P (map f (remove1 a as)))"
  by (induction as) (auto dest: set_remove1_subset [THEN subsetD])

lemma distinct_filter_map:
  assumes "distinct (filter P (map f (pre @ a # post)))" "x \<in> set (pre @ post)" "P (f x)"
  shows "f x \<noteq> f a"
proof
  assume eq: "f x = f a"
  have "f x \<in> f ` set (pre @ post)" using assms(2) by (rule imageI)
  then have "f a \<in> f ` set pre \<union> f ` set post" unfolding eq by (simp add: image_Un)
  then show False using assms(1,3) unfolding eq by auto
qed

lemma owns_detach:
  assumes own: "owns w" and cid: "CIRCUIT_ID_SIZE \<le> length cid"
  shows "\<exists>w'. detach_memory env (Some cid) w =
      Some (if registry w (cid_key cid) = None then ERR_MISSING_CID else DETACH_OK, w') \<and> owns w'"
proof -
  obtain as where as: "reg_list w as" "distinct (live w)"
      "distinct (filter (\<lambda>e. e \<noteq> 0) (map (ea_of (heap w)) as))"
      "ea_of (heap w) ` set as \<subseteq> insert 0 (set (live w))" "\<forall>a \<in> set as. tid_of (heap w) a = 0"
    using own by (auto simp: owns_def)
  show ?thesis
  proof (cases "cid_key cid \<in> conn_key (heap w) ` set as")
    case False
    then have "registry w (cid_key cid) = None" using registry_mem [OF as(1)] by blast
    then show ?thesis using detach_memory_absent [OF as(1) cid False] own by simp
  next
    case True
    then obtain a where a: "a \<in> set as" "conn_key (heap w) a = cid_key cid" by auto
    obtain c where c: "heap w a = Some c"
      using as(1) a(1) lseg_alloc unfolding reg_list_def by blast
    have e: "ea_of (heap w) a = ea c" using c by (simp add: ea_of_def)
    then have "ea c = 0 \<or> ea c \<in> set (live w)" using as(4) a(1) by force
    have "stat_tid c = 0" using as(5) a(1) c by (auto simp: tid_of_def)
    with detach_memory_present [OF as(1) cid a c \<open>ea c = 0 \<or> _\<close>, of env] obtain w' where
        w': "detach_memory env (Some cid) w = Some (DETACH_OK, w')" "reg_list w' (remove1 a as)"
          "live w' = (if ea c = 0 then live w else remove1 (ea c) (live w))"
          "\<forall>x. x \<noteq> a \<longrightarrow> map_option payload (heap w' x) = map_option payload (heap w x)" by blast
    have das: "distinct as" using as(1) by (simp add: reg_list_def)
    obtain pre post where split: "as = pre @ a # post" using a(1) by (auto dest: split_list)
    have rem: "remove1 a as = pre @ post" "a \<notin> set (pre @ post)"
      using das split by (simp_all add: remove1_append)
    have old: "ea_of (heap w') x = ea_of (heap w) x" if "x \<noteq> a" for x
    proof -
      have "map_option payload (heap w' x) = map_option payload (heap w x)" using w'(4) that by simp
      then have "map_option ea (map_option payload (heap w' x)) =
          map_option ea (map_option payload (heap w x))" by simp
      then show ?thesis
        by (cases "heap w x"; cases "heap w' x") (auto simp: ea_of_def payload_def)
    qed
    have oldt: "tid_of (heap w') x = tid_of (heap w) x" if "x \<noteq> a" for x
    proof -
      have "map_option payload (heap w' x) = map_option payload (heap w x)" using w'(4) that by simp
      then have "map_option stat_tid (map_option payload (heap w' x)) =
          map_option stat_tid (map_option payload (heap w x))" by simp
      then show ?thesis
        by (cases "heap w x"; cases "heap w' x") (auto simp: tid_of_def payload_def)
    qed
    have "x \<noteq> a" if "x \<in> set (remove1 a as)" for x
      using rem that by auto
    with old have olds: "map (ea_of (heap w')) (remove1 a as) = map (ea_of (heap w)) (remove1 a as)"
      by simp
    have "distinct (filter (\<lambda>e. e \<noteq> 0) (map (ea_of (heap w')) (remove1 a as)))"
      unfolding olds by (rule map_remove1_sub [OF as(3)])
    moreover have "ea_of (heap w') x \<in> insert 0 (set (live w'))" if x: "x \<in> set (remove1 a as)" for x
    proof -
      have xa: "x \<noteq> a" "x \<in> set as" using x rem split by auto
      have "ea_of (heap w) x \<in> insert 0 (set (live w))" using as(4) xa(2) by blast
      moreover have "ea_of (heap w) x \<noteq> ea c" if "ea_of (heap w) x \<noteq> 0"
        using distinct_filter_map [OF as(3) [unfolded split] x [unfolded rem(1)] that] e by simp
      ultimately have "ea_of (heap w) x \<in> insert 0 (set (live w'))"
        unfolding w'(3) using as(2) by (cases "ea c = 0") auto
      then show ?thesis unfolding old [OF xa(1)] .
    qed
    moreover have "tid_of (heap w') x = 0" if x: "x \<in> set (remove1 a as)" for x
    proof -
      have "x \<noteq> a" "x \<in> set as" using x rem split by auto
      then show ?thesis using oldt as(5) by simp
    qed
    moreover have "distinct (live w')" using w'(3) as(2) by simp
    ultimately have "owns w'" unfolding owns_def using w'(2) by blast
    moreover have "registry w (cid_key cid) \<noteq> None" using True registry_mem [OF as(1)] by blast
    ultimately show ?thesis using w'(1) by auto
  qed
qed

section \<open>Properties\<close>

lemma block_count:
  assumes "memory_size < 2 ^ 59"
  shows "unat (memory_size div MEMBLOCK_SIZE) < 2 ^ 31"
proof -
  have "unat memory_size < 2 ^ 59" using assms by (simp add: word_less_nat_alt)
  then show ?thesis by (simp add: unat_div_distrib MEMBLOCK_SIZE_def less_mult_imp_div_less)
qed

text \<open>
  C28: hot-plugging makes the memory blocks of the size online one after the other, in address
  order: the calls are those of the completed blocks, each probed if absent and then set
  online through its own state file.  The result is \<^verbatim>\<open>ATTACH_OK\<close> exactly when all blocks
  completed; else it is \<^verbatim>\<open>ERR_PROBE\<close>, and the calls end with the one that failed in the block
  after the completed ones: no later block is touched.
\<close>

theorem hotplug_blocks:
  assumes "memory_size < 2 ^ 59"
  shows "\<exists>rc tss rest. hotplug_memory_blocks env memory_size w =
       Some (rc, w\<lparr>trace := trace w @ concat tss @ rest\<rparr>) \<and>
     blocks_done (onlined env) (trace w) INIT_PROBE_ADDR tss \<and>
     (rc = ATTACH_OK \<and> length tss = unat (memory_size div MEMBLOCK_SIZE) \<and> rest = [] \<or>
      rc = ERR_PROBE \<and> length tss < unat (memory_size div MEMBLOCK_SIZE) \<and>
        not_onlined env (trace w @ concat tss) (INIT_PROBE_ADDR + of_nat (length tss) * MEMBLOCK_SIZE) rest)"
proof -
  obtain r tss rest where
    "block_loop (hotplug_block env) (unat (memory_size div MEMBLOCK_SIZE)) 0 INIT_PROBE_ADDR w =
       Some (r, w\<lparr>trace := trace w @ concat tss @ rest\<rparr>) \<and>
     blocks_done (onlined env) (trace w) INIT_PROBE_ADDR tss \<and>
     (r = None \<and> length tss = unat (memory_size div MEMBLOCK_SIZE) \<and> rest = [] \<or>
      r = Some ERR_PROBE \<and> length tss < unat (memory_size div MEMBLOCK_SIZE) \<and>
        not_onlined env (trace w @ concat tss) (INIT_PROBE_ADDR + of_nat (length tss) * MEMBLOCK_SIZE) rest)"
    using hotplug.loop_result [OF block_count [OF assms], of env 0 INIT_PROBE_ADDR w]
    unfolding diff_zero by blast
  then show ?thesis unfolding hotplug_memory_blocks_def
    by (intro exI [of _ "case r of None \<Rightarrow> ATTACH_OK | Some rc \<Rightarrow> rc"] exI [of _ tss] exI [of _ rest]) auto
qed

text \<open>An environment in which everything is answered by 1 and a handle, and one that has no blocks.\<close>

definition sysfs_env :: "bool \<Rightarrow> env" where
  "sysfs_env present = (demo_env False)\<lparr>ext := (\<lambda>tr c. case c of
      Access _ True \<Rightarrow> (if present then 0 else -1, 0) | _ \<Rightarrow> (1, 4096))\<rparr>"

lemma hotplug_blocks_witness:
  "\<exists>tss w'. hotplug_memory_blocks (sysfs_env True) (3 * MEMBLOCK_SIZE) init_world = Some (ATTACH_OK, w') \<and>
     trace w' = concat tss \<and> length tss = 3 \<and>
     blocks_done (onlined (sysfs_env True)) [] INIT_PROBE_ADDR tss"
proof -
  have "\<not> not_onlined (sysfs_env True) tr a rest" for tr a rest
    by (simp add: not_onlined_def sysfs_env_def Let_def)
  then show ?thesis
    using hotplug_blocks [of "3 * MEMBLOCK_SIZE" "sysfs_env True" init_world]
    by (auto simp: MEMBLOCK_SIZE_def)
qed

text \<open>
  unplugging sets every memory block offline in address order and returns
  \<^verbatim>\<open>DETACH_OK\<close> exactly when it got through all of them; else it stops with -1 after the call
  that failed.
\<close>

theorem unplug_blocks:
  assumes "memory_size < 2 ^ 59"
  shows "\<exists>rc tss rest. unplug_memory_blocks env memory_size w =
       Some (rc, w\<lparr>trace := trace w @ concat tss @ rest\<rparr>) \<and>
     blocks_done (offlined env) (trace w) INIT_PROBE_ADDR tss \<and>
     (rc = DETACH_OK \<and> length tss = unat (memory_size div MEMBLOCK_SIZE) \<and> rest = [] \<or>
      rc = -1 \<and> length tss < unat (memory_size div MEMBLOCK_SIZE) \<and>
        not_offlined env (trace w @ concat tss) (INIT_PROBE_ADDR + of_nat (length tss) * MEMBLOCK_SIZE) rest)"
proof -
  obtain r tss rest where
    "block_loop (unplug_block env) (unat (memory_size div MEMBLOCK_SIZE)) 0 INIT_PROBE_ADDR w =
       Some (r, w\<lparr>trace := trace w @ concat tss @ rest\<rparr>) \<and>
     blocks_done (offlined env) (trace w) INIT_PROBE_ADDR tss \<and>
     (r = None \<and> length tss = unat (memory_size div MEMBLOCK_SIZE) \<and> rest = [] \<or>
      r = Some (-1) \<and> length tss < unat (memory_size div MEMBLOCK_SIZE) \<and>
        not_offlined env (trace w @ concat tss) (INIT_PROBE_ADDR + of_nat (length tss) * MEMBLOCK_SIZE) rest)"
    using unplug.loop_result [OF block_count [OF assms], of env 0 INIT_PROBE_ADDR w]
    unfolding diff_zero by blast
  then show ?thesis unfolding unplug_memory_blocks_def
    by (intro exI [of _ "case r of None \<Rightarrow> DETACH_OK | Some rc \<Rightarrow> rc"] exI [of _ tss] exI [of _ rest]) auto
qed

lemma unplug_blocks_witness:
  "\<exists>w'. unplug_memory_blocks (sysfs_env False) (3 * MEMBLOCK_SIZE) init_world = Some (-1, w') \<and>
     trace w' = [Access (block_state INIT_PROBE_ADDR) True]"
proof -
  have no: "\<not> offlined (sysfs_env False) tr a ts" for tr a ts
    by (simp add: offlined_def sysfs_env_def Let_def)
  have "tss = []" if "blocks_done (offlined (sysfs_env False)) tr a tss" for tr a tss
    using that no by (cases tss) auto
  moreover have "rest = [Access (block_state a) True]" if "not_offlined (sysfs_env False) tr a rest" for tr a rest
    using that by (auto simp: not_offlined_def sysfs_env_def Let_def)
  ultimately show ?thesis
    using unplug_blocks [of "3 * MEMBLOCK_SIZE" "sysfs_env False" init_world]
    by (fastforce simp: MEMBLOCK_SIZE_def)
qed

text \<open>
  C5: whatever the environment answers and whatever codes the operations return, the
  connection list stays well formed and the set of registered circuits evolves as
  specified: an attachment adds its circuit even when it fails later, a detachment removes
  its own circuit only.
\<close>

theorem flow_registry:
  assumes "flow_run env w ops w'" "reg_inv w"
  shows "reg_inv w' \<and> dom (registry w') = fold op_dom ops (dom (registry w))"
  using assms by (rule flow_run_registry)

lemma demo_attach:
  "\<exists>w'. attach_memory (demo_env True) (Some demo_cid) (Some [65, 0]) PNull MEMBLOCK_SIZE 0 init_world =
     Some ((ATTACH_OK, 8192), w')"
proof -
  obtain w1 where w1: "register_conn (demo_env True) (Some demo_cid) (Some [65, 0]) MEMBLOCK_SIZE 0
      init_world = Some (4096, w1)" using demo_register by blast
  have "reg_list init_world []" by (simp add: reg_list_def)
  from register_conn_correct [OF this w1] obtain c where
    "heap w1 4096 = Some c" "trace w1 = [Malloc (conn_size (demo_env True))]" "live w1 = []" by auto
  with w1 show ?thesis
    by (simp add: attach_memory_def memalign_def Let_def)
qed

lemma flow_registry_witness:
  "\<exists>w'. flow_run (demo_env True) init_world
      [(Attach_memory demo_cid [65, 0] PNull MEMBLOCK_SIZE 0, ATTACH_OK)] w' \<and>
     reg_inv w' \<and> dom (registry w') = insert (cid_key demo_cid) (dom (registry init_world))"
proof -
  obtain w' where run: "flow_run (demo_env True) init_world
      [(Attach_memory demo_cid [65, 0] PNull MEMBLOCK_SIZE 0, ATTACH_OK)] w'"
    using demo_attach flow_run.step [OF flow_step.am flow_run.none] by blast
  from flow_registry [OF run reg_inv_init] run show ?thesis
    unfolding fold_simps op_dom.simps by blast
qed

lemma attach_registry:
  assumes "reg_list w as" "reg_list w' (a # as)" "a \<notin> set as" "heap w' a = Some c"
    and "\<forall>x. x \<noteq> a \<longrightarrow> heap w' x = heap w x"
  shows "registry w' = (registry w)(cid_key (circuit_id c) \<mapsto> payload c)"
proof -
  have nodes: "map (\<lambda>a. (conn_key (heap w') a, payload (the (heap w' a)))) as =
      map (\<lambda>a. (conn_key (heap w) a, payload (the (heap w a)))) as"
    using assms(3,5) by (intro reg_nodes_cong) auto
  have new: "conn_key (heap w') a = cid_key (circuit_id c)" "the (heap w' a) = c"
    using assms(4) by (simp_all add: conn_key_def)
  have "registry w' x = ((registry w)(cid_key (circuit_id c) \<mapsto> payload c)) x" for x
    by (simp only: registry_map_of [OF assms(2)] list.map nodes new)
       (simp add: registry_map_of [OF assms(1)])
  then show ?thesis by blast
qed

lemma attach_then_detach:
  assumes "reg_inv w" "registry w (cid_key cid) = None"
    and "attach_memory env (Some cid) nm ports sz e w = Some ((ATTACH_OK, e'), w')"
  shows "\<exists>c w''. ea c = e' \<and> registry w' = (registry w)(cid_key cid \<mapsto> c) \<and>
     (e' \<noteq> 0 \<longrightarrow> e' \<in> set (live w')) \<and>
     detach_memory env (Some cid) w' = Some (DETACH_OK, w'') \<and> reg_inv w'' \<and>
     registry w'' = registry w \<and> live w'' = live w"
proof -
  obtain as where as: "reg_list w as" using assms(1) by (auto simp: reg_inv_def)
  have new: "cid_key cid \<notin> conn_key (heap w) ` set as"
    using assms(2) registry_mem [OF as] by blast
  obtain a c where a: "heap w' a = Some c" "ea c = e'" "stat_tid c = 0"
      "CIRCUIT_ID_SIZE \<le> length cid" "cid_key (circuit_id c) = cid_key cid"
      "reg_list w' (a # as)" "e' \<notin> set (live w)" "a \<notin> set as" "\<forall>x. x \<noteq> a \<longrightarrow> heap w' x = heap w x"
      "live w' = (if e' = 0 then live w else e' # live w)"
    using attach_memory_ok [OF as assms(3)] new by auto
  have key: "conn_key (heap w') a = cid_key cid" using a(1,5) by (simp add: conn_key_def)
  have mem: "a \<in> set (a # as)" by simp
  have own: "ea c = 0 \<or> ea c \<in> set (live w')" using a(2,10) by simp
  have reg: "registry w' = (registry w)(cid_key cid \<mapsto> payload c)"
    using attach_registry [OF as a(6,8,1,9)] a(5) by simp
  from detach_memory_present [OF a(6,4) mem key a(1) own, of env] a(3) obtain w'' where
      w'': "detach_memory env (Some cid) w' = Some (DETACH_OK, w'')" "reg_list w'' as"
        "registry w'' = (registry w')(cid_key cid := None)"
        "live w'' = (if ea c = 0 then live w' else remove1 (ea c) (live w'))" by auto
  have "registry w'' = registry w" unfolding w''(3) reg using assms(2) by (auto simp: fun_eq_iff)
  moreover have "reg_inv w''" unfolding reg_inv_def using w''(2) by blast
  moreover have "live w'' = live w" using w''(4) a(2,10) by simp
  moreover have "ea (payload c) = e'" using a(2) by (simp add: payload_def)
  moreover have "e' \<noteq> 0 \<longrightarrow> e' \<in> set (live w')" using own a(2) by blast
  ultimately show ?thesis using w''(1) reg by blast
qed

text \<open>
  C14: attaching memory to a new circuit adds exactly that circuit, with the address of the
  memory, to the registry; detaching it again, in the real and in the \<^verbatim>\<open>MOCK\<close> build, restores
  the registry and the set of allocated blocks to what they were before both.
\<close>

theorem attach_detach_memory:
  assumes "reg_inv w" "registry w (cid_key cid) = None"
    and "attach_memory env (Some cid) nm ports sz e w = Some ((ATTACH_OK, e'), w')"
  shows "\<exists>c w''. ea c = e' \<and> registry w' = (registry w)(cid_key cid \<mapsto> c) \<and>
     (e' \<noteq> 0 \<longrightarrow> e' \<in> set (live w')) \<and>
     detach_memory env (Some cid) w' = Some (DETACH_OK, w'') \<and> reg_inv w'' \<and>
     registry w'' = registry w \<and> live w'' = live w"
  using assms by (rule attach_then_detach)

lemma attach_detach_memory_witness:
  "\<exists>w' w''. attach_memory (demo_env True) (Some demo_cid) (Some [65, 0]) PNull MEMBLOCK_SIZE 0 init_world =
       Some ((ATTACH_OK, 8192), w') \<and> 8192 \<in> set (live w') \<and>
     detach_memory (demo_env True) (Some demo_cid) w' = Some (DETACH_OK, w'') \<and> live w'' = [] \<and>
     registry w'' = Map.empty"
proof -
  obtain w' where w': "attach_memory (demo_env True) (Some demo_cid) (Some [65, 0]) PNull MEMBLOCK_SIZE 0
      init_world = Some ((ATTACH_OK, 8192), w')" using demo_attach by blast
  have "reg_list init_world []" by (simp add: reg_list_def)
  then have "registry init_world = Map.empty" by (intro ext) (simp add: registry_map_of)
  with attach_detach_memory [OF reg_inv_init _ w'] w' show ?thesis by fastforce
qed

definition memory_op :: "flow_op \<times> cint \<Rightarrow> bool" where
  "memory_op p \<longleftrightarrow> (case fst p of Attach_memory _ _ _ _ _ \<Rightarrow> snd p = ATTACH_OK
     | Detach_memory _ \<Rightarrow> True | _ \<Rightarrow> False)"

lemma owns_run:
  "flow_run env w ops w' \<Longrightarrow> \<forall>p \<in> set ops. memory_op p \<Longrightarrow> owns w \<Longrightarrow> owns w'"
proof (induction rule: flow_run.induct)
  case (step w op rc u ops w')
  have "owns u"
  proof (cases op)
    case (Attach_memory cid nm ports sz e)
    then have "rc = ATTACH_OK" using step.prems(1) by (simp add: memory_op_def)
    then show ?thesis
      using step.hyps(1) step.prems(2) unfolding Attach_memory
      by (auto elim!: am_case intro: owns_attach)
  next
    case (Detach_memory cid)
    then have d: "CIRCUIT_ID_SIZE \<le> length cid" "detach_memory env (Some cid) w = Some (rc, u)"
      using step.hyps(1) by (auto elim: dm_case)
    then show ?thesis using owns_detach [OF step.prems(2) d(1), of env] by auto
  qed (use step.prems(1) in \<open>auto simp: memory_op_def\<close>)
  then show ?case using step.IH step.prems by simp
qed simp

text \<open>
  C17: on a memory node whose attachments all succeeded, in the real and in the \<^verbatim>\<open>MOCK\<close> build, a
  detach request for any circuit is safe: it always returns, \<^verbatim>\<open>free\<close> is only ever called on a
  live block, once, and the code tells whether the circuit was attached.
\<close>

theorem memory_detach_safe:
  assumes "flow_run env init_world ops w" "\<forall>p \<in> set ops. memory_op p"
    and "CIRCUIT_ID_SIZE \<le> length cid"
  shows "\<exists>rc w'. detach_memory env (Some cid) w = Some (rc, w') \<and>
     rc = (if registry w (cid_key cid) = None then ERR_MISSING_CID else DETACH_OK)"
  using owns_detach [OF owns_run [OF assms(1,2) owns_init] assms(3)] by blast

lemma memory_detach_safe_witness:
  "\<exists>w rc w'. flow_run (demo_env True) init_world
      [(Attach_memory demo_cid [65, 0] PNull MEMBLOCK_SIZE 0, ATTACH_OK)] w \<and>
     detach_memory (demo_env True) (Some demo_cid) w = Some (rc, w')"
proof -
  let ?ops = "[(Attach_memory demo_cid [65, 0] PNull MEMBLOCK_SIZE 0, ATTACH_OK)]"
  obtain w where w: "flow_run (demo_env True) init_world ?ops w"
    using demo_attach flow_run.step [OF flow_step.am flow_run.none] by blast
  have "\<forall>p \<in> set ?ops. memory_op p" by (simp add: memory_op_def)
  from memory_detach_safe [OF w this demo_cid_key(2)] w show ?thesis by fastforce
qed

lemma failed_attach:
  assumes "reg_list w as" "cid_key cid \<notin> conn_key (heap w) ` set as"
    and fails: "fst (ext env (trace w @ [Malloc (conn_size env)])
      (Posix_memalign CACHE_ALIGNMENT (if mock env then drop_bit 20 256 else sz))) \<noteq> 0"
    and ret: "attach_memory env (Some cid) nm ports sz e w = Some ((rc, e'), w')"
  shows "rc = 1 \<and> e' = e \<and> live w' = live w \<and> (\<exists>a c. heap w' a = Some c \<and>
     ea c = junk_word env (trace w) 304 \<and> stat_tid c = 0 \<and> CIRCUIT_ID_SIZE \<le> length cid \<and>
     cid_key (circuit_id c) = cid_key cid \<and> reg_list w' (a # as) \<and> a \<notin> set as \<and>
     (\<forall>x. x \<noteq> a \<longrightarrow> heap w' x = heap w x))"
proof -
  obtain a w1 where s1: "register_conn env (Some cid) nm sz 0 w = Some (a, w1)"
    using ret by (auto simp: attach_memory_def)
  obtain c where c: "CIRCUIT_ID_SIZE \<le> length cid" "heap w1 a = Some c" "heap w a = None"
      "cid_key (circuit_id c) = cid_key cid" "ea c = junk_word env (trace w) 304" "stat_tid c = 0"
      "live w1 = live w" "reg_list w1 (a # as)" "\<forall>x. x \<noteq> a \<longrightarrow> heap w1 x = heap w x"
      "trace w1 = trace w @ [Malloc (conn_size env)]"
    using register_conn_correct [OF assms(1) s1] assms(2) by auto
  have na: "a \<notin> set as" using assms(1) c(3) lseg_alloc unfolding reg_list_def by fastforce
  let ?al = "Posix_memalign CACHE_ALIGNMENT (if mock env then drop_bit 20 256 else sz)"
  let ?w2 = "w1\<lparr>trace := trace w1 @ [?al]\<rparr>"
  have al: "memalign env CACHE_ALIGNMENT (if mock env then drop_bit 20 256 else sz) w1 = (None, ?w2)"
    using fails unfolding memalign_def c(10) by (simp add: case_prod_beta Let_def)
  have "rc = 1 \<and> e' = e \<and> w' = ?w2"
    using ret s1 al by (simp add: attach_memory_def)
  moreover have "reg_list ?w2 (a # as)" using c(8) reg_list_frame [of ?w2 w1 "a # as"] by simp
  ultimately show ?thesis using c na by (intro conjI exI [of _ a] exI [of _ c]) simp_all
qed

text \<open>
  C34: an attachment whose \<^verbatim>\<open>posix_memalign\<close> fails reports 1 but leaves its circuit registered,
  with whatever the new block of memory for the connection held as its address.  The later
  detachment of that circuit is undefined, because it frees a pointer the allocator never
  returned, unless that word happens to be \<^verbatim>\<open>NULL\<close> or a live block; in the latter case it
  succeeds and frees memory that belongs to somebody else.  Both builds.
\<close>

theorem failed_attach_poisons_detach:
  assumes "reg_inv w" "registry w (cid_key cid) = None"
    and "fst (ext env (trace w @ [Malloc (conn_size env)])
      (Posix_memalign CACHE_ALIGNMENT (if mock env then drop_bit 20 256 else sz))) \<noteq> 0"
    and "attach_memory env (Some cid) nm ports sz e w = Some ((rc, e'), w')"
    and "garbage = junk_word env (trace w) 304"
  shows "rc = 1 \<and> live w' = live w \<and>
     (\<exists>c. registry w' = (registry w)(cid_key cid \<mapsto> c) \<and> ea c = garbage) \<and>
     (if garbage \<notin> insert 0 (set (live w)) then detach_memory env (Some cid) w' = None
      else \<exists>w''. detach_memory env (Some cid) w' = Some (DETACH_OK, w'') \<and>
        live w'' = (if garbage = 0 then live w else remove1 garbage (live w)))"
proof -
  obtain as where as: "reg_list w as" using assms(1) by (auto simp: reg_inv_def)
  have new: "cid_key cid \<notin> conn_key (heap w) ` set as"
    using assms(2) registry_mem [OF as] by blast
  obtain a c where a: "heap w' a = Some c" "ea c = garbage" "stat_tid c = 0"
      "CIRCUIT_ID_SIZE \<le> length cid" "cid_key (circuit_id c) = cid_key cid" "reg_list w' (a # as)"
      "a \<notin> set as" "\<forall>x. x \<noteq> a \<longrightarrow> heap w' x = heap w x"
    and rc: "rc = 1" "live w' = live w"
    using failed_attach [OF as new assms(3,4)] assms(5) by blast
  have key: "conn_key (heap w') a = cid_key cid" using a(1,5) by (simp add: conn_key_def)
  have mem: "a \<in> set (a # as)" by simp
  have "registry w' = (registry w)(cid_key cid \<mapsto> payload c)"
    using attach_registry [OF as a(6,7,1,8)] a(5) by simp
  moreover have "ea (payload c) = garbage" using a(2) by (simp add: payload_def)
  moreover have "detach_memory env (Some cid) w' = None" if "garbage \<notin> insert 0 (set (live w))"
    using detach_memory_bad [OF a(6,4) mem key a(1)] a(2) rc(2) that by simp
  moreover have "\<exists>w''. detach_memory env (Some cid) w' = Some (DETACH_OK, w'') \<and>
      live w'' = (if garbage = 0 then live w else remove1 garbage (live w))"
    if "garbage \<in> insert 0 (set (live w))"
    using detach_memory_present [OF a(6,4) mem key a(1), of env] a(2,3) rc(2) that by auto
  ultimately show ?thesis using rc by auto
qed

definition oom_env :: env where
  "oom_env = (demo_env True)\<lparr>ext := (\<lambda>tr c. case c of Posix_memalign _ _ \<Rightarrow> (12, 0)
      | _ \<Rightarrow> (0, 4096 * of_nat (Suc (length tr)))), junk := (\<lambda>_ _. 1)\<rparr>"

lemma failed_attach_poisons_detach_witness:
  "\<exists>w'. attach_memory oom_env (Some demo_cid) (Some [65, 0]) PNull MEMBLOCK_SIZE 0 init_world =
       Some ((1, 0), w') \<and> detach_memory oom_env (Some demo_cid) w' = None"
proof -
  have reg: "reg_list init_world []" by (simp add: reg_list_def)
  have m: "mock oom_env" by (simp add: oom_env_def)
  obtain w1 where w1: "register_conn oom_env (Some demo_cid) (Some [65, 0]) MEMBLOCK_SIZE 0 init_world =
      Some (4096, w1)"
  proof -
    have "ext oom_env (trace init_world) (Malloc (conn_size oom_env)) = (0, 4096)" by (simp add: oom_env_def)
    from register_conn_defined [OF reg this _ _ demo_cid_key(2), of "[65, 0]"] that
    show thesis by auto
  qed
  obtain w' where ret: "attach_memory oom_env (Some demo_cid) (Some [65, 0]) PNull MEMBLOCK_SIZE 0
      init_world = Some ((1, 0), w')"
    using w1 m by (simp add: attach_memory_def memalign_def Let_def) (simp add: oom_env_def)
  have "registry init_world (cid_key demo_cid) = None" by (simp add: registry_map_of [OF reg])
  moreover have "fst (ext oom_env (trace init_world @ [Malloc (conn_size oom_env)])
      (Posix_memalign CACHE_ALIGNMENT (if mock oom_env then drop_bit 20 256 else MEMBLOCK_SIZE))) \<noteq> 0"
    by (simp add: oom_env_def)
  moreover have "junk_word oom_env (trace init_world) 304 \<notin> insert 0 (set (live init_world))"
    by (simp add: junk_word_def oom_env_def upt_rec)
  ultimately show ?thesis
    using failed_attach_poisons_detach [OF reg_inv_init _ _ ret refl] ret by auto
qed

end
