(* ===== verification/TFMsg.thy ===== *)
theory TFMsg imports TFPort begin

text \<open>
  The message accessors of \<^verbatim>\<open>libthymesisflow/src/proto.c\<close> (lines 33 to 239): one \<^verbatim>\<open>get_\<close>
  and one \<^verbatim>\<open>set_\<close> function per field of the 333-byte wire message.  A setter returns its
  status code and the message; a getter that fills a caller's buffer returns the status
  and the buffer.  \<open>msg_view\<close> abstracts a message to the record of its fields, and every
  setter is shown to be the update of that one field.
\<close>

section \<open>Model\<close>

subsection \<open>Byte-array fields\<close>

text \<open>
  The three getters of strings have the same body; \<open>get_string\<close> is that body at a field:
  copy \<open>len\<close> bytes out and terminate the copy.
\<close>

definition get_string :: "nat \<Rightarrow> nat \<Rightarrow> cptr \<Rightarrow> cptr \<Rightarrow> (cint \<times> cptr) option" where
  "get_string off len msg dst =
     (case (msg, dst) of
        (Some m, Some d) \<Rightarrow> do {
          src \<leftarrow> mem_read off len m;
          d1 \<leftarrow> mem_write 0 src d;
          d2 \<leftarrow> mem_write len [0] d1;
          Some (0, Some d2) }
      | _ \<Rightarrow> Some (-1, dst))"

definition get_circuitid :: "cptr \<Rightarrow> cptr \<Rightarrow> (cint \<times> cptr) option" where
  "get_circuitid msg circuit_id = get_string CIRCUIT_ID_OFFSET CIRCUIT_ID_SIZE msg circuit_id"

definition get_msgtype :: "cptr \<Rightarrow> cptr \<Rightarrow> (cint \<times> cptr) option" where
  "get_msgtype msg msgtype = get_string MSGTYPE_OFFSET MSGTYPE_SIZE msg msgtype"

definition get_afu_name :: "cptr \<Rightarrow> cptr \<Rightarrow> (cint \<times> cptr) option" where
  "get_afu_name msg afu_name = get_string AFUNAME_OFFSET AFUNAME_SIZE msg afu_name"

definition set_circuitid :: "cptr \<Rightarrow> cptr \<Rightarrow> (cint \<times> cptr) option" where
  "set_circuitid msg circuit_id =
     (case circuit_id of
        None \<Rightarrow> Some (ERR_NULL_PARAM, msg)
      | Some c \<Rightarrow>
         (case msg of
            None \<Rightarrow> Some (ERR_MSGNULL, msg)
          | Some m \<Rightarrow> do {
              src \<leftarrow> mem_read 0 CIRCUIT_ID_SIZE c;
              m' \<leftarrow> mem_write CIRCUIT_ID_OFFSET src m;
              Some (0, Some m') }))"

text \<open>The chain \<^verbatim>\<open>strcmp(..) != 0 && strcmp(..) != 0 && ..\<close>, left to right.\<close>

fun all_differ :: "bytes \<Rightarrow> string list \<Rightarrow> bool option" where
  "all_differ t [] = Some True"
| "all_differ t (l # ls) =
     do { e \<leftarrow> strcmp_eq t (lit l); if e then Some False else all_differ t ls }"

definition set_msgtype :: "cptr \<Rightarrow> cptr \<Rightarrow> (cint \<times> cptr) option" where
  "set_msgtype msg msgtype =
     (case msgtype of
        None \<Rightarrow> Some (ERR_NULL_PARAM, msg)
      | Some t \<Rightarrow>
         (case msg of
            None \<Rightarrow> Some (ERR_MSGNULL, msg)
          | Some m \<Rightarrow> do {
              unknown \<leftarrow> all_differ t
                [COMPUTE_ATTACH, COMPUTE_DETACH, MEMORY_ATTACH, MEMORY_DETACH,
                 CRESPONSE_ATTACH, CRESPONSE_DETACH, MRESPONSE_ATTACH, MRESPONSE_DETACH];
              if unknown then Some (ERR_MSGTYPE, msg)
              else do {
                src \<leftarrow> mem_read 0 MSGTYPE_SIZE t;
                m' \<leftarrow> mem_write MSGTYPE_OFFSET src m;
                Some (0, Some m') } }))"

definition set_afu :: "cptr \<Rightarrow> cptr \<Rightarrow> (cint \<times> cptr) option" where
  "set_afu msg afu =
     (case afu of
        None \<Rightarrow> Some (ERR_NULL_PARAM, msg)
      | Some a \<Rightarrow> do {
          n \<leftarrow> strlen a;
          if n = 0 then Some (ERR_EMPTY_PARAM, msg)
          else (case msg of
             None \<Rightarrow> Some (ERR_MSGNULL, msg)
           | Some m \<Rightarrow> do {
               src \<leftarrow> mem_read 0 AFUNAME_SIZE a;
               m' \<leftarrow> mem_write AFUNAME_OFFSET src m;
               Some (0, Some m') }) })"

subsection \<open>Integer fields\<close>

definition get_size :: "cptr \<Rightarrow> u64 option" where
  "get_size msg =
     (case msg of
        None \<Rightarrow> Some (scast ERR_MSGNULL)
      | Some m \<Rightarrow> map_option of_le (mem_read MEM_SIZE_OFFSET MEM_SIZE m))"

definition set_size :: "cptr \<Rightarrow> u64 \<Rightarrow> (cint \<times> cptr) option" where
  "set_size msg sz =
     (case msg of
        None \<Rightarrow> Some (ERR_MSGNULL, msg)
      | Some m \<Rightarrow>
          if sz \<le> 0 then Some (ERR_INT_PARAM, msg)
          else if sz mod MEMBLOCK_SIZE \<noteq> 0 then Some (ERR_MEMBLOCK_SIZE, msg)
          else do {
            m' \<leftarrow> mem_write MEM_SIZE_OFFSET (le_bytes MEM_SIZE sz) m;
            Some (0, Some m') })"

definition get_ea :: "cptr \<Rightarrow> u64 option" where
  "get_ea msg =
     (case msg of
        None \<Rightarrow> Some (scast ERR_MSGNULL)
      | Some m \<Rightarrow> map_option of_le (mem_read EA_OFFSET EA_SIZE m))"

definition set_ea :: "cptr \<Rightarrow> u64 \<Rightarrow> (cint \<times> cptr) option" where
  "set_ea msg ea =
     (case msg of
        None \<Rightarrow> Some (ERR_MSGNULL, msg)
      | Some m \<Rightarrow>
          if ea = 0 then Some (ERR_INT_PARAM, msg)
          else do {
            m' \<leftarrow> mem_write EA_OFFSET (le_bytes EA_SIZE ea) m;
            Some (0, Some m') })"

definition get_no_hotplug :: "cptr \<Rightarrow> cint option" where
  "get_no_hotplug msg =
     (case msg of
        None \<Rightarrow> None
      | Some m \<Rightarrow> map_option of_le (mem_read NO_HOTPLUG_OFFSET NO_HOTPLUG_SIZE m))"

definition set_no_hotplug :: "cptr \<Rightarrow> cint \<Rightarrow> (cint \<times> cptr) option" where
  "set_no_hotplug msg no_hotplug =
     (case msg of
        None \<Rightarrow> Some (ERR_MSGNULL, msg)
      | Some m \<Rightarrow>
          if sint no_hotplug > 1 \<or> sint no_hotplug < 0 then Some (ERR_INT_PARAM, msg)
          else do {
            m' \<leftarrow> mem_write NO_HOTPLUG_OFFSET (le_bytes NO_HOTPLUG_SIZE no_hotplug) m;
            Some (0, Some m') })"

definition get_status :: "cptr \<Rightarrow> cint option" where
  "get_status msg =
     (case msg of
        None \<Rightarrow> None
      | Some m \<Rightarrow> map_option of_le (mem_read ERROR_OFFSET ERROR_SIZE m))"

definition set_status :: "cptr \<Rightarrow> cint \<Rightarrow> cptr option" where
  "set_status msg status =
     (case msg of
        None \<Rightarrow> None
      | Some m \<Rightarrow> map_option Some (mem_write ERROR_OFFSET (le_bytes ERROR_SIZE status) m))"

definition get_iports :: "cptr \<Rightarrow> iport_list option" where
  "get_iports msg =
     (case msg of
        None \<Rightarrow> None
      | Some m \<Rightarrow> do { b \<leftarrow> mem_read IPORT_OFFSET IPORT_SIZE m; unmarshal_iports (of_le b) })"

definition set_iports :: "cptr \<Rightarrow> iport_list \<Rightarrow> cptr option" where
  "set_iports msg ports = do {
     rep \<leftarrow> marshal_iports ports;
     (case msg of
        None \<Rightarrow> None
      | Some m \<Rightarrow> map_option Some (mem_write IPORT_OFFSET [rep] m)) }"

section \<open>The abstract message\<close>

record msg_view =
  v_cid :: bytes
  v_type :: bytes
  v_afu :: bytes
  v_ports :: byte
  v_size :: u64
  v_ea :: u64
  v_nohp :: cint
  v_status :: cint

definition view :: "bytes \<Rightarrow> msg_view" where
  "view m =
     \<lparr> v_cid = get_at CIRCUIT_ID_OFFSET CIRCUIT_ID_SIZE m,
       v_type = get_at MSGTYPE_OFFSET MSGTYPE_SIZE m,
       v_afu = get_at AFUNAME_OFFSET AFUNAME_SIZE m,
       v_ports = of_le (get_at IPORT_OFFSET IPORT_SIZE m),
       v_size = of_le (get_at MEM_SIZE_OFFSET MEM_SIZE m),
       v_ea = of_le (get_at EA_OFFSET EA_SIZE m),
       v_nohp = of_le (get_at NO_HOTPLUG_OFFSET NO_HOTPLUG_SIZE m),
       v_status = of_le (get_at ERROR_OFFSET ERROR_SIZE m) \<rparr>"

definition unview :: "msg_view \<Rightarrow> bytes" where
  "unview v = v_cid v @ v_type v @ v_afu v @ [v_ports v] @ le_bytes 8 (v_size v) @
     le_bytes 8 (v_ea v) @ le_bytes 4 (v_nohp v) @ le_bytes 4 (v_status v)"

text \<open>A message buffer: as long as a message.\<close>

definition is_msg :: "bytes \<Rightarrow> bool" where
  "is_msg m \<longleftrightarrow> length m = MSG_SIZE"


section \<open>The fields as instances of the field interface\<close>

interpretation cid_f: wire_field CIRCUIT_ID_OFFSET CIRCUIT_ID_SIZE MSG_SIZE
    "\<lambda>b. length b = CIRCUIT_ID_SIZE" "\<lambda>b. b" "\<lambda>b. b"
  by unfold_locales (simp_all add: layout_defs)

interpretation type_f: wire_field MSGTYPE_OFFSET MSGTYPE_SIZE MSG_SIZE
    "\<lambda>b. length b = MSGTYPE_SIZE" "\<lambda>b. b" "\<lambda>b. b"
  by unfold_locales (simp_all add: layout_defs)

interpretation afu_f: wire_field AFUNAME_OFFSET AFUNAME_SIZE MSG_SIZE
    "\<lambda>b. length b = AFUNAME_SIZE" "\<lambda>b. b" "\<lambda>b. b"
  by unfold_locales (simp_all add: layout_defs)

interpretation ports_f: wire_field IPORT_OFFSET IPORT_SIZE MSG_SIZE
    "\<lambda>_. True" "\<lambda>b. [b]" "of_le :: bytes \<Rightarrow> byte"
  by unfold_locales (simp_all add: layout_defs)

interpretation size_f: wire_field MEM_SIZE_OFFSET MEM_SIZE MSG_SIZE
    "\<lambda>_. True" "le_bytes MEM_SIZE" "of_le :: bytes \<Rightarrow> u64"
  by unfold_locales (simp_all add: layout_defs)

interpretation ea_f: wire_field EA_OFFSET EA_SIZE MSG_SIZE
    "\<lambda>_. True" "le_bytes EA_SIZE" "of_le :: bytes \<Rightarrow> u64"
  by unfold_locales (simp_all add: layout_defs)

interpretation nohp_f: wire_field NO_HOTPLUG_OFFSET NO_HOTPLUG_SIZE MSG_SIZE
    "\<lambda>_. True" "le_bytes NO_HOTPLUG_SIZE" "of_le :: bytes \<Rightarrow> cint"
  by unfold_locales (simp_all add: layout_defs)

interpretation status_f: wire_field ERROR_OFFSET ERROR_SIZE MSG_SIZE
    "\<lambda>_. True" "le_bytes ERROR_SIZE" "of_le :: bytes \<Rightarrow> cint"
  by unfold_locales (simp_all add: layout_defs)

lemmas field_get_put = cid_f.get_put type_f.get_put afu_f.get_put ports_f.get_put
  size_f.get_put ea_f.get_put nohp_f.get_put status_f.get_put

section \<open>Every setter updates its field of the view\<close>

lemma view_put_cid:
  "is_msg m \<Longrightarrow> length b = CIRCUIT_ID_SIZE \<Longrightarrow>
   view (put_at CIRCUIT_ID_OFFSET b m) = (view m)\<lparr>v_cid := b\<rparr>"
  by (simp add: view_def is_msg_def cid_f.get_put) (simp add: layout_defs get_put_other)

lemma view_put_type:
  "is_msg m \<Longrightarrow> length b = MSGTYPE_SIZE \<Longrightarrow>
   view (put_at MSGTYPE_OFFSET b m) = (view m)\<lparr>v_type := b\<rparr>"
  by (simp add: view_def is_msg_def type_f.get_put) (simp add: layout_defs get_put_other)

lemma view_put_afu:
  "is_msg m \<Longrightarrow> length b = AFUNAME_SIZE \<Longrightarrow>
   view (put_at AFUNAME_OFFSET b m) = (view m)\<lparr>v_afu := b\<rparr>"
  by (simp add: view_def is_msg_def afu_f.get_put) (simp add: layout_defs get_put_other)

lemma view_put_ports:
  "is_msg m \<Longrightarrow> view (put_at IPORT_OFFSET [b] m) = (view m)\<lparr>v_ports := b\<rparr>"
  by (simp add: view_def is_msg_def ports_f.get_put) (simp add: layout_defs get_put_other)

lemma view_put_size:
  "is_msg m \<Longrightarrow> view (put_at MEM_SIZE_OFFSET (le_bytes MEM_SIZE s) m) = (view m)\<lparr>v_size := s\<rparr>"
  by (simp add: view_def is_msg_def size_f.get_put) (simp add: layout_defs get_put_other)

lemma view_put_ea:
  "is_msg m \<Longrightarrow> view (put_at EA_OFFSET (le_bytes EA_SIZE e) m) = (view m)\<lparr>v_ea := e\<rparr>"
  by (simp add: view_def is_msg_def ea_f.get_put) (simp add: layout_defs get_put_other)

lemma view_put_nohp:
  "is_msg m \<Longrightarrow>
   view (put_at NO_HOTPLUG_OFFSET (le_bytes NO_HOTPLUG_SIZE h) m) = (view m)\<lparr>v_nohp := h\<rparr>"
  by (simp add: view_def is_msg_def nohp_f.get_put) (simp add: layout_defs get_put_other)

lemma view_put_status:
  "is_msg m \<Longrightarrow> view (put_at ERROR_OFFSET (le_bytes ERROR_SIZE e) m) = (view m)\<lparr>v_status := e\<rparr>"
  by (simp add: view_def is_msg_def status_f.get_put) (simp add: layout_defs get_put_other)

lemma is_msg_puts:
  assumes "is_msg m"
  shows "length b = CIRCUIT_ID_SIZE \<Longrightarrow> is_msg (put_at CIRCUIT_ID_OFFSET b m)"
    and "length b = MSGTYPE_SIZE \<Longrightarrow> is_msg (put_at MSGTYPE_OFFSET b m)"
    and "length b = AFUNAME_SIZE \<Longrightarrow> is_msg (put_at AFUNAME_OFFSET b m)"
    and "is_msg (put_at IPORT_OFFSET [p] m)"
    and "is_msg (put_at MEM_SIZE_OFFSET (le_bytes MEM_SIZE (s :: u64)) m)"
    and "is_msg (put_at EA_OFFSET (le_bytes EA_SIZE (e :: u64)) m)"
    and "is_msg (put_at NO_HOTPLUG_OFFSET (le_bytes NO_HOTPLUG_SIZE (h :: cint)) m)"
    and "is_msg (put_at ERROR_OFFSET (le_bytes ERROR_SIZE h) m)"
  using assms
  by (auto simp: is_msg_def cid_f.put_length type_f.put_length afu_f.put_length
      ports_f.put_length size_f.put_length ea_f.put_length nohp_f.put_length status_f.put_length)

section \<open>The setters on a message buffer\<close>

lemma set_circuitid_msg:
  "is_msg m \<Longrightarrow> CIRCUIT_ID_SIZE \<le> length c \<Longrightarrow>
   set_circuitid (Some m) (Some c) =
     Some (0, Some (put_at CIRCUIT_ID_OFFSET (take CIRCUIT_ID_SIZE c) m))"
  by (simp add: set_circuitid_def mem_read_in get_at_def is_msg_def cid_f.put_defined)

lemma set_size_msg:
  "is_msg m \<Longrightarrow> set_size (Some m) sz =
     (if sz = 0 then Some (ERR_INT_PARAM, Some m)
      else if sz mod MEMBLOCK_SIZE \<noteq> 0 then Some (ERR_MEMBLOCK_SIZE, Some m)
      else Some (0, Some (put_at MEM_SIZE_OFFSET (le_bytes MEM_SIZE sz) m)))"
  by (simp add: set_size_def is_msg_def size_f.put_defined)

lemma set_ea_msg:
  "is_msg m \<Longrightarrow> set_ea (Some m) ea =
     (if ea = 0 then Some (ERR_INT_PARAM, Some m)
      else Some (0, Some (put_at EA_OFFSET (le_bytes EA_SIZE ea) m)))"
  by (simp add: set_ea_def is_msg_def ea_f.put_defined)

lemma flag_range: "\<not> (sint h > 1 \<or> sint h < 0) \<longleftrightarrow> h = 0 \<or> h = (1 :: cint)"
proof -
  have "sint h = 0 \<longleftrightarrow> h = 0" "sint h = 1 \<longleftrightarrow> h = 1"
    using signed_word_eqI [of h 0] signed_word_eqI [of h 1] by auto
  moreover have "\<not> (sint h > 1 \<or> sint h < 0) \<longleftrightarrow> sint h = 0 \<or> sint h = 1"
    by arith
  ultimately show ?thesis by simp
qed

lemma set_no_hotplug_msg:
  "is_msg m \<Longrightarrow> set_no_hotplug (Some m) h =
     (if h = 0 \<or> h = 1
      then Some (0, Some (put_at NO_HOTPLUG_OFFSET (le_bytes NO_HOTPLUG_SIZE h) m))
      else Some (ERR_INT_PARAM, Some m))"
  unfolding flag_range [of h, symmetric]
  by (simp only: set_no_hotplug_def option.case is_msg_def nohp_f.put_defined if_not_P not_not
      Option.bind.bind_lunit if_distrib HOL.if_not_P simp_thms cong: if_cong) simp

lemma set_status_msg:
  "is_msg m \<Longrightarrow>
   set_status (Some m) e = Some (Some (put_at ERROR_OFFSET (le_bytes ERROR_SIZE e) m))"
  by (simp add: set_status_def is_msg_def status_f.put_defined)

lemma set_iports_msg:
  "is_msg m \<Longrightarrow> marshal_iports pl = Some rep \<Longrightarrow>
   set_iports (Some m) pl = Some (Some (put_at IPORT_OFFSET [rep] m))"
  by (simp add: set_iports_def is_msg_def ports_f.put_defined)

lemma set_afu_msg:
  "is_msg m \<Longrightarrow> AFUNAME_SIZE \<le> length a \<Longrightarrow> 0 \<in> set a \<Longrightarrow>
   set_afu (Some m) (Some a) =
     (if hd a = 0 then Some (ERR_EMPTY_PARAM, Some m)
      else Some (0, Some (put_at AFUNAME_OFFSET (take AFUNAME_SIZE a) m)))"
  by (cases a) (auto simp: set_afu_def strlen_iff mem_read_in get_at_def is_msg_def afu_f.put_defined)

text \<open>A message type is accepted when, as a C string, it is one of the eight.\<close>

definition msgtypes :: "string list" where
  "msgtypes = [COMPUTE_ATTACH, COMPUTE_DETACH, MEMORY_ATTACH, MEMORY_DETACH,
     CRESPONSE_ATTACH, CRESPONSE_DETACH, MRESPONSE_ATTACH, MRESPONSE_DETACH]"

lemma all_differ_iff:
  "0 \<in> set t \<Longrightarrow> all_differ t ls = Some (upto_nul t \<notin> (\<lambda>l. upto_nul (lit l)) ` set ls)"
  by (induction ls) (simp_all add: strcmp_eq_iff)

lemma set_msgtype_msg:
  "is_msg m \<Longrightarrow> MSGTYPE_SIZE \<le> length t \<Longrightarrow> 0 \<in> set t \<Longrightarrow>
   set_msgtype (Some m) (Some t) =
     (if upto_nul t \<in> (\<lambda>l. upto_nul (lit l)) ` set msgtypes
      then Some (0, Some (put_at MSGTYPE_OFFSET (take MSGTYPE_SIZE t) m))
      else Some (ERR_MSGTYPE, Some m))"
  by (simp add: set_msgtype_def all_differ_iff mem_read_in get_at_def is_msg_def
      type_f.put_defined flip: msgtypes_def)

lemma cstr_no_nul: "\<forall>l \<in> set msgtypes. 0 \<notin> set (cstr l)"
  unfolding msgtypes_def by (simp add: cstr_def msgtype_defs)

lemma set_msgtype_known:
  assumes "is_msg m" "l \<in> set msgtypes" "MSGTYPE_SIZE \<le> length (lit l @ rest)"
  shows "set_msgtype (Some m) (Some (lit l @ rest)) =
           Some (0, Some (put_at MSGTYPE_OFFSET (take MSGTYPE_SIZE (lit l @ rest)) m))"
proof -
  have "upto_nul (lit l @ rest) = upto_nul (lit l)"
    by (simp add: upto_nul_append)
  then show ?thesis
    using assms by (subst set_msgtype_msg) auto
qed

section \<open>The getters on a message buffer\<close>

lemma get_string_msg:
  "off + len \<le> length m \<Longrightarrow> len < length d \<Longrightarrow>
   get_string off len (Some m) (Some d) =
     Some (0, Some (get_at off len m @ [0] @ drop (Suc len) d))"
  by (simp add: get_string_def mem_read_in mem_write_in)
     (simp add: put_at_def)

lemma get_strings_msg:
  assumes "is_msg m"
  shows "CIRCUIT_ID_SIZE < length d \<Longrightarrow>
           get_circuitid (Some m) (Some d) =
             Some (0, Some (v_cid (view m) @ [0] @ drop (Suc CIRCUIT_ID_SIZE) d))"
    and "MSGTYPE_SIZE < length d \<Longrightarrow>
           get_msgtype (Some m) (Some d) =
             Some (0, Some (v_type (view m) @ [0] @ drop (Suc MSGTYPE_SIZE) d))"
    and "AFUNAME_SIZE < length d \<Longrightarrow>
           get_afu_name (Some m) (Some d) =
             Some (0, Some (v_afu (view m) @ [0] @ drop (Suc AFUNAME_SIZE) d))"
  using assms
  by (simp_all add: get_circuitid_def get_msgtype_def get_afu_name_def view_def is_msg_def
      get_string_msg layout_defs)

lemma get_ints_msg:
  assumes "is_msg m"
  shows "get_size (Some m) = Some (v_size (view m))"
    and "get_ea (Some m) = Some (v_ea (view m))"
    and "get_no_hotplug (Some m) = Some (v_nohp (view m))"
    and "get_status (Some m) = Some (v_status (view m))"
    and "get_iports (Some m) = unmarshal_iports (v_ports (view m))"
  using assms
  by (simp_all add: get_size_def get_ea_def get_no_hotplug_def get_status_def get_iports_def
      view_def is_msg_def size_f.get_defined ea_f.get_defined nohp_f.get_defined
      status_f.get_defined ports_f.get_defined)

lemma view_lengths:
  "is_msg m \<Longrightarrow> length (v_cid (view m)) = CIRCUIT_ID_SIZE"
  "is_msg m \<Longrightarrow> length (v_type (view m)) = MSGTYPE_SIZE"
  "is_msg m \<Longrightarrow> length (v_afu (view m)) = AFUNAME_SIZE"
  by (simp_all add: view_def is_msg_def layout_defs)

text \<open>A message is determined by its fields: the eight of them tile the buffer.\<close>

definition view_ok :: "msg_view \<Rightarrow> bool" where
  "view_ok v \<longleftrightarrow> length (v_cid v) = CIRCUIT_ID_SIZE \<and> length (v_type v) = MSGTYPE_SIZE \<and>
     length (v_afu v) = AFUNAME_SIZE"

lemma get_at_split: "get_at off (a + b) m = get_at off a m @ get_at (off + a) b m"
  by (simp add: get_at_def take_add drop_drop add.commute)

lemma unview_view: "is_msg m \<Longrightarrow> unview (view m) = m"
proof -
  assume m: "is_msg m"
  have "get_at 0 (36 + (16 + (256 + (1 + (8 + (8 + (4 + 4))))))) m = m"
    using m by (simp add: get_at_def is_msg_def layout_defs)
  then have "m = get_at 0 36 m @ get_at 36 16 m @ get_at 52 256 m @ get_at 308 1 m @
      get_at 309 8 m @ get_at 317 8 m @ get_at 325 4 m @ get_at 329 4 m"
    unfolding get_at_split by simp
  moreover have "[of_le (get_at 308 1 m) :: byte] = get_at 308 1 m"
    using m by (simp add: get_at_def is_msg_def layout_defs take_Suc_conv_app_nth)
  moreover have "le_bytes 8 (of_le (get_at 309 8 m) :: u64) = get_at 309 8 m"
      "le_bytes 8 (of_le (get_at 317 8 m) :: u64) = get_at 317 8 m"
      "le_bytes 4 (of_le (get_at 325 4 m) :: cint) = get_at 325 4 m"
      "le_bytes 4 (of_le (get_at 329 4 m) :: cint) = get_at 329 4 m"
    using m by (simp_all add: le_bytes_of_le is_msg_def layout_defs)
  ultimately show ?thesis
    by (simp add: unview_def view_def layout_defs)
qed

lemma view_unview: "view_ok v \<Longrightarrow> is_msg (unview v) \<and> view (unview v) = v"
  by (simp add: is_msg_def unview_def view_def view_ok_def layout_defs get_at_def)

section \<open>Message types as an enumeration\<close>

datatype mtype = Compute_Attach | Compute_Detach | Memory_Attach | Memory_Detach
  | Cresponse_Attach | Cresponse_Detach | Mresponse_Attach | Mresponse_Detach

fun mtype_name :: "mtype \<Rightarrow> string" where
  "mtype_name Compute_Attach = COMPUTE_ATTACH"
| "mtype_name Compute_Detach = COMPUTE_DETACH"
| "mtype_name Memory_Attach = MEMORY_ATTACH"
| "mtype_name Memory_Detach = MEMORY_DETACH"
| "mtype_name Cresponse_Attach = CRESPONSE_ATTACH"
| "mtype_name Cresponse_Detach = CRESPONSE_DETACH"
| "mtype_name Mresponse_Attach = MRESPONSE_ATTACH"
| "mtype_name Mresponse_Detach = MRESPONSE_DETACH"

instantiation mtype :: enum
begin

definition enum_mtype :: "mtype list" where
  "enum_mtype = [Compute_Attach, Compute_Detach, Memory_Attach, Memory_Detach,
     Cresponse_Attach, Cresponse_Detach, Mresponse_Attach, Mresponse_Detach]"

definition enum_all_mtype :: "(mtype \<Rightarrow> bool) \<Rightarrow> bool" where
  "enum_all_mtype P \<longleftrightarrow> list_all P enum_class.enum"

definition enum_ex_mtype :: "(mtype \<Rightarrow> bool) \<Rightarrow> bool" where
  "enum_ex_mtype P \<longleftrightarrow> list_ex P enum_class.enum"

instance
proof
  show univ: "(UNIV :: mtype set) = set enum_class.enum"
    by (auto simp: enum_mtype_def intro: mtype.exhaust)
  show "distinct (enum_class.enum :: mtype list)"
    by (simp add: enum_mtype_def)
  show "enum_class.enum_all P = Ball UNIV P" for P :: "mtype \<Rightarrow> bool"
    unfolding univ by (simp add: enum_all_mtype_def list_all_iff)
  show "enum_class.enum_ex P = Bex UNIV P" for P :: "mtype \<Rightarrow> bool"
    unfolding univ by (simp add: enum_ex_mtype_def list_ex_iff)
qed

end

lemma msgtypes_names: "msgtypes = map mtype_name enum_class.enum"
  by (simp add: msgtypes_def enum_mtype_def)

lemma mtype_name_in: "mtype_name k \<in> set msgtypes"
  by (cases k) (simp_all add: msgtypes_def)

text \<open>The eight names are different C strings of 13 to 16 characters.\<close>

lemma mtype_name_facts:
  "0 \<notin> set (cstr (mtype_name k)) \<and> 13 \<le> length (cstr (mtype_name k)) \<and>
   length (cstr (mtype_name k)) \<le> MSGTYPE_SIZE"
  by (cases k) (simp_all add: cstr_def msgtype_defs layout_defs)

lemma mtype_name_inj: "cstr (mtype_name j) = cstr (mtype_name k) \<Longrightarrow> j = k"
  by (cases j; cases k; simp add: cstr_def msgtype_defs)

lemma upto_nul_lit: "0 \<notin> set (cstr s) \<Longrightarrow> upto_nul (lit s) = cstr s"
  by (simp add: lit_def upto_nul_append)

lemma msgtype_strings: "(\<lambda>l. upto_nul (lit l)) ` set msgtypes = cstr ` set msgtypes"
  using cstr_no_nul by (auto simp: upto_nul_lit intro!: image_eqI)

section \<open>Sequences of setters\<close>

datatype msg_op =
    Set_circuitid bytes | Set_msgtype bytes | Set_afu bytes | Set_iports iport_list
  | Set_size u64 | Set_ea u64 | Set_no_hotplug cint | Set_status cint

text \<open>One call on a message; the two setters without a status count as 0.\<close>

fun run_op :: "msg_op \<Rightarrow> cptr \<Rightarrow> (cint \<times> cptr) option" where
  "run_op (Set_circuitid c) m = set_circuitid m (Some c)"
| "run_op (Set_msgtype t) m = set_msgtype m (Some t)"
| "run_op (Set_afu a) m = set_afu m (Some a)"
| "run_op (Set_iports p) m = map_option (Pair 0) (set_iports m p)"
| "run_op (Set_size s) m = set_size m s"
| "run_op (Set_ea e) m = set_ea m e"
| "run_op (Set_no_hotplug h) m = set_no_hotplug m h"
| "run_op (Set_status e) m = map_option (Pair 0) (set_status m e)"

fun run_ops :: "msg_op list \<Rightarrow> cptr \<Rightarrow> (cint list \<times> cptr) option" where
  "run_ops [] m = Some ([], m)"
| "run_ops (p # ps) m =
     do { (rc, m1) \<leftarrow> run_op p m; (rcs, m2) \<leftarrow> run_ops ps m1; Some (rc # rcs, m2) }"

text \<open>
  What each call promises, on the fields alone.  \<open>readable\<close> says that the memory the call
  copies from is there; the ports must have a mask.
\<close>

fun op_readable :: "msg_op \<Rightarrow> bool" where
  "op_readable (Set_circuitid c) \<longleftrightarrow> CIRCUIT_ID_SIZE \<le> length c"
| "op_readable (Set_msgtype t) \<longleftrightarrow> MSGTYPE_SIZE \<le> length t \<and> 0 \<in> set t"
| "op_readable (Set_afu a) \<longleftrightarrow> AFUNAME_SIZE \<le> length a \<and> 0 \<in> set a"
| "op_readable (Set_iports p) \<longleftrightarrow> marshal_iports p \<noteq> None"
| "op_readable _ \<longleftrightarrow> True"

fun spec_op :: "msg_op \<Rightarrow> msg_view \<Rightarrow> cint \<times> msg_view" where
  "spec_op (Set_circuitid c) v = (0, v\<lparr>v_cid := take CIRCUIT_ID_SIZE c\<rparr>)"
| "spec_op (Set_msgtype t) v =
     (if upto_nul t \<in> cstr ` set msgtypes then (0, v\<lparr>v_type := take MSGTYPE_SIZE t\<rparr>)
      else (ERR_MSGTYPE, v))"
| "spec_op (Set_afu a) v =
     (if hd a = 0 then (ERR_EMPTY_PARAM, v) else (0, v\<lparr>v_afu := take AFUNAME_SIZE a\<rparr>))"
| "spec_op (Set_iports p) v = (0, v\<lparr>v_ports := the (marshal_iports p)\<rparr>)"
| "spec_op (Set_size s) v =
     (if s = 0 then (ERR_INT_PARAM, v)
      else if s mod MEMBLOCK_SIZE \<noteq> 0 then (ERR_MEMBLOCK_SIZE, v)
      else (0, v\<lparr>v_size := s\<rparr>))"
| "spec_op (Set_ea e) v = (if e = 0 then (ERR_INT_PARAM, v) else (0, v\<lparr>v_ea := e\<rparr>))"
| "spec_op (Set_no_hotplug h) v =
     (if h = 0 \<or> h = 1 then (0, v\<lparr>v_nohp := h\<rparr>) else (ERR_INT_PARAM, v))"
| "spec_op (Set_status e) v = (0, v\<lparr>v_status := e\<rparr>)"

fun spec_ops :: "msg_op list \<Rightarrow> msg_view \<Rightarrow> cint list \<times> msg_view" where
  "spec_ops [] v = ([], v)"
| "spec_ops (p # ps) v =
     (let (rc, v1) = spec_op p v; (rcs, v2) = spec_ops ps v1 in (rc # rcs, v2))"

lemma run_op_refines:
  "is_msg m \<Longrightarrow> op_readable p \<Longrightarrow>
   \<exists>m'. run_op p (Some m) = Some (fst (spec_op p (view m)), Some m') \<and> is_msg m' \<and>
     view m' = snd (spec_op p (view m))"
proof (cases p)
  case (Set_msgtype t)
  assume "is_msg m" "op_readable p"
  with Set_msgtype show ?thesis
    by (auto simp: set_msgtype_msg msgtype_strings view_put_type is_msg_puts)
qed (auto simp: set_circuitid_msg set_afu_msg set_iports_msg set_size_msg set_ea_msg
       set_no_hotplug_msg set_status_msg view_put_cid view_put_afu view_put_ports view_put_size
       view_put_ea view_put_nohp view_put_status is_msg_puts)

lemma run_ops_refines:
  assumes "is_msg m" "\<forall>p \<in> set ps. op_readable p"
  shows "\<exists>m'. run_ops ps (Some m) = Some (fst (spec_ops ps (view m)), Some m') \<and> is_msg m' \<and>
     view m' = snd (spec_ops ps (view m))"
  using assms
proof (induction ps arbitrary: m)
  case Nil
  then show ?case by simp
next
  case (Cons p ps)
  obtain m1 where m1: "run_op p (Some m) = Some (fst (spec_op p (view m)), Some m1)"
      "is_msg m1" "view m1 = snd (spec_op p (view m))"
    using run_op_refines [of m p] Cons.prems by auto
  then show ?case
    using Cons.IH [of m1] Cons.prems by (auto simp: case_prod_beta)
qed

section \<open>Properties\<close>

text \<open>
  C15: any sequence of setters on a message does to the bytes what the field updates of the
  specification do to the abstract message: each call changes its own field and no other,
  rejects exactly the values it should, and returns the specified codes.
\<close>

theorem setters_refine:
  assumes "is_msg m" "\<forall>p \<in> set ps. op_readable p"
  shows "\<exists>m'. run_ops ps (Some m) = Some (fst (spec_ops ps (view m)), Some m') \<and> is_msg m' \<and>
     view m' = snd (spec_ops ps (view m))"
  using assms by (rule run_ops_refines)

lemma setters_refine_witness:
  "\<exists>m'. run_ops [Set_size 0x10000000, Set_ea 0, Set_status 100] (Some (replicate 333 0)) =
     Some ([0, ERR_INT_PARAM, 0], Some m') \<and> v_size (view m') = 0x10000000 \<and>
     v_status (view m') = 100"
  using setters_refine [of "replicate 333 0" "[Set_size 0x10000000, Set_ea 0, Set_status 100]"]
  by (auto simp: is_msg_def layout_defs MEMBLOCK_SIZE_def)

text \<open>
  the getters recover a message completely: two messages that no getter tells apart
  are the same 333 bytes, so no part of the wire format is unreachable.
\<close>

theorem getters_determine:
  assumes "is_msg m" "is_msg m'"
    and "get_circuitid (Some m) (Some (replicate 37 0)) = get_circuitid (Some m') (Some (replicate 37 0))"
    and "get_msgtype (Some m) (Some (replicate 17 0)) = get_msgtype (Some m') (Some (replicate 17 0))"
    and "get_afu_name (Some m) (Some (replicate 257 0)) = get_afu_name (Some m') (Some (replicate 257 0))"
    and "get_iports (Some m) = get_iports (Some m')" "get_size (Some m) = get_size (Some m')"
    and "get_ea (Some m) = get_ea (Some m')" "get_no_hotplug (Some m) = get_no_hotplug (Some m')"
    and "get_status (Some m) = get_status (Some m')"
  shows "m = m'"
proof -
  have ports: "v_ports (view m) = v_ports (view m')"
    using assms(6) port_mask.decode_total port_mask.decode_inj
    by (simp add: get_ints_msg assms(1,2)) metis
  have "view m = view m'"
    using assms(3-5,7-10) ports
    by (intro msg_view.equality)
       (simp_all add: get_strings_msg get_ints_msg assms(1,2) layout_defs)
  then show ?thesis using unview_view [of m] unview_view [of m'] assms(1,2) by metis
qed

lemma getters_determine_witness: "replicate 333 (0 :: byte) = replicate 333 0"
  by (rule getters_determine) (simp_all add: is_msg_def layout_defs)

text \<open>
  \<^verbatim>\<open>set_msgtype\<close> stores a known type so that \<^verbatim>\<open>get_msgtype\<close> gives back exactly that
  C string, whatever follows the string in memory; the sixteen-character types fill the
  field and rely on the terminator \<^verbatim>\<open>get_msgtype\<close> adds.
\<close>

theorem msgtype_roundtrip:
  assumes "is_msg m" "MSGTYPE_SIZE \<le> length (lit (mtype_name k) @ rest)"
  shows "\<exists>m' d. set_msgtype (Some m) (Some (lit (mtype_name k) @ rest)) = Some (0, Some m') \<and>
     is_msg m' \<and> get_msgtype (Some m') (Some (replicate (Suc MSGTYPE_SIZE) 0)) = Some (0, Some d) \<and>
     upto_nul d = cstr (mtype_name k)"
proof -
  let ?s = "cstr (mtype_name k)"
  let ?t = "take MSGTYPE_SIZE (lit (mtype_name k) @ rest)"
  have len: "length ?t = MSGTYPE_SIZE" using assms(2) by simp
  have "upto_nul (?t @ [0]) = ?s"
  proof (cases "length ?s = MSGTYPE_SIZE")
    case True
    then have "?t = ?s" by (simp add: lit_def)
    then show ?thesis using mtype_name_facts [of k] by (simp add: upto_nul_append)
  next
    case False
    then have "length ?s < MSGTYPE_SIZE" using mtype_name_facts [of k] by auto
    then obtain j where "?t = ?s @ 0 # take j rest"
      by (auto simp: lit_def take_Cons' gr0_conv_Suc less_imp_Suc_add dest!: less_imp_Suc_add)
    then show ?thesis using mtype_name_facts [of k] by (simp add: upto_nul_append)
  qed
  then show ?thesis
    using assms mtype_name_in len
    by (simp add: set_msgtype_known is_msg_puts get_strings_msg view_put_type)
qed

lemma msgtype_roundtrip_witness:
  "\<exists>m' d. set_msgtype (Some (replicate 333 0)) (Some (lit MEMORY_ATTACH @ [7, 7, 7])) = Some (0, Some m') \<and>
     get_msgtype (Some m') (Some (replicate (Suc MSGTYPE_SIZE) 0)) = Some (0, Some d) \<and>
     upto_nul d = cstr MEMORY_ATTACH"
  using msgtype_roundtrip [of "replicate 333 0" Memory_Attach "[7, 7, 7]"]
  by (auto simp: is_msg_def layout_defs lit_def cstr_def msgtype_defs)

text \<open>
  \<^verbatim>\<open>set_msgtype\<close> reads sixteen bytes of its argument, so called with a bare string
  literal it runs off the literal for the four requests, and for them only.
\<close>

theorem set_msgtype_overread:
  assumes "is_msg m"
  shows "set_msgtype (Some m) (Some (lit (mtype_name k))) = None \<longleftrightarrow>
    k \<in> {Compute_Attach, Compute_Detach, Memory_Attach, Memory_Detach}"
proof -
  have "all_differ (lit (mtype_name k)) msgtypes = Some False"
    using mtype_name_in by (simp add: all_differ_iff)
  then have "set_msgtype (Some m) (Some (lit (mtype_name k))) =
      do { src \<leftarrow> mem_read 0 MSGTYPE_SIZE (lit (mtype_name k));
           m' \<leftarrow> mem_write MSGTYPE_OFFSET src m; Some (0, Some m') }"
    by (simp add: set_msgtype_def flip: msgtypes_def)
  then show ?thesis
    using assms
    by (cases k) (simp_all add: mem_read_def mem_write_def lit_def cstr_def msgtype_defs layout_defs is_msg_def)
qed

lemma set_msgtype_overread_witness:
  "set_msgtype (Some (replicate 333 0)) (Some (lit MEMORY_ATTACH)) = None"
  using set_msgtype_overread [of "replicate 333 0" Memory_Attach]
  by (simp add: is_msg_def layout_defs)

end
