(* ===== verification/TFProto.thy ===== *)
theory TFProto imports TFFlow TFMsg begin

text \<open>
  \<^verbatim>\<open>libthymesisflow/src/proto.c\<close>, lines 233 to 507: the four request handlers of the
  agent, the marshalling of requests and the unmarshalling of responses.  A message comes
  from \<^verbatim>\<open>malloc\<close>, so the fields nobody sets are junk; the status of most setters is only
  logged.
\<close>

section \<open>Buffers\<close>

definition new_circuitid :: "env \<Rightarrow> world \<Rightarrow> cptr \<times> world" where
  "new_circuitid env w = malloc_buf env (CIRCUIT_ID_SIZE + 1) w"

definition new_afu_name :: "env \<Rightarrow> world \<Rightarrow> cptr \<times> world" where
  "new_afu_name env w = malloc_buf env (AFUNAME_SIZE + 1) w"

definition new_msgtype :: "env \<Rightarrow> world \<Rightarrow> cptr \<times> world" where
  "new_msgtype env w = malloc_buf env (MSGTYPE_SIZE + 1) w"

definition new_proto_msg :: "env \<Rightarrow> world \<Rightarrow> cptr \<times> world" where
  "new_proto_msg env w = malloc_buf env MSG_SIZE w"

section \<open>Handlers\<close>

definition set_unknown_mode_response :: "env \<Rightarrow> cptr \<Rightarrow> world \<Rightarrow> (cptr \<times> world) option" where
  "set_unknown_mode_response env msg w =
     (let (response_msg, w1) = malloc_buf env MSG_SIZE w;
          (circuit_id, w2) = malloc_buf env (CIRCUIT_ID_SIZE + 1) w1 in
      do {
        (_, circuit_id) \<leftarrow> get_circuitid msg circuit_id;
        (_, response_msg) \<leftarrow> set_circuitid response_msg circuit_id;
        let (afu_nm, w3) = new_afu_name env w2;
        (_, afu_nm) \<leftarrow> get_afu_name msg afu_nm;
        (_, response_msg) \<leftarrow> set_afu response_msg afu_nm;
        Some (response_msg, free_buf afu_nm (free_buf circuit_id w3)) })"

definition proto_attach_memory :: "env \<Rightarrow> cptr \<Rightarrow> world \<Rightarrow> (cptr \<times> world) option" where
  "proto_attach_memory env msg w =
     (let (circuit_id, w1) = new_circuitid env w in
      do {
        (_, circuit_id) \<leftarrow> get_circuitid msg circuit_id;
        let (afu_nm, w2) = new_afu_name env w1;
        (_, afu_nm) \<leftarrow> get_afu_name msg afu_nm;
        ports \<leftarrow> get_iports msg;
        sz \<leftarrow> get_size msg;
        let uninit = junk_word env (trace w2) 0;
        ((res, effective_address), w3) \<leftarrow>
          attach_memory env circuit_id afu_nm ports sz uninit w2;
        let (response_msg, w4) = malloc_buf env MSG_SIZE w3;
        (_, response_msg) \<leftarrow> set_circuitid response_msg circuit_id;
        (_, response_msg) \<leftarrow> set_msgtype response_msg (literal env MRESPONSE_ATTACH);
        (_, response_msg) \<leftarrow> set_afu response_msg afu_nm;
        response_msg \<leftarrow> set_iports response_msg ports;
        (_, response_msg) \<leftarrow> set_size response_msg sz;
        (_, response_msg) \<leftarrow> set_ea response_msg effective_address;
        response_msg \<leftarrow> set_status response_msg res;
        Some (response_msg, free_buf afu_nm (free_buf circuit_id w4)) })"

definition proto_attach_compute :: "env \<Rightarrow> cptr \<Rightarrow> world \<Rightarrow> (cptr \<times> world) option" where
  "proto_attach_compute env msg w =
     (let (circuit_id, w1) = new_circuitid env w in
      do {
        (_, circuit_id) \<leftarrow> get_circuitid msg circuit_id;
        let (afu_nm, w2) = new_afu_name env w1;
        (_, afu_nm) \<leftarrow> get_afu_name msg afu_nm;
        ports \<leftarrow> get_iports msg;
        sz \<leftarrow> get_size msg;
        eaddr \<leftarrow> get_ea msg;
        nohp \<leftarrow> get_no_hotplug msg;
        (err, w3) \<leftarrow> attach_compute env circuit_id afu_nm ports eaddr sz nohp w2;
        let (response_msg, w4) = malloc_buf env MSG_SIZE w3;
        (_, response_msg) \<leftarrow> set_circuitid response_msg circuit_id;
        (_, response_msg) \<leftarrow> set_msgtype response_msg (literal env CRESPONSE_ATTACH);
        (_, response_msg) \<leftarrow> set_size response_msg sz;
        (_, response_msg) \<leftarrow> set_afu response_msg afu_nm;
        response_msg \<leftarrow> set_iports response_msg ports;
        response_msg \<leftarrow> set_status response_msg err;
        Some (response_msg, free_buf afu_nm (free_buf circuit_id w4)) })"

definition proto_detach_compute :: "env \<Rightarrow> cptr \<Rightarrow> world \<Rightarrow> (cptr \<times> world) option" where
  "proto_detach_compute env msg w =
     (let (response_msg, w1) = malloc_buf env MSG_SIZE w;
          (circuit_id, w2) = new_circuitid env w1 in
      do {
        (_, circuit_id) \<leftarrow> get_circuitid msg circuit_id;
        (_, response_msg) \<leftarrow> set_circuitid response_msg circuit_id;
        (err, w3) \<leftarrow> detach_compute env circuit_id w2;
        (_, response_msg) \<leftarrow> set_msgtype response_msg (literal env CRESPONSE_DETACH);
        response_msg \<leftarrow> set_status response_msg err;
        Some (response_msg, free_buf circuit_id w3) })"

definition proto_detach_memory :: "env \<Rightarrow> cptr \<Rightarrow> world \<Rightarrow> (cptr \<times> world) option" where
  "proto_detach_memory env msg w =
     (let (response_msg, w1) = malloc_buf env MSG_SIZE w;
          (circuit_id, w2) = new_circuitid env w1 in
      do {
        (_, circuit_id) \<leftarrow> get_circuitid msg circuit_id;
        (_, response_msg) \<leftarrow> set_circuitid response_msg circuit_id;
        (_, response_msg) \<leftarrow> set_msgtype response_msg (literal env MRESPONSE_DETACH);
        (err, w3) \<leftarrow> detach_memory env circuit_id w2;
        response_msg \<leftarrow> set_status response_msg err;
        Some (response_msg, free_buf circuit_id w3) })"

section \<open>Requests\<close>

definition marshal_detach_memory_request :: "env \<Rightarrow> cptr \<Rightarrow> world \<Rightarrow> (cptr \<times> world) option" where
  "marshal_detach_memory_request env cid w =
     (let (request_msg, w1) = malloc_buf env MSG_SIZE w in
      do {
        (_, request_msg) \<leftarrow> set_circuitid request_msg cid;
        (_, request_msg) \<leftarrow> set_msgtype request_msg (literal env MEMORY_DETACH);
        Some (request_msg, w1) })"

definition marshal_detach_compute_request :: "env \<Rightarrow> cptr \<Rightarrow> world \<Rightarrow> (cptr \<times> world) option" where
  "marshal_detach_compute_request env cid w =
     (let (request_msg, w1) = malloc_buf env MSG_SIZE w in
      do {
        (_, request_msg) \<leftarrow> set_circuitid request_msg cid;
        (_, request_msg) \<leftarrow> set_msgtype request_msg (literal env COMPUTE_DETACH);
        Some (request_msg, w1) })"

definition marshal_attach_memory_request ::
    "env \<Rightarrow> cptr \<Rightarrow> cptr \<Rightarrow> iport_list \<Rightarrow> u64 \<Rightarrow> world \<Rightarrow> (cptr \<times> world) option" where
  "marshal_attach_memory_request env cid afu_nm ports memsize w =
     (let (request_msg, w1) = malloc_buf env MSG_SIZE w in
      do {
        (_, request_msg) \<leftarrow> set_circuitid request_msg cid;
        (_, request_msg) \<leftarrow> set_msgtype request_msg (literal env MEMORY_ATTACH);
        (_, request_msg) \<leftarrow> set_afu request_msg afu_nm;
        request_msg \<leftarrow> set_iports request_msg ports;
        (_, request_msg) \<leftarrow> set_size request_msg memsize;
        Some (request_msg, w1) })"

definition marshal_attach_compute_request ::
    "env \<Rightarrow> cptr \<Rightarrow> cptr \<Rightarrow> iport_list \<Rightarrow> u64 \<Rightarrow> u64 \<Rightarrow> cint \<Rightarrow> world \<Rightarrow> (cptr \<times> world) option" where
  "marshal_attach_compute_request env cid afu_nm ports memsize eaddr nohp w =
     (let (request_msg, w1) = malloc_buf env MSG_SIZE w in
      do {
        (_, request_msg) \<leftarrow> set_circuitid request_msg cid;
        (_, request_msg) \<leftarrow> set_msgtype request_msg (literal env COMPUTE_ATTACH);
        (_, request_msg) \<leftarrow> set_afu request_msg afu_nm;
        request_msg \<leftarrow> set_iports request_msg ports;
        (_, request_msg) \<leftarrow> set_size request_msg memsize;
        (_, request_msg) \<leftarrow> set_ea request_msg eaddr;
        (_, request_msg) \<leftarrow> set_no_hotplug request_msg nohp;
        Some (request_msg, w1) })"

section \<open>Responses\<close>

record pmessage =
  p_circuitid :: bytes
  p_msgtype :: bytes
  p_afu :: bytes
  p_status :: cint
  p_size :: u64
  p_ea :: u64
  p_no_hotplug :: cint

text \<open>Every field of \<^verbatim>\<open>*rsp\<close> is assigned, so its old content plays no part.\<close>

definition unmarshal_response :: "env \<Rightarrow> cptr \<Rightarrow> world \<Rightarrow> (pmessage \<times> world) option" where
  "unmarshal_response env msg w =
     (let (circuit_id, w1) = new_circuitid env w in
      do {
        (_, circuit_id) \<leftarrow> get_circuitid msg circuit_id;
        c \<leftarrow> circuit_id;
        r_circuitid \<leftarrow> strncpy_src c (CIRCUIT_ID_SIZE + 1);
        let (afu_nm, w2) = new_afu_name env w1;
        (_, afu_nm) \<leftarrow> get_afu_name msg afu_nm;
        n \<leftarrow> afu_nm;
        r_afu \<leftarrow> strncpy_src n (AFUNAME_SIZE + 1);
        let (msgtype, w3) = new_msgtype env w2;
        (_, msgtype) \<leftarrow> get_msgtype msg msgtype;
        t \<leftarrow> msgtype;
        r_msgtype \<leftarrow> strncpy_src t (MSGTYPE_SIZE + 1);
        sz \<leftarrow> get_size msg;
        eaddr \<leftarrow> get_ea msg;
        status \<leftarrow> get_status msg;
        nohp \<leftarrow> get_no_hotplug msg;
        Some (\<lparr> p_circuitid = r_circuitid, p_msgtype = r_msgtype, p_afu = r_afu,
                p_status = status, p_size = sz, p_ea = eaddr, p_no_hotplug = nohp \<rparr>,
              free_buf circuit_id (free_buf afu_nm (free_buf msgtype w3))) })"

section \<open>Allocation and fresh buffers\<close>

text \<open>The world after successful \<^verbatim>\<open>malloc\<close>s of the sizes \<open>ns\<close>.\<close>

definition after_mallocs :: "nat list \<Rightarrow> world \<Rightarrow> world" where
  "after_mallocs ns w = w\<lparr>trace := trace w @ map Malloc ns, nbufs := nbufs w + int (length ns)\<rparr>"

lemma after_mallocs_simps [simp]:
  "heap (after_mallocs ns w) = heap w" "clist (after_mallocs ns w) = clist w"
  "live (after_mallocs ns w) = live w" "nbufs (after_mallocs ns w) = nbufs w + int (length ns)"
  "trace (after_mallocs ns w) = trace w @ map Malloc ns"
  by (simp_all add: after_mallocs_def)

lemma after_mallocs_registry [simp]:
  "registry (after_mallocs ns w) = registry w" "reg_inv (after_mallocs ns w) = reg_inv w"
  by (rule registry_frame, simp, simp, rule same_links_inv [OF same_links_refl], simp, simp)

lemma malloc_after:
  "malloc_ok env \<Longrightarrow> malloc_buf env n w =
     (Some (map (junk env (trace w)) [0..<n]), after_mallocs [n] w)"
  by (simp add: malloc_buf_ok after_mallocs_def)

lemma after_mallocs_append [simp]:
  "after_mallocs ns (after_mallocs ms w) = after_mallocs (ms @ ns) w"
  by (simp add: after_mallocs_def)

definition raw_msg :: "env \<Rightarrow> call list \<Rightarrow> bytes" where
  "raw_msg env tr = map (junk env tr) [0..<MSG_SIZE]"

lemma is_msg_raw [simp]: "is_msg (raw_msg env tr)"
  by (simp add: is_msg_def raw_msg_def)

lemma get_fresh:
  assumes "is_msg m"
  shows "length d = Suc CIRCUIT_ID_SIZE \<Longrightarrow>
           get_circuitid (Some m) (Some d) = Some (0, Some (v_cid (view m) @ [0]))"
    and "length d = Suc MSGTYPE_SIZE \<Longrightarrow>
           get_msgtype (Some m) (Some d) = Some (0, Some (v_type (view m) @ [0]))"
    and "length d = Suc AFUNAME_SIZE \<Longrightarrow>
           get_afu_name (Some m) (Some d) = Some (0, Some (v_afu (view m) @ [0]))"
  using assms by (simp_all add: get_strings_msg)

lemma run_ops_step:
  "run_ops (p # ps) M = Some (rcs, R) \<Longrightarrow>
   \<exists>rc M1 rcs'. run_op p M = Some (rc, M1) \<and> run_ops ps M1 = Some (rcs', R)"
  by auto

lemma run_ops_fresh:
  assumes "\<forall>p \<in> set ps. op_readable p"
  obtains rcs r where "run_ops ps (Some (raw_msg env tr)) = Some (rcs, Some r)" "is_msg r"
    "view r = snd (spec_ops ps (view (raw_msg env tr)))"
  using run_ops_refines [OF is_msg_raw assms] by blast

lemmas alloc_simps = malloc_after new_circuitid_def new_afu_name_def new_msgtype_def
  new_proto_msg_def get_fresh get_ints_msg

text \<open>A literal message type stores its sixteen bytes when they can be read.\<close>

definition rodata_ok :: "env \<Rightarrow> bool" where
  "rodata_ok env \<longleftrightarrow> (\<forall>l \<in> set msgtypes. MSGTYPE_SIZE \<le> length (lit l @ rodata env l))"

definition type_field :: "env \<Rightarrow> string \<Rightarrow> bytes" where
  "type_field env l = take MSGTYPE_SIZE (lit l @ rodata env l)"

lemma response_type:
  "l \<in> {CRESPONSE_ATTACH, CRESPONSE_DETACH, MRESPONSE_ATTACH, MRESPONSE_DETACH} \<Longrightarrow>
   type_field env l = cstr l \<and> MSGTYPE_SIZE \<le> length (lit l)"
  by (auto simp: type_field_def lit_def cstr_def msgtype_defs layout_defs)

lemma type_known: "l \<in> set msgtypes \<Longrightarrow> upto_nul (lit l @ bs) \<in> cstr ` set msgtypes"
  using cstr_no_nul by (auto simp: upto_nul_append upto_nul_lit)

lemma response_known:
  "CRESPONSE_ATTACH \<in> set msgtypes" "CRESPONSE_DETACH \<in> set msgtypes"
  "MRESPONSE_ATTACH \<in> set msgtypes" "MRESPONSE_DETACH \<in> set msgtypes"
  "COMPUTE_ATTACH \<in> set msgtypes" "COMPUTE_DETACH \<in> set msgtypes"
  "MEMORY_ATTACH \<in> set msgtypes" "MEMORY_DETACH \<in> set msgtypes"
  by (simp_all add: msgtypes_def)

section \<open>The detach handlers\<close>

lemma proto_detach_memory_spec:
  assumes ok: "malloc_ok env" "is_msg m"
    and op: "detach_memory env (Some (v_cid (view m) @ [0]))
      (after_mallocs [MSG_SIZE, CIRCUIT_ID_SIZE + 1] w) = Some (err, w3)"
  shows "\<exists>r. proto_detach_memory env (Some m) w = Some (Some r, w3\<lparr>nbufs := nbufs w3 - 1\<rparr>) \<and>
     is_msg r \<and> v_cid (view r) = v_cid (view m) \<and> v_type (view r) = cstr MRESPONSE_DETACH \<and>
     v_status (view r) = err"
proof -
  let ?ops = "[Set_circuitid (v_cid (view m) @ [0]),
    Set_msgtype (lit MRESPONSE_DETACH @ rodata env MRESPONSE_DETACH), Set_status err]"
  have len: "length (v_cid (view m)) = CIRCUIT_ID_SIZE" using ok(2) by (rule view_lengths)
  have t: "type_field env MRESPONSE_DETACH = cstr MRESPONSE_DETACH"
      "MSGTYPE_SIZE \<le> length (lit MRESPONSE_DETACH)" using response_type [of MRESPONSE_DETACH] by simp_all
  have "\<forall>p \<in> set ?ops. op_readable p" using len t(2) by simp
  from run_ops_fresh [OF this] obtain rcs r where
    r: "run_ops ?ops (Some (raw_msg env (trace w))) = Some (rcs, Some r)"
       "is_msg r" "view r = snd (spec_ops ?ops (view (raw_msg env (trace w))))" by blast
  have "proto_detach_memory env (Some m) w = Some (Some r, w3\<lparr>nbufs := nbufs w3 - 1\<rparr>)"
    using r(1) op ok
    by (auto simp: proto_detach_memory_def alloc_simps literal_def Let_def simp flip: raw_msg_def
        dest!: run_ops_step)
  then show ?thesis
    using r(2,3) len t(1) type_known [OF response_known(4)]
    by (auto simp: type_field_def Let_def)
qed

lemma proto_detach_compute_spec:
  assumes ok: "malloc_ok env" "is_msg m"
    and op: "detach_compute env (Some (v_cid (view m) @ [0]))
      (after_mallocs [MSG_SIZE, CIRCUIT_ID_SIZE + 1] w) = Some (err, w3)"
  shows "\<exists>r. proto_detach_compute env (Some m) w = Some (Some r, w3\<lparr>nbufs := nbufs w3 - 1\<rparr>) \<and>
     is_msg r \<and> v_cid (view r) = v_cid (view m) \<and> v_type (view r) = cstr CRESPONSE_DETACH \<and>
     v_status (view r) = err"
proof -
  let ?ops = "[Set_circuitid (v_cid (view m) @ [0]),
    Set_msgtype (lit CRESPONSE_DETACH @ rodata env CRESPONSE_DETACH), Set_status err]"
  have len: "length (v_cid (view m)) = CIRCUIT_ID_SIZE" using ok(2) by (rule view_lengths)
  have t: "type_field env CRESPONSE_DETACH = cstr CRESPONSE_DETACH"
      "MSGTYPE_SIZE \<le> length (lit CRESPONSE_DETACH)" using response_type [of CRESPONSE_DETACH] by simp_all
  have "\<forall>p \<in> set ?ops. op_readable p" using len t(2) by simp
  from run_ops_fresh [OF this] obtain rcs r where
    r: "run_ops ?ops (Some (raw_msg env (trace w))) = Some (rcs, Some r)"
       "is_msg r" "view r = snd (spec_ops ?ops (view (raw_msg env (trace w))))" by blast
  have "proto_detach_compute env (Some m) w = Some (Some r, w3\<lparr>nbufs := nbufs w3 - 1\<rparr>)"
    using r(1) op ok
    by (auto simp: proto_detach_compute_def alloc_simps literal_def Let_def simp flip: raw_msg_def
        dest!: run_ops_step)
  then show ?thesis
    using r(2,3) len t(1) type_known [OF response_known(2)]
    by (auto simp: type_field_def Let_def)
qed

section \<open>The attach handlers\<close>

lemma ports_encode: "unmarshal_iports b = Some ports \<Longrightarrow> marshal_iports ports = Some b"
  by (rule port_mask.encode_decode)

lemma proto_attach_memory_spec:
  assumes ok: "malloc_ok env" "is_msg m" "unmarshal_iports (v_ports (view m)) = Some ports"
    and op: "attach_memory env (Some (v_cid (view m) @ [0])) (Some (v_afu (view m) @ [0])) ports
       (v_size (view m)) (junk_word env (trace w @ [Malloc (CIRCUIT_ID_SIZE + 1), Malloc (AFUNAME_SIZE + 1)]) 0)
       (after_mallocs [CIRCUIT_ID_SIZE + 1, AFUNAME_SIZE + 1] w) = Some ((res, e), w3)"
  shows "\<exists>r. proto_attach_memory env (Some m) w =
       Some (Some r, (after_mallocs [MSG_SIZE] w3)\<lparr>nbufs := nbufs w3 - 1\<rparr>) \<and>
     is_msg r \<and> v_cid (view r) = v_cid (view m) \<and> v_type (view r) = cstr MRESPONSE_ATTACH \<and>
     v_ports (view r) = v_ports (view m) \<and> v_status (view r) = res \<and>
     (e \<noteq> 0 \<longrightarrow> v_ea (view r) = e)"
proof -
  let ?ops = "[Set_circuitid (v_cid (view m) @ [0]),
    Set_msgtype (lit MRESPONSE_ATTACH @ rodata env MRESPONSE_ATTACH),
    Set_afu (v_afu (view m) @ [0]), Set_iports ports, Set_size (v_size (view m)), Set_ea e,
    Set_status res]"
  have len: "length (v_cid (view m)) = CIRCUIT_ID_SIZE" "length (v_afu (view m)) = AFUNAME_SIZE"
    using ok(2) by (rule view_lengths)+
  have t: "type_field env MRESPONSE_ATTACH = cstr MRESPONSE_ATTACH"
      "MSGTYPE_SIZE \<le> length (lit MRESPONSE_ATTACH)" using response_type [of MRESPONSE_ATTACH] by simp_all
  have pm: "marshal_iports ports = Some (v_ports (view m))" using ok(3) by (rule ports_encode)
  have "\<forall>p \<in> set ?ops. op_readable p" using len t(2) pm by simp
  from run_ops_fresh [OF this] obtain rcs r where
    r: "run_ops ?ops (Some (raw_msg env (trace w3))) = Some (rcs, Some r)"
       "is_msg r" "view r = snd (spec_ops ?ops (view (raw_msg env (trace w3))))" by blast
  have "proto_attach_memory env (Some m) w =
      Some (Some r, (after_mallocs [MSG_SIZE] w3)\<lparr>nbufs := nbufs w3 - 1\<rparr>)"
    using r(1) op ok(1,2) get_fresh [OF ok(2)]
    by (auto simp: proto_attach_memory_def alloc_simps literal_def Let_def ok(3)
        simp flip: raw_msg_def dest!: run_ops_step)
  then show ?thesis
    using r(2,3) len t(1) pm type_known [OF response_known(4)] type_known [OF response_known(3)]
    by (auto simp: type_field_def Let_def)
qed

lemma proto_attach_compute_spec:
  assumes ok: "malloc_ok env" "is_msg m" "unmarshal_iports (v_ports (view m)) = Some ports"
    and op: "attach_compute env (Some (v_cid (view m) @ [0])) (Some (v_afu (view m) @ [0])) ports
       (v_ea (view m)) (v_size (view m)) (v_nohp (view m))
       (after_mallocs [CIRCUIT_ID_SIZE + 1, AFUNAME_SIZE + 1] w) = Some (res, w3)"
  shows "\<exists>r. proto_attach_compute env (Some m) w =
       Some (Some r, (after_mallocs [MSG_SIZE] w3)\<lparr>nbufs := nbufs w3 - 1\<rparr>) \<and>
     is_msg r \<and> v_cid (view r) = v_cid (view m) \<and> v_type (view r) = cstr CRESPONSE_ATTACH \<and>
     v_ports (view r) = v_ports (view m) \<and> v_status (view r) = res"
proof -
  let ?ops = "[Set_circuitid (v_cid (view m) @ [0]),
    Set_msgtype (lit CRESPONSE_ATTACH @ rodata env CRESPONSE_ATTACH), Set_size (v_size (view m)),
    Set_afu (v_afu (view m) @ [0]), Set_iports ports, Set_status res]"
  have len: "length (v_cid (view m)) = CIRCUIT_ID_SIZE" "length (v_afu (view m)) = AFUNAME_SIZE"
    using ok(2) by (rule view_lengths)+
  have t: "type_field env CRESPONSE_ATTACH = cstr CRESPONSE_ATTACH"
      "MSGTYPE_SIZE \<le> length (lit CRESPONSE_ATTACH)" using response_type [of CRESPONSE_ATTACH] by simp_all
  have pm: "marshal_iports ports = Some (v_ports (view m))" using ok(3) by (rule ports_encode)
  have "\<forall>p \<in> set ?ops. op_readable p" using len t(2) pm by simp
  from run_ops_fresh [OF this] obtain rcs r where
    r: "run_ops ?ops (Some (raw_msg env (trace w3))) = Some (rcs, Some r)"
       "is_msg r" "view r = snd (spec_ops ?ops (view (raw_msg env (trace w3))))" by blast
  have "proto_attach_compute env (Some m) w =
      Some (Some r, (after_mallocs [MSG_SIZE] w3)\<lparr>nbufs := nbufs w3 - 1\<rparr>)"
    using r(1) op ok(1,2) get_fresh [OF ok(2)]
    by (auto simp: proto_attach_compute_def alloc_simps literal_def Let_def ok(3)
        simp flip: raw_msg_def dest!: run_ops_step)
  then show ?thesis
    using r(2,3) len t(1) pm type_known [OF response_known(1)]
    by (auto simp: type_field_def Let_def)
qed

section \<open>The other messages\<close>

lemma unknown_mode_spec:
  assumes ok: "malloc_ok env" "is_msg m"
  shows "\<exists>r. set_unknown_mode_response env (Some m) w = Some (Some r,
       (after_mallocs [MSG_SIZE, CIRCUIT_ID_SIZE + 1, AFUNAME_SIZE + 1] w)\<lparr>nbufs := nbufs w + 1\<rparr>) \<and>
     is_msg r \<and> view r = (view (raw_msg env (trace w)))\<lparr>v_cid := v_cid (view m),
       v_afu := (if hd (v_afu (view m)) = 0 then v_afu (view (raw_msg env (trace w)))
                 else v_afu (view m))\<rparr>"
proof -
  let ?ops = "[Set_circuitid (v_cid (view m) @ [0]), Set_afu (v_afu (view m) @ [0])]"
  have len: "length (v_cid (view m)) = CIRCUIT_ID_SIZE" "length (v_afu (view m)) = AFUNAME_SIZE"
    using ok(2) by (rule view_lengths)+
  then have ne: "v_afu (view m) \<noteq> []" by (auto simp: layout_defs)
  have "\<forall>p \<in> set ?ops. op_readable p" using len by simp
  from run_ops_fresh [OF this] obtain rcs r where
    r: "run_ops ?ops (Some (raw_msg env (trace w))) = Some (rcs, Some r)"
       "is_msg r" "view r = snd (spec_ops ?ops (view (raw_msg env (trace w))))" by blast
  have "set_unknown_mode_response env (Some m) w = Some (Some r,
      (after_mallocs [MSG_SIZE, CIRCUIT_ID_SIZE + 1, AFUNAME_SIZE + 1] w)\<lparr>nbufs := nbufs w + 1\<rparr>)"
    using r(1) ok get_fresh [OF ok(2)]
    by (auto simp: set_unknown_mode_response_def alloc_simps Let_def simp flip: raw_msg_def
        dest!: run_ops_step)
  then show ?thesis using r(2,3) len ne by (auto simp: Let_def)
qed

text \<open>What \<^verbatim>\<open>strncpy\<close> makes of a field and its added terminator.\<close>

definition padded :: "nat \<Rightarrow> bytes \<Rightarrow> bytes" where
  "padded n b = upto_nul b @ replicate (n - length (upto_nul b)) 0"

lemma strncpy_field: "length b = n \<Longrightarrow> strncpy_src (b @ [0]) (n + 1) = Some (padded (n + 1) b)"
  by (subst strncpy_src_defined) (auto simp: padded_def upto_nul_append upto_nul_id)

lemma unmarshal_response_spec:
  assumes ok: "malloc_ok env" "is_msg m"
  shows "unmarshal_response env (Some m) w = Some
     (\<lparr> p_circuitid = padded (CIRCUIT_ID_SIZE + 1) (v_cid (view m)),
        p_msgtype = padded (MSGTYPE_SIZE + 1) (v_type (view m)),
        p_afu = padded (AFUNAME_SIZE + 1) (v_afu (view m)),
        p_status = v_status (view m), p_size = v_size (view m), p_ea = v_ea (view m),
        p_no_hotplug = v_nohp (view m) \<rparr>,
      (after_mallocs [CIRCUIT_ID_SIZE + 1, AFUNAME_SIZE + 1, MSGTYPE_SIZE + 1] w)\<lparr>nbufs := nbufs w\<rparr>)"
  using ok strncpy_field [OF view_lengths(1) [OF ok(2)]] strncpy_field [OF view_lengths(2) [OF ok(2)]]
    strncpy_field [OF view_lengths(3) [OF ok(2)]] get_fresh [OF ok(2)]
  by (simp add: unmarshal_response_def alloc_simps Let_def)

lemma marshal_detach_spec:
  assumes ok: "malloc_ok env" "rodata_ok env" "CIRCUIT_ID_SIZE \<le> length cid"
  shows "\<exists>m. marshal_detach_memory_request env (Some cid) w = Some (Some m, after_mallocs [MSG_SIZE] w) \<and>
      is_msg m \<and> v_cid (view m) = take CIRCUIT_ID_SIZE cid \<and>
      v_type (view m) = type_field env MEMORY_DETACH"
    and "\<exists>m. marshal_detach_compute_request env (Some cid) w = Some (Some m, after_mallocs [MSG_SIZE] w) \<and>
      is_msg m \<and> v_cid (view m) = take CIRCUIT_ID_SIZE cid \<and>
      v_type (view m) = type_field env COMPUTE_DETACH"
proof -
  have run: "\<exists>r rcs. run_ops [Set_circuitid cid, Set_msgtype (lit l @ rodata env l)]
        (Some (raw_msg env (trace w))) = Some (rcs, Some r) \<and> is_msg r \<and>
      v_cid (view r) = take CIRCUIT_ID_SIZE cid \<and> v_type (view r) = type_field env l"
    if "l \<in> set msgtypes" for l
  proof -
    let ?ops = "[Set_circuitid cid, Set_msgtype (lit l @ rodata env l)]"
    have "\<forall>p \<in> set ?ops. op_readable p"
      using ok that by (auto simp: rodata_ok_def)
    from run_ops_fresh [OF this, of env "trace w"] show ?thesis
      using type_known [OF that] by (fastforce simp: Let_def type_field_def)
  qed
  from run [OF response_known(8)] show "\<exists>m. marshal_detach_memory_request env (Some cid) w =
      Some (Some m, after_mallocs [MSG_SIZE] w) \<and> is_msg m \<and> v_cid (view m) = take CIRCUIT_ID_SIZE cid \<and>
      v_type (view m) = type_field env MEMORY_DETACH"
    using ok(1) by (fastforce simp: marshal_detach_memory_request_def alloc_simps literal_def
        simp flip: raw_msg_def)
  from run [OF response_known(6)] show "\<exists>m. marshal_detach_compute_request env (Some cid) w =
      Some (Some m, after_mallocs [MSG_SIZE] w) \<and> is_msg m \<and> v_cid (view m) = take CIRCUIT_ID_SIZE cid \<and>
      v_type (view m) = type_field env COMPUTE_DETACH"
    using ok(1) by (fastforce simp: marshal_detach_compute_request_def alloc_simps literal_def
        simp flip: raw_msg_def)
qed

text \<open>Both attach requests, with whatever arguments the setters may reject.\<close>

lemma marshal_attach_memory_spec:
  assumes ok: "malloc_ok env" "rodata_ok env" "CIRCUIT_ID_SIZE \<le> length cid"
      "AFUNAME_SIZE \<le> length nm" "0 \<in> set nm" "marshal_iports ports = Some b"
  shows "\<exists>m. marshal_attach_memory_request env (Some cid) (Some nm) ports sz w =
       Some (Some m, after_mallocs [MSG_SIZE] w) \<and> is_msg m \<and>
     view m = snd (spec_ops [Set_circuitid cid, Set_msgtype (lit MEMORY_ATTACH @ rodata env MEMORY_ATTACH),
       Set_afu nm, Set_iports ports, Set_size sz] (view (raw_msg env (trace w))))"
proof -
  let ?ops = "[Set_circuitid cid, Set_msgtype (lit MEMORY_ATTACH @ rodata env MEMORY_ATTACH),
       Set_afu nm, Set_iports ports, Set_size sz]"
  have "\<forall>p \<in> set ?ops. op_readable p"
    using ok response_known by (auto simp: rodata_ok_def)
  from run_ops_fresh [OF this] obtain rcs r where
    r: "run_ops ?ops (Some (raw_msg env (trace w))) = Some (rcs, Some r)"
       "is_msg r" "view r = snd (spec_ops ?ops (view (raw_msg env (trace w))))" by blast
  have "marshal_attach_memory_request env (Some cid) (Some nm) ports sz w =
      Some (Some r, after_mallocs [MSG_SIZE] w)"
    using r(1) ok(1)
    by (auto simp: marshal_attach_memory_request_def alloc_simps literal_def Let_def
        simp flip: raw_msg_def dest!: run_ops_step)
  then show ?thesis using r(2,3) by blast
qed

lemma marshal_attach_compute_spec:
  assumes ok: "malloc_ok env" "rodata_ok env" "CIRCUIT_ID_SIZE \<le> length cid"
      "AFUNAME_SIZE \<le> length nm" "0 \<in> set nm" "marshal_iports ports = Some b"
  shows "\<exists>m. marshal_attach_compute_request env (Some cid) (Some nm) ports sz e nohp w =
       Some (Some m, after_mallocs [MSG_SIZE] w) \<and> is_msg m \<and>
     view m = snd (spec_ops [Set_circuitid cid, Set_msgtype (lit COMPUTE_ATTACH @ rodata env COMPUTE_ATTACH),
       Set_afu nm, Set_iports ports, Set_size sz, Set_ea e, Set_no_hotplug nohp]
       (view (raw_msg env (trace w))))"
proof -
  let ?ops = "[Set_circuitid cid, Set_msgtype (lit COMPUTE_ATTACH @ rodata env COMPUTE_ATTACH),
       Set_afu nm, Set_iports ports, Set_size sz, Set_ea e, Set_no_hotplug nohp]"
  have "\<forall>p \<in> set ?ops. op_readable p"
    using ok response_known by (auto simp: rodata_ok_def)
  from run_ops_fresh [OF this] obtain rcs r where
    r: "run_ops ?ops (Some (raw_msg env (trace w))) = Some (rcs, Some r)"
       "is_msg r" "view r = snd (spec_ops ?ops (view (raw_msg env (trace w))))" by blast
  have "marshal_attach_compute_request env (Some cid) (Some nm) ports sz e nohp w =
      Some (Some r, after_mallocs [MSG_SIZE] w)"
    using r(1) ok(1)
    by (auto simp: marshal_attach_compute_request_def alloc_simps literal_def Let_def
        simp flip: raw_msg_def dest!: run_ops_step)
  then show ?thesis using r(2,3) by blast
qed

section \<open>An environment for examples\<close>

definition ok_env :: "bool \<Rightarrow> env" where
  "ok_env mk = (demo_env mk)\<lparr>ext := (\<lambda>tr c. (0, if 4096 * of_nat (Suc (length tr)) = (0 :: u64) then 1
     else 4096 * of_nat (Suc (length tr))))\<rparr>"

lemma ok_env_facts:
  "mock (ok_env mk) = mk" "malloc_ok (ok_env mk)" "rodata_ok (ok_env mk)"
  "junk (ok_env mk) tr k = 0" "rodata (ok_env mk) s = replicate 300 0"
  by (simp_all add: ok_env_def malloc_ok_def rodata_ok_def layout_defs)

lemma ok_env_junk: "is_msg (raw_msg (ok_env mk) tr)" "v_status (view (raw_msg (ok_env mk) tr)) = 0"
proof -
  show "is_msg (raw_msg (ok_env mk) tr)" by simp
  have "raw_msg (ok_env mk) tr = replicate MSG_SIZE 0"
    by (rule nth_equalityI) (simp_all add: raw_msg_def ok_env_facts)
  then show "v_status (view (raw_msg (ok_env mk) tr)) = 0"
    by (simp add: view_def get_at_def layout_defs eval_nat_numeral)
qed

definition demo_afu :: bytes where
  "demo_afu = 65 # replicate 256 0"

lemma demo_afu_facts: "AFUNAME_SIZE \<le> length demo_afu" "0 \<in> set demo_afu" "hd demo_afu = 65"
  by (simp_all add: demo_afu_def layout_defs)

lemma demo_port: "marshal_iports (Port 1 PNull) = Some 1"
  by (simp add: marshal_iports_def shl_one_def)

section \<open>Properties\<close>

text \<open>
  with valid arguments the compute-attach request carries exactly them: all fields but
  the status, which no request sets, are determined, so the agent reads back what the
  caller passed.
\<close>

theorem compute_request_fields:
  assumes "malloc_ok env" "rodata_ok env" "CIRCUIT_ID_SIZE \<le> length cid"
    and "AFUNAME_SIZE \<le> length nm" "0 \<in> set nm" "hd nm \<noteq> 0" "marshal_iports ports = Some b"
    and "sz \<noteq> 0" "sz mod MEMBLOCK_SIZE = 0" "e \<noteq> 0" "nohp = 0 \<or> nohp = 1"
  shows "\<exists>m. marshal_attach_compute_request env (Some cid) (Some nm) ports sz e nohp w =
       Some (Some m, after_mallocs [MSG_SIZE] w) \<and> is_msg m \<and>
     view m = \<lparr> v_cid = take CIRCUIT_ID_SIZE cid, v_type = type_field env COMPUTE_ATTACH,
       v_afu = take AFUNAME_SIZE nm, v_ports = b, v_size = sz, v_ea = e, v_nohp = nohp,
       v_status = v_status (view (raw_msg env (trace w))) \<rparr>"
proof -
  obtain m where m: "marshal_attach_compute_request env (Some cid) (Some nm) ports sz e nohp w =
       Some (Some m, after_mallocs [MSG_SIZE] w)" "is_msg m"
     "view m = snd (spec_ops [Set_circuitid cid, Set_msgtype (lit COMPUTE_ATTACH @ rodata env COMPUTE_ATTACH),
       Set_afu nm, Set_iports ports, Set_size sz, Set_ea e, Set_no_hotplug nohp]
       (view (raw_msg env (trace w))))"
    using marshal_attach_compute_spec [OF assms(1-5,7)] by blast
  have "view m = \<lparr> v_cid = take CIRCUIT_ID_SIZE cid, v_type = type_field env COMPUTE_ATTACH,
       v_afu = take AFUNAME_SIZE nm, v_ports = b, v_size = sz, v_ea = e, v_nohp = nohp,
       v_status = v_status (view (raw_msg env (trace w))) \<rparr>"
    using m(3) type_known [OF response_known(5)] assms(6-11)
    by (auto simp: type_field_def Let_def)
  with m show ?thesis by blast
qed

lemma compute_request_fields_witness:
  "\<exists>m. marshal_attach_compute_request (ok_env True) (Some demo_cid) (Some demo_afu) (Port 1 PNull)
       0x10000000 0x1000 1 init_world = Some (Some m, after_mallocs [MSG_SIZE] init_world) \<and>
     v_ports (view m) = 1 \<and> v_size (view m) = 0x10000000 \<and> v_ea (view m) = 0x1000"
proof -
  have "(1 :: cint) = 0 \<or> (1 :: cint) = 1" "(0x10000000 :: u64) mod MEMBLOCK_SIZE = 0"
    by (simp_all add: MEMBLOCK_SIZE_def)
  from compute_request_fields [OF ok_env_facts(2,3) [of True] demo_cid_key(2) demo_afu_facts(1,2) _ demo_port
      _ this(2) _ this(1), of 4096 init_world]
  show ?thesis by (auto simp: demo_afu_facts)
qed

text \<open>
  the marshalling functions ignore the codes of the setters: a request with a size that
  is 0 or not a multiple of the block size is still produced, and its size field is the
  uninitialised content of the message buffer.
\<close>

theorem bad_size_is_junk:
  assumes "malloc_ok env" "rodata_ok env" "CIRCUIT_ID_SIZE \<le> length cid"
    and "AFUNAME_SIZE \<le> length nm" "0 \<in> set nm" "marshal_iports ports = Some b"
    and "sz = 0 \<or> sz mod MEMBLOCK_SIZE \<noteq> 0"
  shows "\<exists>m. marshal_attach_memory_request env (Some cid) (Some nm) ports sz w =
       Some (Some m, after_mallocs [MSG_SIZE] w) \<and> is_msg m \<and>
     v_size (view m) = v_size (view (raw_msg env (trace w))) \<and>
     v_cid (view m) = take CIRCUIT_ID_SIZE cid \<and> v_type (view m) = type_field env MEMORY_ATTACH"
proof -
  obtain m where m: "marshal_attach_memory_request env (Some cid) (Some nm) ports sz w =
       Some (Some m, after_mallocs [MSG_SIZE] w)" "is_msg m"
     "view m = snd (spec_ops [Set_circuitid cid, Set_msgtype (lit MEMORY_ATTACH @ rodata env MEMORY_ATTACH),
       Set_afu nm, Set_iports ports, Set_size sz] (view (raw_msg env (trace w))))"
    using marshal_attach_memory_spec [OF assms(1-6)] by blast
  have size: "spec_op (Set_size sz) v =
      (if sz = 0 then ERR_INT_PARAM else ERR_MEMBLOCK_SIZE, v)" for v
    unfolding spec_op.simps using assms(7) by presburger
  have "v_size (view m) = v_size (view (raw_msg env (trace w))) \<and>
     v_cid (view m) = take CIRCUIT_ID_SIZE cid \<and> v_type (view m) = type_field env MEMORY_ATTACH"
    using m(3) type_known [OF response_known(7)]
    by (cases "hd nm = 0") (auto simp: type_field_def Let_def size simp del: spec_op.simps(5))
  with m show ?thesis by blast
qed

lemma bad_size_is_junk_witness:
  "\<exists>m. marshal_attach_memory_request (ok_env True) (Some demo_cid) (Some demo_afu) (Port 1 PNull) 5
       init_world = Some (Some m, after_mallocs [MSG_SIZE] init_world) \<and>
     v_size (view m) = v_size (view (raw_msg (ok_env True) []))"
proof -
  have "(5 :: u64) = 0 \<or> 5 mod MEMBLOCK_SIZE \<noteq> (0 :: u64)" by (simp add: MEMBLOCK_SIZE_def)
  from bad_size_is_junk [OF ok_env_facts(2,3) [of True] demo_cid_key(2) demo_afu_facts(1,2) demo_port this,
      of init_world]
  show ?thesis by auto
qed

text \<open>
  the response to an unknown message type carries no error: its status and its message
  type are the uninitialised content of the buffer.
\<close>

theorem unknown_mode_junk:
  assumes "malloc_ok env" "is_msg m"
  shows "\<exists>r w'. set_unknown_mode_response env (Some m) w = Some (Some r, w') \<and>
     v_cid (view r) = v_cid (view m) \<and>
     v_status (view r) = v_status (view (raw_msg env (trace w))) \<and>
     v_type (view r) = v_type (view (raw_msg env (trace w))) \<and> nbufs w' = nbufs w + 1"
  using unknown_mode_spec [OF assms, of w] by fastforce

lemma unknown_mode_junk_witness:
  "\<exists>r w'. set_unknown_mode_response (ok_env True) (Some (replicate 333 7)) init_world = Some (Some r, w') \<and>
     v_status (view r) = 0"
proof -
  have "is_msg (replicate 333 7)" by (simp add: is_msg_def layout_defs)
  from unknown_mode_junk [OF ok_env_facts(2) [of True] this, of init_world]
  show ?thesis using ok_env_junk(2) [of True "[]"] by auto
qed

text \<open>
  the client's view of a response is a total function of its 333 bytes: the integer
  fields as stored, the strings cut at their first NUL and padded, so that they are always
  terminated; the temporary buffers are released.
\<close>

theorem unmarshal_fields:
  assumes "malloc_ok env" "is_msg m"
  shows "\<exists>p w'. unmarshal_response env (Some m) w = Some (p, w') \<and> nbufs w' = nbufs w \<and>
     p_status p = v_status (view m) \<and> p_size p = v_size (view m) \<and> p_ea p = v_ea (view m) \<and>
     p_no_hotplug p = v_nohp (view m) \<and>
     upto_nul (p_circuitid p) = upto_nul (v_cid (view m)) \<and> length (p_circuitid p) = 37 \<and>
     upto_nul (p_msgtype p) = upto_nul (v_type (view m)) \<and> length (p_msgtype p) = 17 \<and>
     upto_nul (p_afu p) = upto_nul (v_afu (view m)) \<and> length (p_afu p) = 257"
proof -
  have pad: "upto_nul (padded n b) = upto_nul b" for n b
    by (simp add: padded_def upto_nul_append upto_nul_id)
  have len: "length (padded n b) = n" if "length b < n" for n b
    using length_upto_nul [of b] that by (simp add: padded_def)
  have "length (v_cid (view m)) < 37" "length (v_type (view m)) < 17" "length (v_afu (view m)) < 257"
    using view_lengths [OF assms(2)] by (simp_all add: layout_defs)
  then show ?thesis
    using unmarshal_response_spec [OF assms, of w] len
    by (auto simp: pad layout_defs)
qed

lemma unmarshal_fields_witness:
  "\<exists>p w'. unmarshal_response (ok_env True) (Some (replicate 333 7)) init_world = Some (p, w') \<and>
     length (p_afu p) = 257"
proof -
  have "is_msg (replicate 333 7)" by (simp add: is_msg_def layout_defs)
  from unmarshal_fields [OF ok_env_facts(2) [of True] this, of init_world] show ?thesis by blast
qed

end
