(* ===== verification/TFWire.thy ===== *)
theory TFWire imports TFProto begin

text \<open>
  Messages on a socket: \<^verbatim>\<open>read_message\<close>, \<^verbatim>\<open>read_pmessage\<close>, \<^verbatim>\<open>write_message\<close> and
  \<^verbatim>\<open>open_client_connection\<close> of \<^verbatim>\<open>libthymesisflow/src/proto.c\<close>.  What the kernel answers to
  the successive \<^verbatim>\<open>recv\<close> and \<^verbatim>\<open>write\<close> calls on a connection is a script; a call beyond
  the end of the script blocks, so the function does not return.
\<close>

section \<open>Model\<close>

text \<open>
  \<open>Received bs\<close>: \<^verbatim>\<open>recv\<close> stored \<open>bs\<close> (none at the end of the stream) and returned their
  number; \<open>Wrote n\<close>: \<^verbatim>\<open>write\<close> took the first \<open>n\<close> bytes.  The errors return -1.
\<close>

datatype recv_ans = Received bytes | Recv_error
datatype write_ans = Wrote nat | Write_error

text \<open>
  A connection: what is still to be answered, and what the peer was sent.
\<close>

record sock =
  s_in :: "recv_ans list"
  s_out :: "write_ans list"
  s_sent :: bytes

text \<open>
  The loop counts in a \<^verbatim>\<open>size_t\<close>, adds the \<^verbatim>\<open>int\<close> result to it and is incremented by the
  \<^verbatim>\<open>for\<close> as well.
\<close>

fun read_loop :: "recv_ans list \<Rightarrow> u64 \<Rightarrow> bytes \<Rightarrow> (bytes \<times> recv_ans list) option" where
  "read_loop [] i msg = (if i < of_nat MSG_SIZE then None else Some (msg, []))"
| "read_loop (a # as) i msg =
     (if i < of_nat MSG_SIZE then
        (case a of
           Received bs \<Rightarrow> do {
             msg' \<leftarrow> mem_write (unat i) bs msg;
             read_loop as (i + of_nat (length bs) + 1) msg' }
         | Recv_error \<Rightarrow> read_loop as (i + - 1 + 1) msg)
      else Some (msg, a # as))"

text \<open>With a \<^verbatim>\<open>NULL\<close> buffer every \<^verbatim>\<open>recv\<close> fails and the loop never ends.\<close>

definition read_message :: "env \<Rightarrow> sock \<Rightarrow> world \<Rightarrow> (cptr \<times> sock \<times> world) option" where
  "read_message env s w =
     (case malloc_buf env MSG_SIZE w of
        (None, w1) \<Rightarrow> None
      | (Some msg, w1) \<Rightarrow> do {
          (msg', rest) \<leftarrow> read_loop (s_in s) 0 msg;
          Some (Some msg', s\<lparr>s_in := rest\<rparr>, w1) })"

fun write_loop :: "write_ans list \<Rightarrow> u64 \<Rightarrow> bytes \<Rightarrow> bytes \<Rightarrow> (bytes \<times> write_ans list) option" where
  "write_loop [] i msg sent = (if i < of_nat MSG_SIZE then None else Some (sent, []))"
| "write_loop (a # as) i msg sent =
     (if i < of_nat MSG_SIZE then
        (case a of
           Wrote n \<Rightarrow> do {
             bs \<leftarrow> mem_read 0 n msg;
             write_loop as (i + of_nat n + 1) msg (sent @ bs) }
         | Write_error \<Rightarrow> write_loop as (i + - 1 + 1) msg sent)
      else Some (sent, a # as))"

definition write_message :: "sock \<Rightarrow> cptr \<Rightarrow> (cint \<times> sock) option" where
  "write_message s msg =
     (case msg of
        None \<Rightarrow> None
      | Some m \<Rightarrow> do {
          (sent, rest) \<leftarrow> write_loop (s_out s) 0 m (s_sent s);
          Some (0, s\<lparr>s_out := rest, s_sent := sent\<rparr>) })"

definition read_pmessage :: "env \<Rightarrow> sock \<Rightarrow> world \<Rightarrow> (cint \<times> pmessage \<times> sock \<times> world) option" where
  "read_pmessage env s w = do {
     (resp_msg, s1, w1) \<leftarrow> read_message env s w;
     (resp, w2) \<leftarrow> unmarshal_response env resp_msg w1;
     Some (0, resp, s1, free_buf resp_msg w2) }"

text \<open>
  \<^verbatim>\<open>sun_path\<close> has 108 bytes, of which 107 are assigned.  A socket whose \<^verbatim>\<open>connect\<close> fails
  is not closed.
\<close>

definition open_client_connection :: "env \<Rightarrow> cptr \<Rightarrow> world \<Rightarrow> (cint \<times> world) option" where
  "open_client_connection env sock_path w =
     (case sock_path of
        None \<Rightarrow> Some (-1, w)
      | Some p \<Rightarrow> do {
          n \<leftarrow> strlen p;
          if n = 0 then Some (-1, w)
          else
            let (sfd, w1) = sys_rc env Socket w in
            if sfd = -1 then Some (-1, w1)
            else do {
              sun_path \<leftarrow> strncpy_src p 107;
              let (rc, w2) = sys_rc env (Connect sfd (sun_path @ [junk env (trace w1) 107])) w1;
              Some (if rc = -1 then -1 else sfd, w2) } })"

section \<open>Whole messages\<close>

lemma msg_size_word: "of_nat MSG_SIZE = (333 :: u64)" "MSG_SIZE = 333"
  by (simp_all add: layout_defs)

lemma read_loop_whole:
  "length m = MSG_SIZE \<Longrightarrow> length b = MSG_SIZE \<Longrightarrow>
   read_loop (Received m # as) 0 b = Some (m, as)"
  by (cases as) (simp_all add: msg_size_word mem_write_def put_at_all)

lemma write_loop_whole:
  "length m = MSG_SIZE \<Longrightarrow> write_loop (Wrote MSG_SIZE # as) 0 m sent = Some (sent @ m, as)"
  by (cases as) (simp_all add: msg_size_word mem_read_def)

lemma read_message_whole:
  assumes "malloc_ok env" "is_msg m" "s_in s = Received m # as"
  shows "read_message env s w = Some (Some m, s\<lparr>s_in := as\<rparr>, after_mallocs [MSG_SIZE] w)"
  using assms read_loop_whole [of m "map (junk env (trace w)) [0..<MSG_SIZE]" as]
  by (simp add: read_message_def malloc_after is_msg_def)

lemma write_message_whole:
  "is_msg m \<Longrightarrow> s_out s = Wrote MSG_SIZE # as \<Longrightarrow>
   write_message s (Some m) = Some (0, s\<lparr>s_out := as, s_sent := s_sent s @ m\<rparr>)"
  by (simp add: write_message_def write_loop_whole is_msg_def del: write_loop.simps)

lemma read_loop_length: "read_loop as i b = Some (m, rest) \<Longrightarrow> length m = length b"
  by (induction as i b rule: read_loop.induct)
     (auto simp: mem_write_def split: if_splits recv_ans.splits)

lemma read_message_msg:
  assumes "read_message env s w = Some (msg, s', w')"
  shows "\<exists>m. msg = Some m \<and> is_msg m \<and> s_out s' = s_out s \<and> s_sent s' = s_sent s \<and>
     w' = after_mallocs [MSG_SIZE] w"
  using assms read_loop_length
  by (fastforce simp: read_message_def malloc_buf_def after_mallocs_def is_msg_def Let_def
      split: option.splits if_splits prod.splits)

section \<open>Properties\<close>

text \<open>
  C26: a message written in one piece and delivered in one piece arrives unchanged.
\<close>

theorem wire_roundtrip:
  assumes "malloc_ok env" "is_msg m" "s_out a = Wrote MSG_SIZE # as" "s_sent a = []"
  shows "\<exists>a'. write_message a (Some m) = Some (0, a') \<and> s_sent a' = m \<and>
     (\<forall>b. s_in b = [Received (s_sent a')] \<longrightarrow>
        read_message env b w = Some (Some m, b\<lparr>s_in := []\<rparr>, after_mallocs [MSG_SIZE] w))"
  using assms write_message_whole [OF assms(2,3)] read_message_whole [OF assms(1,2)] by simp

lemma wire_roundtrip_witness:
  "\<exists>a'. write_message \<lparr> s_in = [], s_out = [Wrote MSG_SIZE], s_sent = [] \<rparr> (Some (replicate 333 7)) =
     Some (0, a') \<and> s_sent a' = replicate 333 7 \<and>
     read_message (ok_env True) \<lparr> s_in = [Received (s_sent a')], s_out = [], s_sent = [] \<rparr> init_world =
       Some (Some (replicate 333 7), \<lparr> s_in = [], s_out = [], s_sent = [] \<rparr>, after_mallocs [MSG_SIZE] init_world)"
proof -
  have "is_msg (replicate 333 7)" by (simp add: is_msg_def layout_defs)
  from wire_roundtrip [OF ok_env_facts(2) [of True] this,
      of "\<lparr> s_in = [], s_out = [Wrote MSG_SIZE], s_sent = [] \<rparr>" "[]" init_world]
  show ?thesis by auto
qed

text \<open>
  C32: a message that \<^verbatim>\<open>recv\<close> delivers in two pieces is not reassembled: the loop skips a
  byte between the pieces, so the second piece runs one byte past the buffer, and if only
  the last byte is missing it is never read and keeps its uninitialised value.
\<close>

theorem short_read:
  assumes "length x + length y = MSG_SIZE" "x \<noteq> []" "y \<noteq> []" "length b = MSG_SIZE"
  shows "read_loop (Received x # Received y # as) 0 b =
     (if length y = 1 then Some (x @ [last b], Received y # as) else None)"
proof -
  have lx: "length x < 333" "0 < length y" using assms by (cases y; simp add: msg_size_word)+
  have "unat (of_nat (length x + 1) :: u64) = length x + 1"
    using lx(1) by (simp only: unat_of_nat) simp
  then have i: "unat (1 + of_nat (length x) :: u64) = length x + 1" by (simp add: add.commute)
  have lt: "(1 + of_nat (length x) :: u64) < 333 \<longleftrightarrow> length x + 1 < 333"
    by (simp add: word_less_nat_alt i)
  have first: "mem_write 0 x b = Some (x @ drop (length x) b)"
    using assms lx(1) by (simp add: mem_write_def put_at_def msg_size_word)
  have step: "read_loop (Received x # as') 0 b =
      read_loop as' (1 + of_nat (length x)) (x @ drop (length x) b)" for as'
  proof -
    have "(0 :: u64) < of_nat MSG_SIZE" by (simp add: msg_size_word)
    moreover have "0 + of_nat (length x) + 1 = 1 + (of_nat (length x) :: u64)" by simp
    ultimately show ?thesis using first by (simp only: read_loop.simps if_True recv_ans.case
      unat_0 Option.bind.bind_lunit)
  qed
  show ?thesis
  proof (cases "length y = 1")
    case True
    then have l: "length x = 332" using assms(1) by (simp add: msg_size_word)
    have "b \<noteq> []" using assms(4) by (auto simp: msg_size_word)
    then have "b = butlast b @ [last b]" by simp
    moreover have "length (butlast b) = 332" using assms(4) by (simp add: msg_size_word)
    ultimately have "drop 332 b = [last b]" by (metis append_eq_conv_conj)
    moreover have "\<not> (1 + of_nat (length x) :: u64) < of_nat MSG_SIZE"
      unfolding msg_size_word lt using l by simp
    ultimately show ?thesis
      unfolding step by (simp only: read_loop.simps if_False if_P [OF True] l)
  next
    case False
    then have "length x + 1 < 333" "length x + 1 + length y > MSG_SIZE"
      using assms(1) lx False unfolding msg_size_word by linarith+
    moreover from this(1) have "(1 + of_nat (length x) :: u64) < of_nat MSG_SIZE"
      unfolding msg_size_word(1) by (simp only: lt)
    moreover have "length (x @ drop (length x) b) = MSG_SIZE" using assms by simp
    ultimately show ?thesis
      unfolding step using False by (simp add: i mem_write_def)
  qed
qed

lemma short_read_witness:
  "read_loop [Received (replicate 100 7), Received (replicate 233 7)] 0 (replicate 333 0) = None"
  using short_read [of "replicate 100 7" "replicate 233 7" "replicate 333 0" "[]"]
  by (simp add: layout_defs)

text \<open>
  a \<^verbatim>\<open>write\<close> that takes only the first \<open>k\<close> bytes is followed by one from the start of
  the message, so the peer is sent the beginning of the message twice.
\<close>

theorem short_write:
  assumes "is_msg m" "0 < k" "k + 1 < MSG_SIZE"
  shows "write_loop (Wrote k # Wrote MSG_SIZE # as) 0 m sent = Some (sent @ take k m @ m, as)"
proof -
  have "unat (of_nat (k + 1) :: u64) = k + 1"
    using assms(3) by (simp only: unat_of_nat) (simp add: msg_size_word)
  then have k: "unat (1 + of_nat k :: u64) = k + 1" by (simp add: add.commute)
  have len: "length m = 333" using assms(1) by (simp add: is_msg_def msg_size_word)
  have lt: "(1 + of_nat k :: u64) < of_nat MSG_SIZE"
    using assms(3) by (simp add: word_less_nat_alt k msg_size_word)
  have one: "write_loop (Wrote k # as') 0 m sent' = write_loop as' (1 + of_nat k) m (sent' @ take k m)"
    for as' sent'
  proof -
    have "(0 :: u64) < of_nat MSG_SIZE" by (simp add: msg_size_word)
    moreover have "0 + of_nat k + 1 = 1 + (of_nat k :: u64)" by simp
    moreover have "mem_read 0 k m = Some (take k m)"
      using assms(3) len by (simp add: mem_read_def msg_size_word)
    ultimately show ?thesis by (simp only: write_loop.simps if_True write_ans.case
      Option.bind.bind_lunit)
  qed
  have "mem_read 0 MSG_SIZE m = Some m" using len by (simp add: mem_read_def msg_size_word)
  moreover have "\<not> 1 + of_nat k + of_nat MSG_SIZE + 1 < (of_nat MSG_SIZE :: u64)"
  proof -
    have "1 + of_nat k + of_nat MSG_SIZE + 1 = (of_nat (k + 335) :: u64)"
      by (simp add: msg_size_word)
    moreover have "unat (of_nat (k + 335) :: u64) = k + 335"
      using assms(3) by (simp only: unat_of_nat) (simp add: msg_size_word)
    ultimately show ?thesis
      by (simp only: word_less_nat_alt msg_size_word(1)) simp
  qed
  ultimately show ?thesis
    unfolding one using lt by (cases as) simp_all
qed

lemma short_write_witness:
  "write_loop [Wrote 100, Wrote 333] 0 (replicate 333 7) [] = Some (replicate 433 7, [])"
  using short_write [of "replicate 333 7" 100 "[]" "[]"]
  by (simp add: layout_defs is_msg_def flip: replicate_add)

text \<open>
  C33: neither loop ever leaves on errors: while \<^verbatim>\<open>recv\<close> or \<^verbatim>\<open>write\<close> fails, the counter
  stays 0, so a peer that is gone (or a descriptor of -1) makes the function hang.
\<close>

theorem error_hangs:
  "read_loop (replicate n Recv_error) 0 b = None \<and>
   write_loop (replicate n Write_error) 0 m sent = None"
proof (induction n)
  case 0
  show ?case by (simp add: msg_size_word)
next
  case (Suc n)
  have "(0 :: u64) < of_nat MSG_SIZE" by (simp add: msg_size_word)
  moreover have "(0 :: u64) + - 1 + 1 = 0" by simp
  ultimately show ?case
    using Suc.IH by (simp only: replicate_Suc read_loop.simps write_loop.simps if_True
      recv_ans.case write_ans.case)
qed

text \<open>
  if the peer closes without sending anything, the reader spins to the end of the
  buffer and returns its uninitialised content as the message.
\<close>

theorem eof_reads_junk:
  "malloc_ok env \<Longrightarrow>
   read_message env \<lparr> s_in = replicate 333 (Received []), s_out = out, s_sent = [] \<rparr> w =
     Some (Some (raw_msg env (trace w)), \<lparr> s_in = [], s_out = out, s_sent = [] \<rparr>,
       after_mallocs [MSG_SIZE] w)"
proof -
  assume ok: "malloc_ok env"
  have step: "read_loop (replicate n (Received [])) (of_nat (333 - n)) b = Some (b, [])"
    if "n \<le> 333" "length b = MSG_SIZE" for n b
    using that
  proof (induction n)
    case 0
    show ?case by (simp add: msg_size_word)
  next
    case (Suc n)
    have u: "unat (of_nat (333 - Suc n) :: u64) = 333 - Suc n"
      by (simp only: unat_of_nat) (use Suc.prems in simp)
    then have lt: "(of_nat (333 - Suc n) :: u64) < of_nat MSG_SIZE"
      unfolding word_less_nat_alt using Suc.prems by (simp add: msg_size_word)
    have "333 - n = Suc (333 - Suc n)" using Suc.prems by simp
    then have "(of_nat (333 - Suc n) + of_nat (length []) + 1 :: u64) = of_nat (333 - n)" by simp
    moreover have "mem_write (333 - Suc n) [] b = Some b"
      using Suc.prems by (simp add: mem_write_def put_at_def msg_size_word)
    ultimately show ?case
      using Suc.IH Suc.prems lt
      by (simp only: replicate_Suc read_loop.simps if_True recv_ans.case u
          Option.bind.bind_lunit) simp
  qed
  have "read_loop (replicate 333 (Received [])) 0 (raw_msg env (trace w)) =
      Some (raw_msg env (trace w), [])"
    using step [of 333 "raw_msg env (trace w)"] is_msg_raw by (simp add: is_msg_def)
  then show ?thesis
    using ok by (simp add: read_message_def malloc_after flip: raw_msg_def)
qed

lemma eof_reads_junk_witness:
  "read_message (ok_env True) \<lparr> s_in = replicate 333 (Received []), s_out = [], s_sent = [] \<rparr> init_world =
     Some (Some (raw_msg (ok_env True) []), \<lparr> s_in = [], s_out = [], s_sent = [] \<rparr>,
       after_mallocs [MSG_SIZE] init_world)"
  using eof_reads_junk [OF ok_env_facts(2) [of True], of "[]" init_world] by simp

end
