(* ===== verification/TFAgent.thy ===== *)
theory TFAgent imports TFWire begin

text \<open>
  The agent: \<^verbatim>\<open>libthymesisflow/src/agent.c\<close>.  \<open>handle_request\<close> serves one connection,
  \<open>run_agent\<close> sets the server socket up and serves connections until \<^verbatim>\<open>accept\<close> fails;
  \<open>agent_ends\<close> adds the \<^verbatim>\<open>SIGTERM\<close> handler, which ends the process in the middle of any call.
\<close>

section \<open>Model\<close>

definition BACKLOG :: nat where "BACKLOG = 5"
definition ENOENT :: u64 where "ENOENT = 2"

definition select_handler :: "env \<Rightarrow> bytes \<Rightarrow> cptr \<Rightarrow> world \<Rightarrow> (cptr \<times> world) option" where
  "select_handler env t msg w = do {
     b1 \<leftarrow> strncmp_eq t (lit MEMORY_ATTACH) MSGTYPE_SIZE;
     if b1 then proto_attach_memory env msg w else do {
     b2 \<leftarrow> strncmp_eq t (lit MEMORY_DETACH) MSGTYPE_SIZE;
     if b2 then proto_detach_memory env msg w else do {
     b3 \<leftarrow> strncmp_eq t (lit COMPUTE_ATTACH) MSGTYPE_SIZE;
     if b3 then proto_attach_compute env msg w else do {
     b4 \<leftarrow> strncmp_eq t (lit COMPUTE_DETACH) MSGTYPE_SIZE;
     if b4 then proto_detach_compute env msg w
     else set_unknown_mode_response env msg w } } } }"

text \<open>The branch for a \<^verbatim>\<open>NULL\<close> message only allocates; \<open>read_message\<close> never takes it.\<close>

definition handle_request :: "env \<Rightarrow> sock \<Rightarrow> world \<Rightarrow> (sock \<times> world) option" where
  "handle_request env s w = do {
     (msg, s1, w1) \<leftarrow> read_message env s w;
     (case msg of
        None \<Rightarrow> Some (s1, snd (new_proto_msg env w1))
      | Some m \<Rightarrow>
          let (msgtype, w2) = malloc_buf env MSGTYPE_SIZE w1 in
          do {
            t0 \<leftarrow> msgtype;
            src \<leftarrow> mem_read CIRCUIT_ID_SIZE MSGTYPE_SIZE m;
            t \<leftarrow> mem_write 0 src t0;
            (response_msg, w3) \<leftarrow> select_handler env t msg w2;
            let w4 = free_buf (Some t) w3;
            (_, s2) \<leftarrow> write_message s1 response_msg;
            Some (s2, free_buf response_msg (free_buf msg w4)) }) }"

text \<open>
  The set-up: \<open>Inl\<close> the code the process exits with, or \<open>Inr\<close> the server socket.  The value
  \<^verbatim>\<open>remove\<close> answers with is \<^verbatim>\<open>errno\<close>; a failing \<^verbatim>\<open>listen\<close> is only logged.
\<close>

definition agent_setup :: "env \<Rightarrow> cptr \<Rightarrow> world \<Rightarrow> ((nat + cint) \<times> world) option" where
  "agent_setup env sock_path w =
     (let path = (if sock_path = None then literal env SOCK_PATH else sock_path);
          (sfd, w1) = sys_rc env Socket w in
      if sfd = -1 then Some (Inl 1, w1)
      else do {
        p \<leftarrow> path;
        let ((rm, errno), w2) = sys env (Remove p) w1;
        if rm = -1 \<and> errno \<noteq> ENOENT then Some (Inl 2, w2)
        else do {
          sun_path \<leftarrow> strncpy_src p 107;
          let (bd, w3) = sys_rc env (Bind sfd (sun_path @ [junk env (trace w2) 107])) w2;
          if bd = -1 then Some (Inl 3, w3)
          else Some (Inr sfd, snd (sys env (Listen sfd BACKLOG) w3)) } })"

text \<open>
  The server loop on the connections \<open>ss\<close> that clients open; the result is the exit code
  and the connections as the agent left them.  Without a further client it blocks.
\<close>

fun agent_loop :: "env \<Rightarrow> cint \<Rightarrow> sock list \<Rightarrow> world \<Rightarrow> ((nat \<times> sock list) \<times> world) option" where
  "agent_loop env sfd [] w =
     (let (cfd, w1) = sys_rc env (Accept sfd) w in
      if cfd = -1 then Some ((4, []), w1) else None)"
| "agent_loop env sfd (s # ss) w =
     (let (cfd, w1) = sys_rc env (Accept sfd) w in
      if cfd = -1 then Some ((4, []), w1)
      else do {
        (s', w2) \<leftarrow> handle_request env s w1;
        let w3 = snd (sys_rc env (Close cfd) w2);
        ((code, served), w4) \<leftarrow> agent_loop env sfd ss w3;
        Some ((code, s' # served), w4) })"

definition run_agent :: "env \<Rightarrow> cptr \<Rightarrow> sock list \<Rightarrow> world \<Rightarrow> ((nat \<times> sock list) \<times> world) option" where
  "run_agent env sock_path ss w = do {
     (r, w1) \<leftarrow> agent_setup env sock_path w;
     (case r of
        Inl code \<Rightarrow> Some ((code, []), w1)
      | Inr sfd \<Rightarrow> agent_loop env sfd ss w1) }"

text \<open>
  The handler of \<^verbatim>\<open>SIGTERM\<close> logs and exits.  \<open>agent_ends\<close> relates the clients to the exit
  codes of the server loop and the calls it has made: the signal may come while the agent
  waits for a client or at any point of a request.
\<close>

definition graceful_termination :: nat where "graceful_termination = 0"

inductive agent_ends :: "env \<Rightarrow> cint \<Rightarrow> sock list \<Rightarrow> world \<Rightarrow> nat \<Rightarrow> call list \<Rightarrow> bool" for env sfd where
  accept_fails: "sys_rc env (Accept sfd) w = (-1, w1) \<Longrightarrow> agent_ends env sfd ss w 4 (trace w1)"
| waiting: "sys_rc env (Accept sfd) w = (cfd, w1) \<Longrightarrow>
    agent_ends env sfd ss w graceful_termination (trace w1)"
| serving: "sys_rc env (Accept sfd) w = (cfd, w1) \<Longrightarrow> cfd \<noteq> -1 \<Longrightarrow>
    handle_request env s w1 = Some (s', w2) \<Longrightarrow> trace w2 @ [Close cfd] = trace w1 @ us @ vs \<Longrightarrow>
    agent_ends env sfd (s # ss) w graceful_termination (trace w1 @ us)"
| served: "sys_rc env (Accept sfd) w = (cfd, w1) \<Longrightarrow> cfd \<noteq> -1 \<Longrightarrow>
    handle_request env s w1 = Some (s', w2) \<Longrightarrow>
    agent_ends env sfd ss (snd (sys_rc env (Close cfd) w2)) code tr \<Longrightarrow>
    agent_ends env sfd (s # ss) w code tr"

text \<open>
  The states between two requests: \<open>agent_serving env sfd w0 w\<close> if the loop, entered in \<open>w0\<close>,
  has served any number of clients and is in \<open>w\<close>, about to wait for the next one.
\<close>

inductive agent_serving :: "env \<Rightarrow> cint \<Rightarrow> world \<Rightarrow> world \<Rightarrow> bool" for env sfd w0 where
  enters: "agent_serving env sfd w0 w0"
| serves: "agent_serving env sfd w0 w \<Longrightarrow> sys_rc env (Accept sfd) w = (cfd, w1) \<Longrightarrow> cfd \<noteq> -1 \<Longrightarrow>
    handle_request env s w1 = Some (s', w2) \<Longrightarrow>
    agent_serving env sfd w0 (snd (sys_rc env (Close cfd) w2))"

text \<open>
  The loop ends like one of these; an agent whose \<^verbatim>\<open>accept\<close> does not fail ends only by the
  signal, which always finds a point to end it, and reports success.
\<close>

lemma agent_loop_ends:
  "agent_loop env sfd ss w = Some ((code, served), w') \<Longrightarrow> agent_ends env sfd ss w code (trace w')"
proof (induction ss arbitrary: w code served)
  case Nil
  then show ?case by (auto simp: Let_def split: if_splits intro!: agent_ends.accept_fails)
next
  case (Cons s ss)
  obtain cfd w1 where acc: "sys_rc env (Accept sfd) w = (cfd, w1)" by fastforce
  show ?case
  proof (cases "cfd = -1")
    case True
    then show ?thesis using Cons.prems acc agent_ends.accept_fails [of env sfd w w1 "s # ss"] by simp
  next
    case False
    then obtain s' w2 served' where "handle_request env s w1 = Some (s', w2)"
        "agent_loop env sfd ss (snd (sys_rc env (Close cfd) w2)) = Some ((code, served'), w')"
      using Cons.prems acc by (auto simp: Let_def simp del: sys_simps)
    then show ?thesis using agent_ends.served [OF acc False] Cons.IH by blast
  qed
qed

lemma agent_exit_codes:
  assumes "agent_ends env sfd ss w code tr"
  shows "code = 0 \<or> code = 4 \<and> (\<exists>tr'. fst (ext env tr' (Accept sfd)) = -1)"
  using assms
proof (induction rule: agent_ends.induct)
  case (accept_fails w w1 ss)
  then show ?case by auto
qed (auto simp: graceful_termination_def)

lemma sigterm_ends: "\<exists>tr. agent_ends env sfd ss w 0 tr"
  using agent_ends.waiting [where env = env and sfd = sfd and w = w and ss = ss]
  by (auto simp: graceful_termination_def)

text \<open>
  The program \<^verbatim>\<open>thymesisf-agent\<close>.  \<^verbatim>\<open>getopt\<close> reports its options one by one; \<open>Opt_s\<close>
  carries \<^verbatim>\<open>optarg\<close>, which is \<^verbatim>\<open>NULL\<close> for an option declared without an argument, as
  \<^verbatim>\<open>":s"\<close> declares it.
\<close>

datatype agent_opt = Opt_s cptr | Opt_unknown

fun agent_opts :: "agent_opt list \<Rightarrow> cptr \<Rightarrow> cptr option" where
  "agent_opts [] sock_path = Some sock_path"
| "agent_opts (Opt_s optarg # os) sock_path = agent_opts os optarg"
| "agent_opts (Opt_unknown # os) sock_path = None"

definition agent_main ::
    "env \<Rightarrow> agent_opt list \<Rightarrow> sock list \<Rightarrow> world \<Rightarrow> ((nat \<times> sock list) \<times> world) option" where
  "agent_main env opts ss w =
     (case agent_opts opts None of
        None \<Rightarrow> Some ((1, []), w)
      | Some sock_path \<Rightarrow> run_agent env sock_path ss w)"

text \<open>So the path given with \<^verbatim>\<open>-s\<close> is never used.\<close>

lemma agent_path_ignored:
  "\<forall>opt \<in> set opts. opt = Opt_s None \<Longrightarrow> agent_main env opts ss w = run_agent env None ss w"
proof -
  assume "\<forall>opt \<in> set opts. opt = Opt_s None"
  then have "agent_opts opts None = Some None" by (induction opts) auto
  then show ?thesis by (simp add: agent_main_def)
qed

section \<open>Dispatch\<close>

text \<open>The handler of each message type; a response type is an unknown request.\<close>

fun handler :: "mtype \<Rightarrow> env \<Rightarrow> cptr \<Rightarrow> world \<Rightarrow> (cptr \<times> world) option" where
  "handler Memory_Attach = proto_attach_memory"
| "handler Memory_Detach = proto_detach_memory"
| "handler Compute_Attach = proto_attach_compute"
| "handler Compute_Detach = proto_detach_compute"
| "handler _ = set_unknown_mode_response"

lemma strncmp_type:
  assumes "length t = MSGTYPE_SIZE"
  shows "strncmp_eq t (lit (mtype_name k)) MSGTYPE_SIZE = Some (upto_nul t = cstr (mtype_name k))"
proof -
  have "upto_nul (take MSGTYPE_SIZE (lit (mtype_name k))) = cstr (mtype_name k)"
    using mtype_name_facts [of k] by (auto simp: lit_def upto_nul_append upto_nul_id take_Cons')
  then show ?thesis using assms by (subst strncmp_eq_iff) simp_all
qed

lemma select_handler_iff:
  assumes "length t = MSGTYPE_SIZE"
  shows "select_handler env t msg w =
     (if upto_nul t = cstr MEMORY_ATTACH then proto_attach_memory env msg w
      else if upto_nul t = cstr MEMORY_DETACH then proto_detach_memory env msg w
      else if upto_nul t = cstr COMPUTE_ATTACH then proto_attach_compute env msg w
      else if upto_nul t = cstr COMPUTE_DETACH then proto_detach_compute env msg w
      else set_unknown_mode_response env msg w)"
  using strncmp_type [OF assms, of Memory_Attach] strncmp_type [OF assms, of Memory_Detach]
    strncmp_type [OF assms, of Compute_Attach] strncmp_type [OF assms, of Compute_Detach]
  by (simp add: select_handler_def)

lemma select_handler_type:
  assumes "length t = MSGTYPE_SIZE" "upto_nul t = cstr (mtype_name k)"
  shows "select_handler env t msg w = handler k env msg w"
  unfolding select_handler_iff [OF assms(1)] assms(2)
  by (cases k) (simp_all add: cstr_def msgtype_defs)

text \<open>What is left of \<open>handle_request\<close> once the message is in.\<close>

lemma handle_request_read:
  assumes ok: "malloc_ok env" and rd: "read_message env s w = Some (msg, s1, w1)"
  shows "\<exists>m. is_msg m \<and> msg = Some m \<and> handle_request env s w = do {
     (r, w3) \<leftarrow> select_handler env (v_type (view m)) (Some m) (after_mallocs [MSG_SIZE, MSGTYPE_SIZE] w);
     (_, s2) \<leftarrow> write_message s1 r;
     Some (s2, free_buf r (w3\<lparr>nbufs := nbufs w3 - 2\<rparr>)) }"
proof -
  obtain m where m: "msg = Some m" "is_msg m" "w1 = after_mallocs [MSG_SIZE] w"
    using read_message_msg [OF rd] by blast
  have get: "mem_read CIRCUIT_ID_SIZE MSGTYPE_SIZE m = Some (v_type (view m))"
    using m(2) by (simp add: mem_read_def view_def get_at_def is_msg_def layout_defs)
  have put: "mem_write 0 (v_type (view m)) d = Some (v_type (view m))" if "length d = MSGTYPE_SIZE" for d
    using that view_lengths(2) [OF m(2)] by (simp add: mem_write_def put_at_all)
  have "handle_request env s w = do {
     (r, w3) \<leftarrow> select_handler env (v_type (view m)) (Some m) (after_mallocs [MSG_SIZE, MSGTYPE_SIZE] w);
     (_, s2) \<leftarrow> write_message s1 r;
     Some (s2, free_buf r (w3\<lparr>nbufs := nbufs w3 - 2\<rparr>)) }"
    unfolding handle_request_def rd m(1,3)
    by (simp add: malloc_after [OF ok] get put Let_def case_prod_beta)
  with m show ?thesis by blast
qed

lemma handle_request_eq:
  assumes "malloc_ok env" "is_msg m" "s_in s = Received m # as"
  shows "handle_request env s w = do {
     (r, w3) \<leftarrow> select_handler env (v_type (view m)) (Some m) (after_mallocs [MSG_SIZE, MSGTYPE_SIZE] w);
     (_, s2) \<leftarrow> write_message (s\<lparr>s_in := as\<rparr>) r;
     Some (s2, free_buf r (w3\<lparr>nbufs := nbufs w3 - 2\<rparr>)) }"
  using handle_request_read [OF assms(1) read_message_whole [OF assms]] by blast

section \<open>Requests as operations\<close>

definition is_request :: "mtype \<Rightarrow> bool" where
  "is_request k \<longleftrightarrow> k \<in> {Memory_Attach, Memory_Detach, Compute_Attach, Compute_Detach}"

text \<open>
  The operation a request stands for, on the fields of the message; \<open>u\<close> is the
  uninitialised local that receives the effective address.
\<close>

fun exec_request ::
    "mtype \<Rightarrow> env \<Rightarrow> msg_view \<Rightarrow> u64 \<Rightarrow> world \<Rightarrow> ((cint \<times> u64) \<times> world) option" where
  "exec_request Memory_Attach env v u w = do {
     ports \<leftarrow> unmarshal_iports (v_ports v);
     attach_memory env (Some (v_cid v @ [0])) (Some (v_afu v @ [0])) ports (v_size v) u w }"
| "exec_request Compute_Attach env v u w = do {
     ports \<leftarrow> unmarshal_iports (v_ports v);
     (rc, w') \<leftarrow> attach_compute env (Some (v_cid v @ [0])) (Some (v_afu v @ [0])) ports (v_ea v)
                 (v_size v) (v_nohp v) w;
     Some ((rc, u), w') }"
| "exec_request Memory_Detach env v u w = do {
     (rc, w') \<leftarrow> detach_memory env (Some (v_cid v @ [0])) w; Some ((rc, u), w') }"
| "exec_request Compute_Detach env v u w = do {
     (rc, w') \<leftarrow> detach_compute env (Some (v_cid v @ [0])) w; Some ((rc, u), w') }"
| "exec_request _ env v u w = None"

fun request_allocs :: "mtype \<Rightarrow> nat list" where
  "request_allocs Memory_Attach = [CIRCUIT_ID_SIZE + 1, AFUNAME_SIZE + 1]"
| "request_allocs Compute_Attach = [CIRCUIT_ID_SIZE + 1, AFUNAME_SIZE + 1]"
| "request_allocs _ = [MSG_SIZE, CIRCUIT_ID_SIZE + 1]"

fun response_name :: "mtype \<Rightarrow> string" where
  "response_name Memory_Attach = MRESPONSE_ATTACH"
| "response_name Compute_Attach = CRESPONSE_ATTACH"
| "response_name Memory_Detach = MRESPONSE_DETACH"
| "response_name _ = CRESPONSE_DETACH"

definition uninit_ea :: "env \<Rightarrow> mtype \<Rightarrow> world \<Rightarrow> u64" where
  "uninit_ea env k w = junk_word env (trace (after_mallocs (request_allocs k) w)) 0"

definition responds :: "mtype \<Rightarrow> msg_view \<Rightarrow> cint \<Rightarrow> u64 \<Rightarrow> bytes \<Rightarrow> bool" where
  "responds k v rc e r \<longleftrightarrow> is_msg r \<and> v_cid (view r) = v_cid v \<and>
     v_type (view r) = cstr (response_name k) \<and> v_status (view r) = rc \<and>
     (k = Memory_Attach \<and> e \<noteq> 0 \<longrightarrow> v_ea (view r) = e)"

lemma handler_spec:
  assumes ok: "malloc_ok env" "is_msg m" "is_request k"
    and op: "exec_request k env (view m) (uninit_ea env k w) (after_mallocs (request_allocs k) w) =
      Some ((rc, e), w3)"
  shows "\<exists>r w'. handler k env (Some m) w = Some (Some r, w') \<and> responds k (view m) rc e r \<and>
     heap w' = heap w3 \<and> clist w' = clist w3 \<and> live w' = live w3 \<and> nbufs w' = nbufs w3 - 1"
proof -
  obtain ports where ports: "unmarshal_iports (v_ports (view m)) = Some ports"
    using port_mask.decode_total by blast
  note specs = proto_attach_memory_spec [OF ok(1,2) ports, of w rc e w3]
    proto_attach_compute_spec [OF ok(1,2) ports, of w rc w3]
    proto_detach_memory_spec [OF ok(1,2), of w rc w3]
    proto_detach_compute_spec [OF ok(1,2), of w rc w3]
  from ok(3) consider "k = Memory_Attach" | "k = Memory_Detach" | "k = Compute_Attach"
    | "k = Compute_Detach" by (auto simp: is_request_def)
  then show ?thesis
  proof cases
    case 1
    then show ?thesis using specs(1) op ports by (auto simp: responds_def uninit_ea_def)
  next
    case 2
    then show ?thesis using specs(3) op by (auto simp: responds_def)
  next
    case 3
    then show ?thesis using specs(2) op ports by (auto simp: responds_def)
  next
    case 4
    then show ?thesis using specs(4) op by (auto simp: responds_def)
  qed
qed


text \<open>One request served, in the world the handler finds.\<close>

lemma handle_request_serves:
  assumes ok: "malloc_ok env" "is_msg m" "is_request k"
    and sock: "s_in s = Received m # as" "s_out s = Wrote MSG_SIZE # bs"
    and ty: "upto_nul (v_type (view m)) = cstr (mtype_name k)"
    and w0: "w0 = after_mallocs [MSG_SIZE, MSGTYPE_SIZE] w"
    and op: "exec_request k env (view m) (uninit_ea env k w0) (after_mallocs (request_allocs k) w0) =
      Some ((rc, e), w3)"
  shows "\<exists>r w'. handle_request env s w =
       Some (s\<lparr>s_in := as, s_out := bs, s_sent := s_sent s @ r\<rparr>, w') \<and>
     responds k (view m) rc e r \<and>
     heap w' = heap w3 \<and> clist w' = clist w3 \<and> live w' = live w3 \<and> nbufs w' = nbufs w3 - 4"
proof -
  obtain r w4 where h: "handler k env (Some m) w0 = Some (Some r, w4)" "responds k (view m) rc e r"
      "heap w4 = heap w3" "clist w4 = clist w3" "live w4 = live w3" "nbufs w4 = nbufs w3 - 1"
    using handler_spec [OF ok op] by blast
  have sel: "select_handler env (v_type (view m)) (Some m) w0 = Some (Some r, w4)"
    using select_handler_type [OF view_lengths(2) [OF ok(2)] ty] h(1) by simp
  have wr: "write_message (s\<lparr>s_in := as\<rparr>) (Some r) =
      Some (0, s\<lparr>s_in := as, s_out := bs, s_sent := s_sent s @ r\<rparr>)"
    using write_message_whole [of r "s\<lparr>s_in := as\<rparr>" bs] h(2) sock(2) by (simp add: responds_def)
  show ?thesis
    unfolding handle_request_eq [OF ok(1,2) sock(1)] w0 [symmetric] sel
    using wr h(2-6) by (intro exI [of _ r]) simp
qed

section \<open>Any request\<close>







lemma frame_inv: "heap w' = heap w \<Longrightarrow> clist w' = clist w \<Longrightarrow> reg_inv w' = reg_inv w"
  by (rule same_links_inv [OF same_links_refl])


lemma handle_unknown:
  assumes ok: "malloc_ok env" "is_msg m"
    and sock: "s_in s = Received m # as" "s_out s = Wrote MSG_SIZE # bs"
    and ty: "\<forall>k. is_request k \<longrightarrow> upto_nul (v_type (view m)) \<noteq> cstr (mtype_name k)"
  shows "\<exists>r w'. handle_request env s w =
      Some (s\<lparr>s_in := as, s_out := bs, s_sent := s_sent s @ r\<rparr>, w') \<and>
    is_msg r \<and> v_cid (view r) = v_cid (view m) \<and>
    v_status (view r) = v_status (view (raw_msg env (trace w @ [Malloc MSG_SIZE, Malloc MSGTYPE_SIZE]))) \<and>
    heap w' = heap w \<and> clist w' = clist w \<and> live w' = live w \<and> nbufs w' = nbufs w"
proof -
  let ?w = "after_mallocs [MSG_SIZE, MSGTYPE_SIZE] w"
  obtain r where r: "set_unknown_mode_response env (Some m) ?w = Some (Some r,
       (after_mallocs [MSG_SIZE, CIRCUIT_ID_SIZE + 1, AFUNAME_SIZE + 1] ?w)\<lparr>nbufs := nbufs ?w + 1\<rparr>)"
      "is_msg r" "view r = (view (raw_msg env (trace ?w)))\<lparr>v_cid := v_cid (view m),
       v_afu := (if hd (v_afu (view m)) = 0 then v_afu (view (raw_msg env (trace ?w)))
                 else v_afu (view m))\<rparr>"
    using unknown_mode_spec [OF ok, of ?w] by blast
  have "select_handler env (v_type (view m)) (Some m) ?w = set_unknown_mode_response env (Some m) ?w"
    using ty [rule_format, of Memory_Attach] ty [rule_format, of Memory_Detach]
      ty [rule_format, of Compute_Attach] ty [rule_format, of Compute_Detach]
    by (simp add: select_handler_iff [OF view_lengths(2) [OF ok(2)]] is_request_def)
  then show ?thesis
    unfolding handle_request_eq [OF ok sock(1)]
    using r write_message_whole [of r "s\<lparr>s_in := as\<rparr>" bs] sock(2)
    by (intro exI [of _ r]) simp
qed

lemma reg_inv_trace [simp]: "reg_inv (w\<lparr>trace := t\<rparr>) = reg_inv w"
  by (rule frame_inv) simp_all


text \<open>The last state of the loop is one of these, after an \<^verbatim>\<open>accept\<close> that failed.\<close>

lemma agent_loop_serving:
  "agent_loop env sfd ss w = Some ((code, served), w') \<Longrightarrow> agent_serving env sfd w0 w \<Longrightarrow>
   \<exists>u. agent_serving env sfd w0 u \<and> sys_rc env (Accept sfd) u = (-1, w')"
proof (induction ss arbitrary: w code served)
  case Nil
  then show ?case by (auto simp: Let_def split: if_splits)
next
  case (Cons s ss)
  obtain cfd w1 where acc: "sys_rc env (Accept sfd) w = (cfd, w1)" by fastforce
  show ?case
  proof (cases "cfd = -1")
    case True
    then show ?thesis using Cons.prems acc by (auto simp: Let_def simp del: sys_simps)
  next
    case False
    then obtain s' w2 served' where "handle_request env s w1 = Some (s', w2)"
        "agent_loop env sfd ss (snd (sys_rc env (Close cfd) w2)) = Some ((code, served'), w')"
      using Cons.prems(1) acc by (auto simp: Let_def simp del: sys_simps)
    then show ?thesis using Cons.IH agent_serving.serves [OF Cons.prems(2) acc False] by blast
  qed
qed



section \<open>Properties\<close>

text \<open>
  C1: the agent implements its protocol: a request of one of the four types performs
  exactly the operation its fields denote and is answered with one message of the matching
  response type that carries the circuit id of the request and the code of the operation
  (and the address of the memory, for an attachment of memory); the buffers of the request
  are released.
\<close>

theorem agent_serves:
  assumes "malloc_ok env" "is_msg m" "is_request k"
    and "s_in s = Received m # as" "s_out s = Wrote MSG_SIZE # bs"
    and "upto_nul (v_type (view m)) = cstr (mtype_name k)"
    and "w0 = after_mallocs [MSG_SIZE, MSGTYPE_SIZE] w"
    and "exec_request k env (view m) (uninit_ea env k w0) (after_mallocs (request_allocs k) w0) =
      Some ((rc, e), w3)"
  shows "\<exists>r w'. handle_request env s w =
       Some (s\<lparr>s_in := as, s_out := bs, s_sent := s_sent s @ r\<rparr>, w') \<and>
     responds k (view m) rc e r \<and>
     heap w' = heap w3 \<and> clist w' = clist w3 \<and> live w' = live w3 \<and> nbufs w' = nbufs w3 - 4"
  using assms by (rule handle_request_serves)

definition demo_request :: "mtype \<Rightarrow> bytes" where
  "demo_request k = unview \<lparr> v_cid = replicate 36 65, v_type = take 16 (lit (mtype_name k) @ [0, 0]),
     v_afu = 66 # replicate 255 0, v_ports = 2, v_size = 0x10000000, v_ea = 0x1000, v_nohp = 0,
     v_status = 0 \<rparr>"

lemma demo_request_facts:
  "is_msg (demo_request k)" "v_cid (view (demo_request k)) = replicate 36 65"
  "upto_nul (v_type (view (demo_request k))) = cstr (mtype_name k)"
  "v_afu (view (demo_request k)) = 66 # replicate 255 0"
proof -
  let ?v = "\<lparr> v_cid = replicate 36 65, v_type = take 16 (lit (mtype_name k) @ [0, 0]),
     v_afu = 66 # replicate 255 0, v_ports = 2, v_size = 0x10000000, v_ea = 0x1000, v_nohp = 0,
     v_status = 0 \<rparr>"
  have "view_ok ?v"
    by (cases k) (simp_all add: view_ok_def layout_defs lit_def cstr_def msgtype_defs)
  from view_unview [OF this] have v: "is_msg (demo_request k)" "view (demo_request k) = ?v"
    by (simp_all add: demo_request_def)
  have "upto_nul (take 16 (lit (mtype_name k) @ [0, 0])) = cstr (mtype_name k)"
    using mtype_name_facts [of k]
    by (auto simp: lit_def upto_nul_append upto_nul_id take_Cons' layout_defs)
  with v show "is_msg (demo_request k)" "v_cid (view (demo_request k)) = replicate 36 65"
    "upto_nul (v_type (view (demo_request k))) = cstr (mtype_name k)"
    "v_afu (view (demo_request k)) = 66 # replicate 255 0" by simp_all
qed

lemma ok_env_ext: "\<exists>x. ext (ok_env mk) tr c = (0, x) \<and> x \<noteq> 0"
  by (simp add: ok_env_def)

lemma ok_attach:
  assumes "heap w = Map.empty" "clist w = 0" "live w = []" "CIRCUIT_ID_SIZE \<le> length cid" "0 \<in> set nm"
  shows "\<exists>e w'. attach_memory (ok_env True) (Some cid) (Some nm) ports sz u w =
     Some ((ATTACH_OK, e), w') \<and> e \<noteq> 0"
proof -
  have reg: "reg_list w []" using assms(2) by (simp add: reg_list_def)
  obtain a where a: "ext (ok_env True) (trace w) (Malloc (conn_size (ok_env True))) = (0, a)" "a \<noteq> 0"
    using ok_env_ext by blast
  obtain w1 where w1: "register_conn (ok_env True) (Some cid) (Some nm) sz 0 w = Some (a, w1)"
  proof -
    have "heap w a = None" "AFUNAME_SIZE \<le> length nm \<or> 0 \<in> set nm" using assms(1,5) by simp_all
    from register_conn_defined [OF reg a this(1) assms(4) this(2)] that show thesis by blast
  qed
  obtain c where c: "heap w1 a = Some c" "live w1 = []"
    using register_conn_correct [OF reg w1] assms(3) by auto
  obtain p where p: "ext (ok_env True) (trace w1) (Posix_memalign CACHE_ALIGNMENT (drop_bit 20 256)) = (0, p)"
      "p \<noteq> 0" using ok_env_ext by blast
  have "mock (ok_env True)" by (simp add: ok_env_facts)
  with w1 c p show ?thesis by (simp add: attach_memory_def memalign_def Let_def)
qed

lemma agent_serves_witness:
  "\<exists>r w' e. handle_request (ok_env True)
      \<lparr> s_in = [Received (demo_request Memory_Attach)], s_out = [Wrote MSG_SIZE], s_sent = [] \<rparr> init_world =
     Some (\<lparr> s_in = [], s_out = [], s_sent = r \<rparr>, w') \<and> v_status (view r) = ATTACH_OK \<and>
     v_ea (view r) = e \<and> e \<noteq> 0"
proof -
  let ?m = "demo_request Memory_Attach"
  let ?w0 = "after_mallocs [MSG_SIZE, MSGTYPE_SIZE] init_world"
  let ?u = "uninit_ea (ok_env True) Memory_Attach ?w0"
  let ?w1 = "after_mallocs (request_allocs Memory_Attach) ?w0"
  have len: "CIRCUIT_ID_SIZE \<le> length (v_cid (view ?m) @ [0])"
    by (simp add: demo_request_facts layout_defs)
  obtain ports where ports: "unmarshal_iports (v_ports (view ?m)) = Some ports"
    using port_mask.decode_total by blast
  obtain e w3 where "attach_memory (ok_env True) (Some (v_cid (view ?m) @ [0]))
      (Some (v_afu (view ?m) @ [0])) ports (v_size (view ?m)) ?u ?w1 = Some ((ATTACH_OK, e), w3)" "e \<noteq> 0"
  proof -
    have "heap ?w1 = Map.empty" "clist ?w1 = 0" "live ?w1 = []" "0 \<in> set (v_afu (view ?m) @ [0])"
      by simp_all
    from ok_attach [OF this(1-3) len this(4)] that show thesis by blast
  qed
  with ports have op: "exec_request Memory_Attach (ok_env True) (view ?m) ?u ?w1 =
      Some ((ATTACH_OK, e), w3)" "e \<noteq> 0" by simp_all
  have "is_request Memory_Attach" by (simp add: is_request_def)
  from agent_serves [OF ok_env_facts(2) demo_request_facts(1) this _ _ demo_request_facts(3) refl op(1),
      of "\<lparr> s_in = [Received ?m], s_out = [Wrote MSG_SIZE], s_sent = [] \<rparr>" "[]" "[]"]
  show ?thesis using op(2) by (auto simp: responds_def)
qed




text \<open>
  a message of unknown type changes neither the registry nor the memory and leaks
  nothing, but it is answered, with an uninitialised status.
\<close>

theorem unknown_request_harmless:
  assumes "malloc_ok env" "is_msg m" "s_in s = Received m # as" "s_out s = Wrote MSG_SIZE # bs"
    and "\<forall>k. is_request k \<longrightarrow> upto_nul (v_type (view m)) \<noteq> cstr (mtype_name k)"
  shows "\<exists>r w'. handle_request env s w =
      Some (s\<lparr>s_in := as, s_out := bs, s_sent := s_sent s @ r\<rparr>, w') \<and>
    is_msg r \<and> v_cid (view r) = v_cid (view m) \<and>
    v_status (view r) = v_status (view (raw_msg env (trace w @ [Malloc MSG_SIZE, Malloc MSGTYPE_SIZE]))) \<and>
    heap w' = heap w \<and> clist w' = clist w \<and> live w' = live w \<and> nbufs w' = nbufs w"
  using assms by (rule handle_unknown)

lemma unknown_request_harmless_witness:
  "\<exists>r w'. handle_request (ok_env True) \<lparr> s_in = [Received (replicate 333 7)],
      s_out = [Wrote MSG_SIZE], s_sent = [] \<rparr> init_world =
     Some (\<lparr> s_in = [], s_out = [], s_sent = r \<rparr>, w') \<and> heap w' = Map.empty \<and> v_status (view r) = 0"
proof -
  have m: "is_msg (replicate 333 7)" by (simp add: is_msg_def layout_defs)
  have "v_type (view (replicate 333 7)) = replicate 16 7"
    by (simp add: view_def get_at_def layout_defs)
  then have ty: "\<forall>k. is_request k \<longrightarrow> upto_nul (v_type (view (replicate 333 7))) \<noteq> cstr (mtype_name k)"
    by (auto simp: is_request_def cstr_def msgtype_defs upto_nul_id dest!: arg_cong [of _ _ hd])
  from unknown_request_harmless [OF ok_env_facts(2) [of True] m _ _ ty,
      of "\<lparr> s_in = [Received (replicate 333 7)], s_out = [Wrote MSG_SIZE], s_sent = [] \<rparr>" "[]" "[]"
        init_world]
  show ?thesis using ok_env_junk(2) [of True] by auto
qed

end
