(* ===== verification/TFClient.thy ===== *)
theory TFClient imports TFAgent begin

text \<open>
  The client library \<^verbatim>\<open>libthymesisflow/src/client.c\<close> and the command line tool
  \<^verbatim>\<open>cmd/thymesisf-cli.c\<close>.  The client is a process of its own: it has its own environment,
  world and end of the connection.
\<close>

section \<open>The client library\<close>

text \<open>
  On a descriptor of -1 every \<^verbatim>\<open>write\<close> fails, so \<^verbatim>\<open>write_message\<close> does not return (see
  \<open>error_hangs\<close>).
\<close>

definition send_cmd ::
    "env \<Rightarrow> cptr \<Rightarrow> cptr \<Rightarrow> sock \<Rightarrow> world \<Rightarrow> (pmessage \<times> sock \<times> world) option" where
  "send_cmd env msg sock_path s w = do {
     (sfd, w1) \<leftarrow> open_client_connection env sock_path w;
     if sfd = -1 then None
     else do {
       (_, s1) \<leftarrow> write_message s msg;
       (_, rsp, s2, w2) \<leftarrow> read_pmessage env s1 w1;
       Some (rsp, s2, snd (sys_rc env (Close sfd) w2)) } }"

definition send_detach_memory_msg ::
    "env \<Rightarrow> cptr \<Rightarrow> cptr \<Rightarrow> sock \<Rightarrow> world \<Rightarrow> (pmessage \<times> sock \<times> world) option" where
  "send_detach_memory_msg env cid sock_path s w = do {
     (msg, w1) \<leftarrow> marshal_detach_memory_request env cid w;
     (rsp, s1, w2) \<leftarrow> send_cmd env msg sock_path s w1;
     Some (rsp, s1, free_buf msg w2) }"

definition send_detach_compute_msg ::
    "env \<Rightarrow> cptr \<Rightarrow> cptr \<Rightarrow> sock \<Rightarrow> world \<Rightarrow> (pmessage \<times> sock \<times> world) option" where
  "send_detach_compute_msg env cid sock_path s w = do {
     (msg, w1) \<leftarrow> marshal_detach_compute_request env cid w;
     (rsp, s1, w2) \<leftarrow> send_cmd env msg sock_path s w1;
     Some (rsp, s1, free_buf msg w2) }"

definition send_attach_memory_msg ::
    "env \<Rightarrow> cptr \<Rightarrow> cptr \<Rightarrow> iport_list \<Rightarrow> u64 \<Rightarrow> cptr \<Rightarrow> sock \<Rightarrow> world \<Rightarrow>
     (pmessage \<times> sock \<times> world) option" where
  "send_attach_memory_msg env cid afu_nm ports sz sock_path s w = do {
     (msg, w1) \<leftarrow> marshal_attach_memory_request env cid afu_nm ports sz w;
     (rsp, s1, w2) \<leftarrow> send_cmd env msg sock_path s w1;
     Some (rsp, s1, free_buf msg w2) }"

definition send_attach_compute_msg ::
    "env \<Rightarrow> cptr \<Rightarrow> cptr \<Rightarrow> iport_list \<Rightarrow> u64 \<Rightarrow> u64 \<Rightarrow> cint \<Rightarrow> cptr \<Rightarrow> sock \<Rightarrow> world \<Rightarrow>
     (pmessage \<times> sock \<times> world) option" where
  "send_attach_compute_msg env cid afu_nm ports sz eaddr nohp sock_path s w = do {
     (msg, w1) \<leftarrow> marshal_attach_compute_request env cid afu_nm ports sz eaddr nohp w;
     (rsp, s1, w2) \<leftarrow> send_cmd env msg sock_path s w1;
     Some (rsp, s1, free_buf msg w2) }"

section \<open>The command line tool\<close>

definition EXIT_FAILURE :: cint where "EXIT_FAILURE = 1"
definition AFU_PORT :: byte where "AFU_PORT = 2"

definition valid_mem_size :: "u64 \<Rightarrow> bool" where
  "valid_mem_size sz \<longleftrightarrow> sz mod MEMBLOCK_SIZE = 0"

text \<open>\<^verbatim>\<open>strcmp(p, "") == 0\<close>; the first argument is dereferenced.\<close>

definition is_empty :: "cptr \<Rightarrow> bool option" where
  "is_empty p = do { b \<leftarrow> p; strcmp_eq b (lit []) }"

text \<open>The guards are evaluated from left to right and stop at the first that holds.\<close>

definition memory_attach_guard :: "cptr \<Rightarrow> cptr \<Rightarrow> iport_list \<Rightarrow> u64 \<Rightarrow> bool option" where
  "memory_attach_guard cid afu_nm pl sz = (if cid = None then Some True else do {
     e \<leftarrow> is_empty cid;
     if e \<or> sz = 0 \<or> pl = PNull then Some True else is_empty afu_nm })"

definition compute_attach_guard :: "cptr \<Rightarrow> cptr \<Rightarrow> iport_list \<Rightarrow> u64 \<Rightarrow> u64 \<Rightarrow> bool option" where
  "compute_attach_guard cid afu_nm pl sz eaddr = (case cid of None \<Rightarrow> Some True | Some c \<Rightarrow> do {
     n \<leftarrow> strlen c;
     if n = 0 \<or> sz = 0 \<or> pl = PNull then Some True
     else (case afu_nm of None \<Rightarrow> Some True | Some a \<Rightarrow> do {
       k \<leftarrow> strlen a;
       Some (k = 0 \<or> eaddr = 0) }) })"

definition handle_memory_attach ::
    "env \<Rightarrow> cptr \<Rightarrow> cptr \<Rightarrow> iport_list \<Rightarrow> u64 \<Rightarrow> cptr \<Rightarrow> sock \<Rightarrow> world \<Rightarrow>
     (cint \<times> sock \<times> world) option" where
  "handle_memory_attach env cid afu_nm pl sz sock_path s w =
     do {
       reject \<leftarrow> memory_attach_guard cid afu_nm pl sz;
       if reject then Some (EXIT_FAILURE, s, w)
       else if \<not> valid_mem_size sz then Some (EXIT_FAILURE, s, w)
       else do {
         (mresp, s1, w1) \<leftarrow> send_attach_memory_msg env cid afu_nm pl sz sock_path s w;
         Some (if p_status mresp = 100 then 0 else 1, s1, w1) } }"

definition handle_compute_attach ::
    "env \<Rightarrow> cptr \<Rightarrow> cptr \<Rightarrow> iport_list \<Rightarrow> u64 \<Rightarrow> u64 \<Rightarrow> cptr \<Rightarrow> cint \<Rightarrow> sock \<Rightarrow> world \<Rightarrow>
     (cint \<times> sock \<times> world) option" where
  "handle_compute_attach env cid afu_nm pl sz eaddr sock_path nohp s w =
     do {
       reject \<leftarrow> compute_attach_guard cid afu_nm pl sz eaddr;
       if reject then Some (EXIT_FAILURE, s, w)
       else if \<not> valid_mem_size sz then Some (EXIT_FAILURE, s, w)
       else do {
         (cresp, s1, w1) \<leftarrow> send_attach_compute_msg env cid afu_nm pl sz eaddr nohp sock_path s w;
         Some (if p_status cresp = 100 then 0 else 1, s1, w1) } }"

definition handle_memory_detach ::
    "env \<Rightarrow> cptr \<Rightarrow> cptr \<Rightarrow> sock \<Rightarrow> world \<Rightarrow> (cint \<times> sock \<times> world) option" where
  "handle_memory_detach env cid sock_path s w =
     do {
       reject \<leftarrow> (if cid = None then Some True else is_empty cid);
       if reject then Some (1, s, w)
       else do {
         (mresp, s1, w1) \<leftarrow> send_detach_memory_msg env cid sock_path s w;
         Some (if p_status mresp = 200 then 0 else 1, s1, w1) } }"

definition handle_compute_detach ::
    "env \<Rightarrow> cptr \<Rightarrow> cptr \<Rightarrow> sock \<Rightarrow> world \<Rightarrow> (cint \<times> sock \<times> world) option" where
  "handle_compute_detach env cid sock_path s w =
     do {
       reject \<leftarrow> (if cid = None then Some True else is_empty cid);
       if reject then Some (1, s, w)
       else do {
         (mresp, s1, w1) \<leftarrow> send_detach_compute_msg env cid sock_path s w;
         Some (if p_status mresp = 200 then 0 else 1, s1, w1) } }"

datatype helper = Memory_attach_help | Memory_detach_help | Compute_attach_help
  | Compute_detach_help | Common_help

text \<open>Which usage text \<^verbatim>\<open>help\<close> prints; its first test lacks the comparison with 0.\<close>

definition cli_help :: "bytes \<Rightarrow> helper option" where
  "cli_help command = do {
     e1 \<leftarrow> strncmp_eq command (lit ''attach-memory'') MSGTYPE_SIZE;
     if \<not> e1 then Some Memory_attach_help else do {
     e2 \<leftarrow> strncmp_eq command (lit ''detach-memory'') MSGTYPE_SIZE;
     if e2 then Some Memory_detach_help else do {
     e3 \<leftarrow> strncmp_eq command (lit ''attach-compute'') MSGTYPE_SIZE;
     if e3 then Some Compute_attach_help else do {
     e4 \<leftarrow> strncmp_eq command (lit ''detach-compute'') MSGTYPE_SIZE;
     if e4 then Some Compute_detach_help else Some Common_help } } } }"

subsection \<open>Arguments\<close>

text \<open>\<^verbatim>\<open>strtoull\<close>: blanks, a sign, a prefix, digits of the base; saturates at the maximum.\<close>

definition digit_of :: "byte \<Rightarrow> nat option" where
  "digit_of b =
     (let n = unat b in
      if 48 \<le> n \<and> n \<le> 57 then Some (n - 48)
      else if 97 \<le> n \<and> n \<le> 122 then Some (n - 87)
      else if 65 \<le> n \<and> n \<le> 90 then Some (n - 55)
      else None)"

fun digits :: "nat \<Rightarrow> nat \<Rightarrow> bytes \<Rightarrow> nat" where
  "digits base acc [] = acc"
| "digits base acc (b # bs) =
     (case digit_of b of
        None \<Rightarrow> acc
      | Some d \<Rightarrow> if d < base then digits base (acc * base + d) bs else acc)"

definition is_blank :: "byte \<Rightarrow> bool" where
  "is_blank b \<longleftrightarrow> b = 32 \<or> (9 \<le> b \<and> b \<le> 13)"

definition hex_prefix :: "bytes \<Rightarrow> bool" where
  "hex_prefix bs \<longleftrightarrow> (case bs of z # x # d # _ \<Rightarrow>
     z = 48 \<and> (x = 120 \<or> x = 88) \<and> (case digit_of d of None \<Rightarrow> False | Some k \<Rightarrow> k < 16) | _ \<Rightarrow> False)"

definition strtoull_digits :: "nat \<Rightarrow> bytes \<Rightarrow> nat" where
  "strtoull_digits base bs =
     (if (base = 0 \<or> base = 16) \<and> hex_prefix bs then digits 16 0 (drop 2 bs)
      else if base = 0 then digits (if take 1 bs = [48] then 8 else 10) 0 bs
      else digits base 0 bs)"

definition strtoull :: "bytes \<Rightarrow> nat \<Rightarrow> u64" where
  "strtoull str base =
     (let t = dropWhile is_blank (upto_nul str);
          neg = (take 1 t = [45]);
          n = strtoull_digits base (if take 1 t = [45] \<or> take 1 t = [43] then drop 1 t else t) in
      if 2 ^ 64 \<le> n then -1 else if neg then - of_nat n else of_nat n)"

text \<open>What \<^verbatim>\<open>getopt_long\<close> reports, one value per turn of the loop.\<close>

datatype cli_opt = Opt_size bytes | Opt_afu bytes | Opt_ea bytes | Opt_cid bytes
  | Opt_no_hotplug | Opt_other

record cli_args =
  a_cid :: cptr
  a_afu :: cptr
  a_size :: u64
  a_ea :: u64
  a_no_hotplug :: cint

definition init_args :: cli_args where
  "init_args = \<lparr> a_cid = None, a_afu = None, a_size = 0, a_ea = 0, a_no_hotplug = 0 \<rparr>"

fun parse_opts :: "cli_opt list \<Rightarrow> cli_args \<Rightarrow> cli_args" where
  "parse_opts [] a = a"
| "parse_opts (Opt_size v # os) a = parse_opts os (a\<lparr>a_size := strtoull v 0\<rparr>)"
| "parse_opts (Opt_afu v # os) a = parse_opts os (a\<lparr>a_afu := Some v\<rparr>)"
| "parse_opts (Opt_ea v # os) a = parse_opts os (a\<lparr>a_ea := strtoull v 16\<rparr>)"
| "parse_opts (Opt_cid v # os) a = parse_opts os (a\<lparr>a_cid := Some v\<rparr>)"
| "parse_opts (Opt_no_hotplug # os) a = parse_opts os (a\<lparr>a_no_hotplug := 1\<rparr>)"
| "parse_opts (Opt_other # os) a = parse_opts os a"

text \<open>
  \<^verbatim>\<open>main\<close>: \<open>command\<close> is \<^verbatim>\<open>argv[1]\<close>, or \<open>None\<close> if there is none.  The path of the socket
  cannot be set, the port is fixed.  An unknown command prints the usage and returns 0.
\<close>

definition cli_main ::
    "env \<Rightarrow> bytes option \<Rightarrow> cli_opt list \<Rightarrow> sock \<Rightarrow> world \<Rightarrow> (cint \<times> sock \<times> world) option" where
  "cli_main env command opts s w =
     (case command of
        None \<Rightarrow> Some (1, s, w)
      | Some c \<Rightarrow>
          let a = parse_opts opts init_args;
              pl = add_port PNull AFU_PORT;
              sock_path = literal env SOCK_PATH in
          do {
            c1 \<leftarrow> strcmp_eq (lit ''attach-memory'') c;
            if c1 then handle_memory_attach env (a_cid a) (a_afu a) pl (a_size a) sock_path s w
            else do {
            c2 \<leftarrow> strcmp_eq (lit ''attach-compute'') c;
            if c2 then handle_compute_attach env (a_cid a) (a_afu a) pl (a_size a) (a_ea a) sock_path
                         (a_no_hotplug a) s w
            else do {
            c3 \<leftarrow> strcmp_eq (lit ''detach-memory'') c;
            if c3 then handle_memory_detach env (a_cid a) sock_path s w
            else do {
            c4 \<leftarrow> strcmp_eq (lit ''detach-compute'') c;
            if c4 then handle_compute_detach env (a_cid a) sock_path s w
            else Some (0, s, w) } } } })"

section \<open>One exchange\<close>

text \<open>An agent that accepts: no socket call fails.\<close>

definition sockets_ok :: "env \<Rightarrow> bool" where
  "sockets_ok env \<longleftrightarrow> (\<forall>tr fd sp. fst (ext env tr Socket) \<noteq> -1 \<and> fst (ext env tr (Connect fd sp)) \<noteq> -1)"

lemma open_ok:
  assumes "sockets_ok env" "0 \<in> set p" "hd p \<noteq> 0"
  shows "\<exists>sfd w'. open_client_connection env (Some p) w = Some (sfd, w') \<and> sfd \<noteq> -1 \<and>
     nbufs w' = nbufs w"
proof -
  have "upto_nul p \<noteq> []" using assms(2,3) by (cases p) auto
  then show ?thesis
    using assms strncpy_src_defined [of 107 p]
    by (simp add: open_client_connection_def strlen_iff sockets_ok_def Let_def)
qed

lemma send_cmd_spec:
  assumes "malloc_ok env" "sockets_ok env" "0 \<in> set p" "hd p \<noteq> 0" "is_msg m" "is_msg r"
    and "s_in s = [Received r]" "s_out s = [Wrote MSG_SIZE]"
  shows "\<exists>rsp w'. send_cmd env (Some m) (Some p) s w =
       Some (rsp, s\<lparr>s_in := [], s_out := [], s_sent := s_sent s @ m\<rparr>, w') \<and>
     p_status rsp = v_status (view r) \<and> p_ea rsp = v_ea (view r) \<and> nbufs w' = nbufs w"
proof -
  obtain sfd w1 where o: "open_client_connection env (Some p) w = Some (sfd, w1)" "sfd \<noteq> -1"
      "nbufs w1 = nbufs w" using open_ok [OF assms(2-4)] by blast
  let ?s1 = "s\<lparr>s_out := [], s_sent := s_sent s @ m\<rparr>"
  have wr: "write_message s (Some m) = Some (0, ?s1)"
    using write_message_whole [OF assms(5,8)] .
  have rd: "read_message env ?s1 w1 = Some (Some r, ?s1\<lparr>s_in := []\<rparr>, after_mallocs [MSG_SIZE] w1)"
    using read_message_whole [OF assms(1,6), of ?s1 "[]" w1] assms(7) by simp
  show ?thesis
    using o wr rd unmarshal_response_spec [OF assms(1,6), of "after_mallocs [MSG_SIZE] w1"]
    by (simp add: send_cmd_def read_pmessage_def)
qed

lemma upto_nul_type:
  assumes "MSGTYPE_SIZE \<le> length (lit (mtype_name k) @ bs)"
  shows "upto_nul (take MSGTYPE_SIZE (lit (mtype_name k) @ bs)) = cstr (mtype_name k)"
  using mtype_name_facts [of k]
  by (cases "length (cstr (mtype_name k)) = MSGTYPE_SIZE")
     (auto simp: lit_def upto_nul_append upto_nul_id take_Cons' split: if_splits)

lemma type_field_name:
  "rodata_ok env \<Longrightarrow> upto_nul (type_field env (mtype_name k)) = cstr (mtype_name k)"
  unfolding type_field_def
  using upto_nul_type mtype_name_in [of k] unfolding rodata_ok_def by blast

lemma is_empty_iff: "0 \<in> set b \<Longrightarrow> is_empty (Some b) = Some (hd b = 0)"
  by (cases b) (auto simp: is_empty_def strcmp_eq_iff lit_def cstr_def)

text \<open>Client and agent, each with its end of the connection: what one writes the other reads.\<close>

abbreviation reads :: "bytes \<Rightarrow> sock" where
  "reads m \<equiv> \<lparr> s_in = [Received m], s_out = [Wrote MSG_SIZE], s_sent = [] \<rparr>"

abbreviation sent :: "bytes \<Rightarrow> sock" where
  "sent m \<equiv> \<lparr> s_in = [], s_out = [], s_sent = m \<rparr>"

definition same_state :: "world \<Rightarrow> world \<Rightarrow> bool" where
  "same_state w w' \<longleftrightarrow> heap w' = heap w \<and> clist w' = clist w \<and> live w' = live w"

definition client_ok :: "env \<Rightarrow> bytes \<Rightarrow> bool" where
  "client_ok ce path \<longleftrightarrow> malloc_ok ce \<and> rodata_ok ce \<and> sockets_ok ce \<and> 0 \<in> set path \<and> hd path \<noteq> 0"

text \<open>The world in which the operation of a request runs.\<close>

definition op_world :: "mtype \<Rightarrow> world \<Rightarrow> world" where
  "op_world k w = after_mallocs (request_allocs k) (after_mallocs [MSG_SIZE, MSGTYPE_SIZE] w)"

definition op_ea :: "env \<Rightarrow> mtype \<Rightarrow> world \<Rightarrow> u64" where
  "op_ea ae k w = uninit_ea ae k (after_mallocs [MSG_SIZE, MSGTYPE_SIZE] w)"

lemma exchange:
  assumes client: "client_ok ce path" and agent: "malloc_ok ae"
    and m: "is_msg m" "is_request k" "v_type (view m) = type_field ce (mtype_name k)"
    and op: "exec_request k ae (view m) (op_ea ae k wa) (op_world k wa) = Some ((rc, e), w3)"
  shows "\<exists>r wa' rsp wc'. handle_request ae (reads m) wa = Some (sent r, wa') \<and> same_state w3 wa' \<and>
     send_cmd ce (Some m) (Some path) (reads r) wc = Some (rsp, sent m, wc') \<and> p_status rsp = rc \<and>
     (k = Memory_Attach \<and> e \<noteq> 0 \<longrightarrow> p_ea rsp = e) \<and> nbufs wc' = nbufs wc"
proof -
  have ty: "upto_nul (v_type (view m)) = cstr (mtype_name k)"
    using type_field_name client m(3) by (simp add: client_ok_def)
  obtain r wa' where r: "handle_request ae (reads m) wa = Some (sent r, wa')"
      "responds k (view m) rc e r" "same_state w3 wa'"
    using handle_request_serves [OF agent m(1,2) _ _ ty refl op [unfolded op_ea_def op_world_def], of "reads m" "[]" "[]"]
    by (auto simp: same_state_def)
  have isr: "is_msg r" "v_status (view r) = rc" "k = Memory_Attach \<and> e \<noteq> 0 \<longrightarrow> v_ea (view r) = e"
    using r(2) by (simp_all add: responds_def)
  have "malloc_ok ce" "sockets_ok ce" "0 \<in> set path" "hd path \<noteq> 0" using client by (simp_all add: client_ok_def)
  from send_cmd_spec [OF this m(1) isr(1), of "reads r" wc] isr r(1,3) show ?thesis by auto
qed

text \<open>The four requests.\<close>

lemma attach_memory_run:
  assumes client: "client_ok ce path" and agent: "malloc_ok ae"
    and args: "CIRCUIT_ID_SIZE \<le> length cid" "AFUNAME_SIZE \<le> length nm" "0 \<in> set nm" "hd nm \<noteq> 0"
      "marshal_iports pl = Some b" "unmarshal_iports b = Some ports" "sz \<noteq> 0" "valid_mem_size sz"
    and op: "attach_memory ae (Some (take CIRCUIT_ID_SIZE cid @ [0])) (Some (take AFUNAME_SIZE nm @ [0]))
      ports sz (op_ea ae Memory_Attach wa) (op_world Memory_Attach wa) = Some ((rc, e), w3)"
  shows "\<exists>m r wa' rsp wc'. handle_request ae (reads m) wa = Some (sent r, wa') \<and> same_state w3 wa' \<and>
     send_attach_memory_msg ce (Some cid) (Some nm) pl sz (Some path) (reads r) wc = Some (rsp, sent m, wc') \<and>
     p_status rsp = rc \<and> (e \<noteq> 0 \<longrightarrow> p_ea rsp = e) \<and> nbufs wc' = nbufs wc"
proof -
  obtain m where m: "marshal_attach_memory_request ce (Some cid) (Some nm) pl sz wc =
       Some (Some m, after_mallocs [MSG_SIZE] wc)" "is_msg m"
     "view m = snd (spec_ops [Set_circuitid cid, Set_msgtype (lit MEMORY_ATTACH @ rodata ce MEMORY_ATTACH),
       Set_afu nm, Set_iports pl, Set_size sz] (view (raw_msg ce (trace wc))))"
    using marshal_attach_memory_spec client args(1-3,5) unfolding client_ok_def by blast
  have v: "v_cid (view m) = take CIRCUIT_ID_SIZE cid" "v_type (view m) = type_field ce MEMORY_ATTACH"
      "v_afu (view m) = take AFUNAME_SIZE nm" "v_ports (view m) = b" "v_size (view m) = sz"
    using m(3) type_known [OF response_known(7)] args(4,5,7,8)
    by (simp_all add: type_field_def Let_def valid_mem_size_def)
  have "exec_request Memory_Attach ae (view m) (op_ea ae Memory_Attach wa) (op_world Memory_Attach wa) =
      Some ((rc, e), w3)" using op v args(6) by simp
  from exchange [OF client agent m(2) _ _ this, of "after_mallocs [MSG_SIZE] wc"] v(2) m(1)
  show ?thesis by (fastforce simp: is_request_def send_attach_memory_msg_def)
qed

lemma attach_compute_run:
  assumes client: "client_ok ce path" and agent: "malloc_ok ae"
    and args: "CIRCUIT_ID_SIZE \<le> length cid" "AFUNAME_SIZE \<le> length nm" "0 \<in> set nm" "hd nm \<noteq> 0"
      "marshal_iports pl = Some b" "unmarshal_iports b = Some ports" "sz \<noteq> 0" "valid_mem_size sz"
      "eaddr \<noteq> 0" "nohp = 0 \<or> nohp = 1"
    and op: "attach_compute ae (Some (take CIRCUIT_ID_SIZE cid @ [0])) (Some (take AFUNAME_SIZE nm @ [0]))
      ports eaddr sz nohp (op_world Compute_Attach wa) = Some (rc, w3)"
  shows "\<exists>m r wa' rsp wc'. handle_request ae (reads m) wa = Some (sent r, wa') \<and> same_state w3 wa' \<and>
     send_attach_compute_msg ce (Some cid) (Some nm) pl sz eaddr nohp (Some path) (reads r) wc =
       Some (rsp, sent m, wc') \<and> p_status rsp = rc \<and> nbufs wc' = nbufs wc"
proof -
  obtain m where m: "marshal_attach_compute_request ce (Some cid) (Some nm) pl sz eaddr nohp wc =
       Some (Some m, after_mallocs [MSG_SIZE] wc)" "is_msg m"
     "view m = snd (spec_ops [Set_circuitid cid, Set_msgtype (lit COMPUTE_ATTACH @ rodata ce COMPUTE_ATTACH),
       Set_afu nm, Set_iports pl, Set_size sz, Set_ea eaddr, Set_no_hotplug nohp] (view (raw_msg ce (trace wc))))"
    using marshal_attach_compute_spec client args(1-3,5) unfolding client_ok_def by blast
  have v: "v_cid (view m) = take CIRCUIT_ID_SIZE cid" "v_type (view m) = type_field ce COMPUTE_ATTACH"
      "v_afu (view m) = take AFUNAME_SIZE nm" "v_ports (view m) = b" "v_size (view m) = sz"
      "v_ea (view m) = eaddr" "v_nohp (view m) = nohp"
    using m(3) type_known [OF response_known(5)] args(4,5,7-10)
    by (auto simp: type_field_def Let_def valid_mem_size_def)
  have "exec_request Compute_Attach ae (view m) (op_ea ae Compute_Attach wa) (op_world Compute_Attach wa) =
      Some ((rc, op_ea ae Compute_Attach wa), w3)" using op v args(6) by simp
  from exchange [OF client agent m(2) _ _ this, of "after_mallocs [MSG_SIZE] wc"] v(2) m(1)
  show ?thesis by (fastforce simp: is_request_def send_attach_compute_msg_def)
qed

lemma detach_run:
  assumes client: "client_ok ce path" and agent: "malloc_ok ae" and cid: "CIRCUIT_ID_SIZE \<le> length cid"
  shows "detach_memory ae (Some (take CIRCUIT_ID_SIZE cid @ [0])) (op_world Memory_Detach wa) = Some (rc, w3) \<Longrightarrow>
    \<exists>m r wa' rsp wc'. handle_request ae (reads m) wa = Some (sent r, wa') \<and> same_state w3 wa' \<and>
     send_detach_memory_msg ce (Some cid) (Some path) (reads r) wc = Some (rsp, sent m, wc') \<and>
     p_status rsp = rc \<and> nbufs wc' = nbufs wc"
    and "detach_compute ae (Some (take CIRCUIT_ID_SIZE cid @ [0])) (op_world Compute_Detach wa) = Some (rc, w3) \<Longrightarrow>
    \<exists>m r wa' rsp wc'. handle_request ae (reads m) wa = Some (sent r, wa') \<and> same_state w3 wa' \<and>
     send_detach_compute_msg ce (Some cid) (Some path) (reads r) wc = Some (rsp, sent m, wc') \<and>
     p_status rsp = rc \<and> nbufs wc' = nbufs wc"
proof -
  have ok: "malloc_ok ce" "rodata_ok ce" using client by (simp_all add: client_ok_def)
  let ?w = "after_mallocs [MSG_SIZE] wc"
  {
    assume op: "detach_memory ae (Some (take CIRCUIT_ID_SIZE cid @ [0])) (op_world Memory_Detach wa) = Some (rc, w3)"
    obtain m where m: "marshal_detach_memory_request ce (Some cid) wc = Some (Some m, ?w)" "is_msg m"
        "v_cid (view m) = take CIRCUIT_ID_SIZE cid" "v_type (view m) = type_field ce MEMORY_DETACH"
      using marshal_detach_spec(1) [OF ok cid] by blast
    have "exec_request Memory_Detach ae (view m) (op_ea ae Memory_Detach wa) (op_world Memory_Detach wa) =
      Some ((rc, op_ea ae Memory_Detach wa), w3)" using op m(3) by simp
    from exchange [OF client agent m(2) _ _ this, of ?w] m(1,4)
    show "\<exists>m r wa' rsp wc'. handle_request ae (reads m) wa = Some (sent r, wa') \<and> same_state w3 wa' \<and>
       send_detach_memory_msg ce (Some cid) (Some path) (reads r) wc = Some (rsp, sent m, wc') \<and>
       p_status rsp = rc \<and> nbufs wc' = nbufs wc"
      by (fastforce simp: is_request_def send_detach_memory_msg_def)
  }
  {
    assume op: "detach_compute ae (Some (take CIRCUIT_ID_SIZE cid @ [0])) (op_world Compute_Detach wa) = Some (rc, w3)"
    obtain m where m: "marshal_detach_compute_request ce (Some cid) wc = Some (Some m, ?w)" "is_msg m"
        "v_cid (view m) = take CIRCUIT_ID_SIZE cid" "v_type (view m) = type_field ce COMPUTE_DETACH"
      using marshal_detach_spec(2) [OF ok cid] by blast
    have "exec_request Compute_Detach ae (view m) (op_ea ae Compute_Detach wa) (op_world Compute_Detach wa) =
      Some ((rc, op_ea ae Compute_Detach wa), w3)" using op m(3) by simp
    from exchange [OF client agent m(2) _ _ this, of ?w] m(1,4)
    show "\<exists>m r wa' rsp wc'. handle_request ae (reads m) wa = Some (sent r, wa') \<and> same_state w3 wa' \<and>
       send_detach_compute_msg ce (Some cid) (Some path) (reads r) wc = Some (rsp, sent m, wc') \<and>
       p_status rsp = rc \<and> nbufs wc' = nbufs wc"
      by (fastforce simp: is_request_def send_detach_compute_msg_def)
  }
qed

section \<open>Numbers on the command line\<close>

text \<open>What printing a number to a base from 2 on gives, and what reading it back does.\<close>

lemma cstr_append: "cstr (s @ t) = cstr s @ cstr t"
  by (simp add: cstr_def)

lemma radix_bytes:
  assumes unfold: "\<And>n. f n = (if n < b then [c n] else f (n div b) @ [c (n mod b)])"
    and digit: "\<And>d. d < b \<Longrightarrow> digit_of (of_char (c d)) = Some d" and base: "2 \<le> b"
  shows "\<exists>d ds. cstr (f n) = of_char (c d) # ds \<and> d < b \<and> (0 < n \<longrightarrow> 0 < d) \<and> 0 \<notin> set (cstr (f n)) \<and>
     (\<forall>acc bs. digits b acc (cstr (f n) @ bs) = digits b (acc * b ^ length (cstr (f n)) + n) bs)"
proof (induction n rule: less_induct)
  case (less n)
  have nz: "of_char (c d) \<noteq> (0 :: byte)" if "d < b" for d
    using digit [OF that] by (auto simp: digit_of_def Let_def split: if_splits)
  show ?case
  proof (cases "n < b")
    case True
    then have "cstr (f n) = [of_char (c n)]" by (subst unfold) (simp add: cstr_def)
    then show ?thesis using True nz [OF True] digit [OF True] by (intro exI [of _ n] exI [of _ "[]"]) simp
  next
    case False
    have m: "n mod b < b" and less': "n div b < n" "0 < n div b"
      using base False by (simp_all add: div_greater_zero_iff)
    have c: "cstr (f n) = cstr (f (n div b)) @ [of_char (c (n mod b))]"
      using False by (subst unfold) (simp add: cstr_def)
    from less [OF less'(1)] obtain d ds where IH: "cstr (f (n div b)) = of_char (c d) # ds" "d < b"
        "0 < n div b \<longrightarrow> 0 < d" "0 \<notin> set (cstr (f (n div b)))"
        "\<forall>acc bs. digits b acc (cstr (f (n div b)) @ bs) =
          digits b (acc * b ^ length (cstr (f (n div b))) + n div b) bs"
      by (elim exE conjE) (rule that)
    have "digits b acc (cstr (f n) @ bs) = digits b (acc * b ^ length (cstr (f n)) + n) bs" for acc bs
    proof -
      have "(acc * b ^ length (cstr (f (n div b))) + n div b) * b + n mod b =
          acc * b ^ Suc (length (cstr (f (n div b)))) + n"
        by (simp add: algebra_simps)
      then show ?thesis
        unfolding c using IH(5) digit [OF m] m by (simp add: ac_simps)
    qed
    then show ?thesis
      using IH(1-4) nz [OF m] less'(2) unfolding c by auto
  qed
qed

lemma decimal_digit: "d < 10 \<Longrightarrow> digit_of (of_char (char_of (48 + d))) = Some d"
proof -
  assume d: "d < 10"
  have "of_char (char_of (48 + d) :: char) = (of_nat (of_char (char_of (48 + d) :: char)) :: byte)"
    by (simp only: of_nat_of_char)
  also have "of_char (char_of (48 + d) :: char) = 48 + d" using d by simp
  finally have "unat (of_char (char_of (48 + d) :: char) :: byte) = 48 + d"
    using d by (simp only: unat_of_nat) simp
  with d show ?thesis by (simp add: digit_of_def)
qed

lemma hex_digit: "d < 16 \<Longrightarrow> digit_of (of_char (hex_digits ! d)) = Some d"
  by (simp add: hex_digits_def digit_of_def less_Suc_eq numeral_eq_Suc) (elim disjE; simp)

lemmas decimal_bytes = radix_bytes [OF decimal.simps decimal_digit, simplified]
lemmas hex_bytes = radix_bytes [OF hex.simps hex_digit, simplified]

lemma strtoull_hex_lemma:
  assumes "n < 2 ^ 64"
  shows "strtoull (lit (''0x'' @ hex n)) 16 = of_nat n"
proof -
  obtain d ds where d: "cstr (hex n) = of_char (hex_digits ! d) # ds" "d < 16" "0 \<notin> set (cstr (hex n))"
      "digits 16 0 (cstr (hex n) @ []) = digits 16 (0 * 16 ^ length (cstr (hex n)) + n) []"
    using hex_bytes [of n] by blast
  have z: "of_char CHR ''0'' = (48 :: byte)" "of_char CHR ''x'' = (120 :: byte)" by simp_all
  have c: "cstr (''0x'' @ hex n) = 48 # 120 # cstr (hex n)" by (simp add: cstr_def z)
  then have s: "upto_nul (lit (''0x'' @ hex n)) = 48 # 120 # cstr (hex n)"
    using upto_nul_lit [of "''0x'' @ hex n"] d(3) by simp
  have "hex_prefix (48 # 120 # cstr (hex n))"
    using d(1,2) hex_digit [OF d(2)] by (simp add: hex_prefix_def)
  then show ?thesis
    unfolding strtoull_def s
    using d(4) assms by (simp add: is_blank_def strtoull_digits_def Let_def)
qed

section \<open>Properties\<close>

text \<open>
  the tool reads the sizes it is given in decimal: \<^verbatim>\<open>strtoull\<close> in base 0 inverts
  \<^verbatim>\<open>%lu\<close> on every positive 64-bit number.
\<close>

theorem strtoull_decimal:
  assumes "0 < n" "n < 2 ^ 64"
  shows "strtoull (lit (decimal n)) 0 = of_nat n"
proof -
  obtain d ds where d: "cstr (decimal n) = of_char (char_of (48 + d :: nat)) # ds" "d < 10" "0 < d"
      "0 \<notin> set (cstr (decimal n))"
      "digits 10 0 (cstr (decimal n) @ []) = digits 10 (0 * 10 ^ length (cstr (decimal n)) + n) []"
    using decimal_bytes [of n] assms(1) by blast
  let ?c = "of_char (char_of (48 + d)) :: byte"
  have val: "digits 10 0 (?c # ds) = n" using d(5) d(1) by simp
  have u: "digit_of ?c = Some d" by (rule decimal_digit [OF d(2)])
  have ne: "?c \<noteq> 45" "?c \<noteq> 43" "?c \<noteq> 48" "\<not> is_blank ?c"
    using u d(3) by (auto simp: digit_of_def is_blank_def word_le_nat_alt Let_def split: if_splits)
  have s: "upto_nul (lit (decimal n)) = ?c # ds"
    using upto_nul_lit [OF d(4)] d(1) by simp
  have "\<not> hex_prefix (?c # ds)" using ne(3) by (auto simp: hex_prefix_def split: list.splits)
  then show ?thesis
    unfolding strtoull_def s
    using ne val assms(2) by (simp add: strtoull_digits_def Let_def)
qed

lemma strtoull_decimal_witness: "strtoull (lit (decimal 268435456)) 0 = 0x10000000"
  using strtoull_decimal [of 268435456] by simp

text \<open>
  C12: the whole way of an attachment of memory, from the command line tool through the
  agent and back: the tool sends one message, the agent serves it by attaching memory with
  exactly the tool's arguments, and the tool exits with 0 if and only if the attachment
  returned \<^verbatim>\<open>ATTACH_OK\<close>.
\<close>

theorem attach_memory_end_to_end:
  assumes client: "malloc_ok ce" "rodata_ok ce" "sockets_ok ce" "0 \<in> set path" "hd path \<noteq> 0"
    and agent: "malloc_ok ae"
    and args: "CIRCUIT_ID_SIZE \<le> length cid" "0 \<in> set cid" "hd cid \<noteq> 0"
      "AFUNAME_SIZE \<le> length nm" "0 \<in> set nm" "hd nm \<noteq> 0"
      "marshal_iports pl = Some b" "pl \<noteq> PNull" "unmarshal_iports b = Some ports"
      "sz \<noteq> 0" "valid_mem_size sz"
    and w0: "w0 = after_mallocs [MSG_SIZE, MSGTYPE_SIZE] wa"
    and op: "attach_memory ae (Some (take CIRCUIT_ID_SIZE cid @ [0])) (Some (take AFUNAME_SIZE nm @ [0]))
      ports sz (uninit_ea ae Memory_Attach w0)
      (after_mallocs (request_allocs Memory_Attach) w0) = Some ((rc, e), w3)"
  shows "\<exists>m r wa' wc'.
     handle_request ae \<lparr> s_in = [Received m], s_out = [Wrote MSG_SIZE], s_sent = [] \<rparr> wa =
       Some (\<lparr> s_in = [], s_out = [], s_sent = r \<rparr>, wa') \<and>
     heap wa' = heap w3 \<and> clist wa' = clist w3 \<and> live wa' = live w3 \<and>
     handle_memory_attach ce (Some cid) (Some nm) pl sz (Some path)
       \<lparr> s_in = [Received r], s_out = [Wrote MSG_SIZE], s_sent = [] \<rparr> wc =
       Some (if rc = ATTACH_OK then 0 else 1, \<lparr> s_in = [], s_out = [], s_sent = m \<rparr>, wc') \<and>
     nbufs wc' = nbufs wc"
proof -
  have ok: "client_ok ce path" using client by (simp add: client_ok_def)
  from attach_memory_run [OF ok agent args(1,4-7,9-11) op [unfolded w0, folded op_ea_def op_world_def], of wc]
  obtain m r wa' rsp wc' where x: "handle_request ae (reads m) wa = Some (sent r, wa')" "same_state w3 wa'"
      "send_attach_memory_msg ce (Some cid) (Some nm) pl sz (Some path) (reads r) wc = Some (rsp, sent m, wc')"
      "p_status rsp = rc" "nbufs wc' = nbufs wc" by blast
  have "handle_memory_attach ce (Some cid) (Some nm) pl sz (Some path) (reads r) wc =
      Some (if rc = ATTACH_OK then 0 else 1, sent m, wc')"
    using args x(3,4) by (simp add: handle_memory_attach_def memory_attach_guard_def is_empty_iff ATTACH_OK_def)
  then show ?thesis using x(1,2,5) by (intro exI [of _ m] exI [of _ r]) (simp add: same_state_def)
qed

definition demo_path :: bytes where
  "demo_path = [47, 97, 0]"

lemma demo_client:
  "malloc_ok (ok_env True)" "rodata_ok (ok_env True)" "sockets_ok (ok_env True)"
  "0 \<in> set demo_path" "hd demo_path \<noteq> 0"
  "CIRCUIT_ID_SIZE \<le> length demo_cid" "0 \<in> set demo_cid" "hd demo_cid \<noteq> 0"
  "AFUNAME_SIZE \<le> length demo_afu" "0 \<in> set demo_afu" "hd demo_afu \<noteq> 0"
  using ok_env_facts(2,3) [of True]
  by (simp_all add: sockets_ok_def ok_env_def demo_path_def demo_cid_def demo_afu_def layout_defs)

lemma attach_memory_end_to_end_witness:
  "\<exists>m r wa' wc'.
     handle_request (ok_env True) \<lparr> s_in = [Received m], s_out = [Wrote MSG_SIZE], s_sent = [] \<rparr> init_world =
       Some (\<lparr> s_in = [], s_out = [], s_sent = r \<rparr>, wa') \<and>
     handle_memory_attach (ok_env True) (Some demo_cid) (Some demo_afu) (Port 1 PNull) 0x10000000
       (Some demo_path) \<lparr> s_in = [Received r], s_out = [Wrote MSG_SIZE], s_sent = [] \<rparr> init_world =
       Some (0, \<lparr> s_in = [], s_out = [], s_sent = m \<rparr>, wc')"
proof -
  let ?w0 = "after_mallocs [MSG_SIZE, MSGTYPE_SIZE] init_world"
  let ?w1 = "after_mallocs (request_allocs Memory_Attach) ?w0"
  obtain ports where ports: "unmarshal_iports 1 = Some ports"
    using port_mask.decode_total by blast
  have len: "CIRCUIT_ID_SIZE \<le> length (take CIRCUIT_ID_SIZE demo_cid @ [0])"
    by (simp add: demo_cid_def layout_defs)
  have w1: "heap ?w1 = Map.empty" "clist ?w1 = 0" "live ?w1 = []" by simp_all
  have nul: "0 \<in> set (take AFUNAME_SIZE demo_afu @ [0])" by simp
  obtain e w3 where op: "attach_memory (ok_env True) (Some (take CIRCUIT_ID_SIZE demo_cid @ [0]))
      (Some (take AFUNAME_SIZE demo_afu @ [0])) ports 0x10000000
      (uninit_ea (ok_env True) Memory_Attach ?w0) ?w1 = Some ((ATTACH_OK, e), w3)"
    using ok_attach [OF w1 len nul] by blast
  have sz: "(0x10000000 :: u64) \<noteq> 0" "valid_mem_size 0x10000000"
    by (simp_all add: valid_mem_size_def MEMBLOCK_SIZE_def)
  have pl: "Port 1 PNull \<noteq> PNull" by simp
  from attach_memory_end_to_end [OF demo_client(1-5) demo_client(1) demo_client(6-11) demo_port pl ports
      sz refl op, of init_world]
  show ?thesis by auto
qed

text \<open>
  C20: the whole way of a detachment of memory, from the tool through the agent and back:
  the agent detaches the tool's circuit, and the tool exits with 0 if and only if the
  detachment returned \<^verbatim>\<open>DETACH_OK\<close>.
\<close>

theorem detach_memory_end_to_end:
  assumes client: "malloc_ok ce" "rodata_ok ce" "sockets_ok ce" "0 \<in> set path" "hd path \<noteq> 0"
    and agent: "malloc_ok ae"
    and args: "CIRCUIT_ID_SIZE \<le> length cid" "0 \<in> set cid" "hd cid \<noteq> 0"
    and w0: "w0 = after_mallocs [MSG_SIZE, MSGTYPE_SIZE] wa"
    and op: "detach_memory ae (Some (take CIRCUIT_ID_SIZE cid @ [0]))
      (after_mallocs (request_allocs Memory_Detach) w0) = Some (rc, w3)"
  shows "\<exists>m r wa' wc'.
     handle_request ae \<lparr> s_in = [Received m], s_out = [Wrote MSG_SIZE], s_sent = [] \<rparr> wa =
       Some (\<lparr> s_in = [], s_out = [], s_sent = r \<rparr>, wa') \<and>
     heap wa' = heap w3 \<and> clist wa' = clist w3 \<and> live wa' = live w3 \<and>
     handle_memory_detach ce (Some cid) (Some path)
       \<lparr> s_in = [Received r], s_out = [Wrote MSG_SIZE], s_sent = [] \<rparr> wc =
       Some (if rc = DETACH_OK then 0 else 1, \<lparr> s_in = [], s_out = [], s_sent = m \<rparr>, wc') \<and>
     nbufs wc' = nbufs wc"
proof -
  have ok: "client_ok ce path" using client by (simp add: client_ok_def)
  from detach_run(1) [OF ok agent args(1) op [unfolded w0, folded op_world_def], of wc]
  obtain m r wa' rsp wc' where x: "handle_request ae (reads m) wa = Some (sent r, wa')" "same_state w3 wa'"
      "send_detach_memory_msg ce (Some cid) (Some path) (reads r) wc = Some (rsp, sent m, wc')"
      "p_status rsp = rc" "nbufs wc' = nbufs wc" by blast
  have "handle_memory_detach ce (Some cid) (Some path) (reads r) wc =
      Some (if rc = DETACH_OK then 0 else 1, sent m, wc')"
    using args x(3,4) by (simp add: handle_memory_detach_def is_empty_iff DETACH_OK_def)
  then show ?thesis using x(1,2,5) by (intro exI [of _ m] exI [of _ r]) (simp add: same_state_def)
qed

lemma detach_memory_end_to_end_witness:
  "\<exists>m r wa' wc'.
     handle_request (ok_env True) \<lparr> s_in = [Received m], s_out = [Wrote MSG_SIZE], s_sent = [] \<rparr> init_world =
       Some (\<lparr> s_in = [], s_out = [], s_sent = r \<rparr>, wa') \<and>
     handle_memory_detach (ok_env True) (Some demo_cid) (Some demo_path)
       \<lparr> s_in = [Received r], s_out = [Wrote MSG_SIZE], s_sent = [] \<rparr> init_world =
       Some (1, \<lparr> s_in = [], s_out = [], s_sent = m \<rparr>, wc')"
proof -
  let ?w0 = "after_mallocs [MSG_SIZE, MSGTYPE_SIZE] init_world"
  let ?w1 = "after_mallocs (request_allocs Memory_Detach) ?w0"
  have "reg_list ?w1 []" by (simp add: reg_list_def)
  moreover have "CIRCUIT_ID_SIZE \<le> length (take CIRCUIT_ID_SIZE demo_cid @ [0])"
    by (simp add: demo_cid_def layout_defs)
  ultimately have op: "detach_memory (ok_env True) (Some (take CIRCUIT_ID_SIZE demo_cid @ [0])) ?w1 =
      Some (ERR_MISSING_CID, ?w1)"
    by (rule detach_memory_absent) simp
  have "ERR_MISSING_CID \<noteq> DETACH_OK" by (simp add: err_defs)
  with detach_memory_end_to_end [OF demo_client(1-5) demo_client(1) demo_client(6-8) refl op, of init_world]
  show ?thesis by auto
qed

text \<open>
  the guards of the tool: a compute attachment with a missing or empty circuit id or
  AFU name, a size that is 0 or no multiple of the block size, or address 0 exits with
  \<^verbatim>\<open>EXIT_FAILURE\<close> and sends nothing.
\<close>

theorem compute_attach_guards:
  assumes "\<forall>c. cid = Some c \<longrightarrow> 0 \<in> set c" "\<forall>a. nm = Some a \<longrightarrow> 0 \<in> set a"
    and "cid = None \<or> map_option hd cid = Some 0 \<or> nm = None \<or> map_option hd nm = Some 0 \<or>
      sz = 0 \<or> \<not> valid_mem_size sz \<or> e = 0"
  shows "handle_compute_attach env cid nm pl sz e path nohp s w = Some (EXIT_FAILURE, s, w)"
proof -
  have "length (upto_nul c) = 0 \<longleftrightarrow> hd c = 0" if "0 \<in> set c" for c :: bytes
    using that by (cases c) auto
  then show ?thesis
    using assms
    by (cases cid; cases nm) (auto simp: handle_compute_attach_def compute_attach_guard_def strlen_iff)
qed

lemma compute_attach_guards_witness:
  "handle_compute_attach (ok_env True) (Some demo_cid) (Some demo_afu) (Port 1 PNull) 5 4096
     (Some demo_path) 0 \<lparr> s_in = [], s_out = [], s_sent = [] \<rparr> init_world =
   Some (EXIT_FAILURE, \<lparr> s_in = [], s_out = [], s_sent = [] \<rparr>, init_world)"
  using demo_client
  by (intro compute_attach_guards) (auto simp: valid_mem_size_def MEMBLOCK_SIZE_def)

text \<open>
  without an agent the tool does not report an error: it never returns, because the
  descriptor of the failed connection is used and the write loop has no exit.
\<close>

theorem no_agent_hangs:
  assumes "\<forall>tr. fst (ext env tr Socket) = -1" "0 \<in> set path" "hd path \<noteq> 0" "0 \<in> set cid" "hd cid \<noteq> 0"
  shows "handle_memory_detach env (Some cid) (Some path) s w = None"
proof -
  have "upto_nul path \<noteq> []" using assms(2,3) by (cases path) auto
  then have "open_client_connection env (Some path) w1 = Some (-1, w1\<lparr>trace := trace w1 @ [Socket]\<rparr>)" for w1
    using assms(1,2) by (simp add: open_client_connection_def strlen_iff)
  then have "send_cmd env msg (Some path) s w1 = None" for msg w1
    by (simp add: send_cmd_def)
  then have "send_detach_memory_msg env (Some cid) (Some path) s w = None"
    by (cases "marshal_detach_memory_request env (Some cid) w")
       (auto simp: send_detach_memory_msg_def)
  then show ?thesis
    using assms(4,5) by (simp add: handle_memory_detach_def is_empty_iff)
qed

definition no_socket_env :: env where
  "no_socket_env = (ok_env True)\<lparr>ext := (\<lambda>tr c. (-1, 64))\<rparr>"

lemma no_agent_hangs_witness:
  "handle_memory_detach no_socket_env (Some demo_cid) (Some demo_path)
     \<lparr> s_in = [], s_out = [], s_sent = [] \<rparr> init_world = None"
  by (rule no_agent_hangs) (simp_all add: no_socket_env_def demo_client)

text \<open>
  the usage selector is wrong for every command but one: it shows the help of
  attach-memory for each command that is not attach-memory, and the common help for
  attach-memory itself.
\<close>

theorem cli_help_inverted:
  "cli_help (lit ''attach-memory'') = Some Common_help \<and>
   cli_help (lit ''detach-memory'') = Some Memory_attach_help \<and>
   cli_help (lit ''attach-compute'') = Some Memory_attach_help \<and>
   cli_help (lit ''detach-compute'') = Some Memory_attach_help"
proof -
  have cmp: "strncmp_eq (lit a) (lit b) MSGTYPE_SIZE =
      Some (upto_nul (take 16 (lit a)) = upto_nul (take 16 (lit b)))" for a b
    by (subst strncmp_eq_iff) (simp_all add: layout_defs)
  show ?thesis
    unfolding cli_help_def cmp by (simp add: lit_def cstr_def)
qed

end
