(* ===== verification/TFPortMem.thy ===== *)
theory TFPortMem imports TFPort begin

text \<open>
  The port lists of \<^verbatim>\<open>libthymesisflow/src/iport.c\<close> in memory: nodes are allocated, linked,
  walked and freed.  \<open>TFPort\<close> models the same functions on lists; here they are shown to
  refine that model, without a leak and without a dangling access.
\<close>

section \<open>Model\<close>

text \<open>
  The nodes in use (\<^verbatim>\<open>struct port_s\<close>: \<open>nport\<close> and \<open>next\<close>) and the number of \<^verbatim>\<open>malloc\<close>
  calls made; \<open>alloc k\<close> is what the \<open>k\<close>-th call answers.
\<close>

record pmem =
  nodes :: "u64 \<Rightarrow> (cint \<times> u64) option"
  mallocs :: nat

definition init_pmem :: pmem where
  "init_pmem = \<lparr> nodes = Map.empty, mallocs = 0 \<rparr>"

text \<open>
  A node is allocated and both fields are stored.  \<^verbatim>\<open>NULL\<close> is not tested, so it is
  dereferenced; a block in use is not an answer of \<^verbatim>\<open>malloc\<close>.
\<close>

definition new_port :: "(nat \<Rightarrow> u64) \<Rightarrow> cint \<Rightarrow> u64 \<Rightarrow> pmem \<Rightarrow> (u64 \<times> pmem) option" where
  "new_port alloc n nxt m =
     (let p = alloc (mallocs m) in
      if p = 0 \<or> nodes m p \<noteq> None then None
      else Some (p, \<lparr> nodes = (nodes m)(p \<mapsto> (n, nxt)), mallocs = Suc (mallocs m) \<rparr>))"

definition add_port_m :: "(nat \<Rightarrow> u64) \<Rightarrow> u64 \<Rightarrow> byte \<Rightarrow> pmem \<Rightarrow> (u64 \<times> pmem) option" where
  "add_port_m alloc pl port_number m =
     (if pl = 0 then new_port alloc (ucast port_number) 0 m
      else new_port alloc (ucast port_number) pl m)"

partial_function (option) free_iport_list :: "u64 \<Rightarrow> pmem \<Rightarrow> pmem option" where
  "free_iport_list pl m =
     (if pl \<noteq> 0 then do {
        (_, pl_next) \<leftarrow> nodes m pl;
        free_iport_list pl_next (m\<lparr>nodes := (nodes m)(pl := None)\<rparr>) }
      else Some m)"

partial_function (option) marshal_loop_m :: "pmem \<Rightarrow> byte \<Rightarrow> u64 \<Rightarrow> byte option" where
  "marshal_loop_m m port_rep plrunner =
     (if plrunner \<noteq> 0 then do {
        (n, nxt) \<leftarrow> nodes m plrunner;
        b \<leftarrow> shl_one (n - 1);
        marshal_loop_m m (port_rep + ucast b) nxt }
      else Some port_rep)"

definition marshal_iports_m :: "u64 \<Rightarrow> pmem \<Rightarrow> byte option" where
  "marshal_iports_m pl m = marshal_loop_m m 0 pl"

partial_function (option) unmarshal_loop_m ::
    "(nat \<Rightarrow> u64) \<Rightarrow> byte \<Rightarrow> byte \<Rightarrow> byte \<Rightarrow> u64 \<Rightarrow> pmem \<Rightarrow> (u64 \<times> pmem) option" where
  "unmarshal_loop_m alloc n i pos pl m =
     (if i \<noteq> 0 then do {
        (pl', m') \<leftarrow> (if i AND n \<noteq> 0 then add_port_m alloc pl pos m else Some (pl, m));
        unmarshal_loop_m alloc n (push_bit 1 i) (pos + 1) pl' m' }
      else Some (pl, m))"

definition unmarshal_iports_m :: "(nat \<Rightarrow> u64) \<Rightarrow> byte \<Rightarrow> pmem \<Rightarrow> (u64 \<times> pmem) option" where
  "unmarshal_iports_m alloc n m = unmarshal_loop_m alloc n 1 1 0 m"

text \<open>\<open>cycle_ports\<close> prints one line for each port; the result is the numbers printed.\<close>

partial_function (option) cycle_ports :: "pmem \<Rightarrow> u64 \<Rightarrow> cint list option" where
  "cycle_ports m plrunner =
     (if plrunner \<noteq> 0 then do {
        (n, nxt) \<leftarrow> nodes m plrunner;
        rest \<leftarrow> cycle_ports m nxt;
        Some (n # rest) }
      else Some [])"

section \<open>Lists in memory\<close>

text \<open>\<open>pls m p pl as\<close>: from \<open>p\<close> the nodes \<open>as\<close> hold the list \<open>pl\<close>.\<close>

fun pls :: "(u64 \<Rightarrow> (cint \<times> u64) option) \<Rightarrow> u64 \<Rightarrow> iport_list \<Rightarrow> u64 list \<Rightarrow> bool" where
  "pls h p PNull as = (p = 0 \<and> as = [])"
| "pls h p (Port n pl) as =
     (\<exists>q bs. p \<noteq> 0 \<and> h p = Some (n, q) \<and> as = p # bs \<and> p \<notin> set bs \<and> pls h q pl bs)"

lemma pls_nodes: "pls h p pl as \<Longrightarrow> a \<in> set as \<Longrightarrow> h a \<noteq> None"
  by (induction pl arbitrary: p as) auto

lemma pls_null [simp]: "pls h 0 pl as \<longleftrightarrow> pl = PNull \<and> as = []"
  by (cases pl) auto

lemma pls_PNull_iff: "pls h p pl as \<Longrightarrow> pl = PNull \<longleftrightarrow> p = 0"
  by (cases pl) auto

lemma pls_distinct: "pls h p pl as \<Longrightarrow> distinct as"
  by (induction pl arbitrary: p as) auto

lemma pls_length: "pls h p pl as \<Longrightarrow> length as = length (ports_of pl)"
  by (induction pl arbitrary: p as) auto

lemma pls_upd [simp]: "a \<notin> set as \<Longrightarrow> pls (h(a := x)) p pl as = pls h p pl as"
proof (induction pl arbitrary: p as)
  case (Port n pl)
  then show ?case by (cases as) (auto cong: conj_cong)
qed simp

lemma pls_cong: "(\<And>a. a \<in> set as \<Longrightarrow> h a = h' a) \<Longrightarrow> pls h p pl as = pls h' p pl as"
proof (induction pl arbitrary: p as)
  case (Port n pl)
  then show ?case by (cases as) (auto cong: conj_cong)
qed simp

text \<open>An allocator whose next \<open>N\<close> answers are fresh: not \<^verbatim>\<open>NULL\<close>, not in use, all different.\<close>

definition fresh :: "nat \<Rightarrow> (nat \<Rightarrow> u64) \<Rightarrow> pmem \<Rightarrow> bool" where
  "fresh N alloc m \<longleftrightarrow> (\<forall>k. mallocs m \<le> k \<and> k < mallocs m + N \<longrightarrow>
     alloc k \<noteq> 0 \<and> nodes m (alloc k) = None \<and> (\<forall>j. mallocs m \<le> j \<and> j < k \<longrightarrow> alloc k \<noteq> alloc j))"

lemma fresh_mono: "fresh N alloc m \<Longrightarrow> M \<le> N \<Longrightarrow> fresh M alloc m"
  by (auto simp: fresh_def)

lemma add_port_m_correct:
  assumes "fresh (Suc N) alloc m" "pls (nodes m) p pl as"
  shows "\<exists>a m'. add_port_m alloc p n m = Some (a, m') \<and> pls (nodes m') a (add_port pl n) (a # as) \<and>
     nodes m a = None \<and> nodes m' = (nodes m)(a \<mapsto> (ucast n, p)) \<and>
     mallocs m' = Suc (mallocs m) \<and> fresh N alloc m'"
proof -
  let ?a = "alloc (mallocs m)"
  have a: "?a \<noteq> 0" "nodes m ?a = None" using assms(1) by (simp_all add: fresh_def)
  have nin: "?a \<notin> set as" using pls_nodes [OF assms(2), of ?a] a(2) by blast
  let ?m = "\<lparr> nodes = (nodes m)(?a \<mapsto> (ucast n, p)), mallocs = Suc (mallocs m) \<rparr>"
  have "add_port_m alloc p n m = Some (?a, ?m)"
    using a by (auto simp: add_port_m_def new_port_def Let_def)
  moreover have "add_port pl n = Port (ucast n) pl" by (simp add: add_port_def)
  moreover have "fresh N alloc ?m"
    using assms(1) by (simp add: fresh_def Suc_le_eq less_imp_le)
  ultimately show ?thesis using a nin assms(2) by auto
qed

lemma marshal_loop_m_correct:
  "pls (nodes m) p pl as \<Longrightarrow> marshal_loop_m m r p = marshal_loop r pl"
proof (induction r pl arbitrary: p as rule: marshal_loop.induct)
  case (1 r)
  then show ?case by (simp add: marshal_loop_m.simps)
next
  case (2 r n pl)
  then obtain q bs where q: "p \<noteq> 0" "nodes m p = Some (n, q)" "pls (nodes m) q pl bs" by auto
  show ?case
    using q "2.IH" by (subst marshal_loop_m.simps) (cases "shl_one (n - 1)"; simp)
qed

lemma marshal_iports_m_correct: "pls (nodes m) p pl as \<Longrightarrow> marshal_iports_m p m = marshal_iports pl"
  by (simp add: marshal_iports_m_def marshal_iports_def marshal_loop_m_correct)

lemma cycle_ports_correct: "pls (nodes m) p pl as \<Longrightarrow> cycle_ports m p = Some (ports_of pl)"
proof (induction pl arbitrary: p as)
  case PNull
  then show ?case by (simp add: cycle_ports.simps)
next
  case (Port n pl)
  then obtain q bs where q: "p \<noteq> 0" "nodes m p = Some (n, q)" "pls (nodes m) q pl bs" by auto
  then show ?case by (subst cycle_ports.simps) (simp add: Port.IH [OF q(3)])
qed

lemma free_iport_list_correct:
  "pls (nodes m) p pl as \<Longrightarrow>
   free_iport_list p m = Some (m\<lparr>nodes := (\<lambda>a. if a \<in> set as then None else nodes m a)\<rparr>)"
proof (induction pl arbitrary: p as m)
  case PNull
  then show ?case by (simp add: free_iport_list.simps)
next
  case (Port n pl)
  then obtain q bs where q: "p \<noteq> 0" "nodes m p = Some (n, q)" "pls (nodes m) q pl bs"
      "as = p # bs" "p \<notin> set bs" by auto
  let ?m = "m\<lparr>nodes := (nodes m)(p := None)\<rparr>"
  have "pls (nodes ?m) q pl bs" using q by simp
  from Port.IH [OF this]
  have "free_iport_list q ?m = Some (?m\<lparr>nodes := (\<lambda>a. if a \<in> set bs then None else nodes ?m a)\<rparr>)" .
  moreover have "(\<lambda>a. if a \<in> set bs then None else nodes ?m a) =
      (\<lambda>a. if a \<in> set as then None else nodes m a)"
    using q(4) by auto
  ultimately show ?case using q(1,2) by (subst free_iport_list.simps) simp
qed

text \<open>One turn of the loop in memory, and the loop: fresh nodes at the front of the list.\<close>

lemma unmarshal_loop_m_step:
  assumes "k < 8"
  shows "unmarshal_loop_m alloc n (2 ^ k) (of_nat (Suc k)) p m = do {
     (p', m') \<leftarrow> (if bit n k then add_port_m alloc p (of_nat (Suc k)) m else Some (p, m));
     unmarshal_loop_m alloc n (2 ^ Suc k) (of_nat (Suc (Suc k))) p' m' }"
proof -
  have sh: "(2 ^ Suc k :: byte) = push_bit 1 (2 ^ k)" by (simp add: push_bit_eq_mult)
  have pos: "(of_nat (Suc (Suc k)) :: byte) = of_nat (Suc k) + 1" by simp
  show ?thesis
    unfolding sh pos using single_nonzero [OF assms] and_single_bit [OF assms, of n]
    by (subst unmarshal_loop_m.simps) (simp only: if_True not_False_eq_True)
qed

lemma unmarshal_loop_m_end: "unmarshal_loop_m alloc n (2 ^ 8) pos p m = Some (p, m)"
proof -
  have z: "(2 ^ 8 :: byte) = 0" by simp
  show ?thesis unfolding z by (subst unmarshal_loop_m.simps) simp
qed

lemma unmarshal_loop_m_correct:
  assumes "k \<le> 8" "fresh (8 - k + N) alloc m" "pls (nodes m) p pl as"
  shows "\<exists>p' m' pl' bs. unmarshal_loop_m alloc n (2 ^ k) (of_nat (Suc k)) p m = Some (p', m') \<and>
     fresh N alloc m' \<and>
     unmarshal_loop n (2 ^ k) (of_nat (Suc k)) pl = Some pl' \<and>
     pls (nodes m') p' pl' (bs @ as) \<and> mallocs m' = mallocs m + length bs \<and>
     (\<forall>b \<in> set bs. nodes m b = None) \<and> (\<forall>a. a \<notin> set bs \<longrightarrow> nodes m' a = nodes m a)"
  using assms
proof (induction k arbitrary: m p pl as rule: inc_induct)
  case base
  then show ?case
    unfolding unmarshal_loop_end unmarshal_loop_m_end
    by (auto intro!: exI [of _ "[]"] intro: fresh_mono)
next
  case (step k)
  have N: "8 - k + N = Suc (8 - Suc k + N)" using step.hyps by simp
  let ?pl = "if bit n k then add_port pl (of_nat (Suc k)) else pl"
  obtain p1 m1 cs where s1: "(if bit n k then add_port_m alloc p (of_nat (Suc k)) m else Some (p, m)) =
        Some (p1, m1)"
      "fresh (8 - Suc k + N) alloc m1" "pls (nodes m1) p1 ?pl (cs @ as)" "mallocs m1 = mallocs m + length cs"
      "\<forall>b \<in> set cs. nodes m b = None" "\<forall>a. a \<notin> set cs \<longrightarrow> nodes m1 a = nodes m a"
  proof (cases "bit n k")
    case True
    obtain a m' where "add_port_m alloc p (of_nat (Suc k)) m = Some (a, m')"
        "pls (nodes m') a (add_port pl (of_nat (Suc k))) (a # as)" "nodes m a = None"
        "nodes m' = (nodes m)(a \<mapsto> (ucast (of_nat (Suc k) :: byte), p))" "mallocs m' = Suc (mallocs m)"
        "fresh (8 - Suc k + N) alloc m'"
      using add_port_m_correct [OF step.prems(1) [unfolded N] step.prems(2)] by blast
    then show thesis using True by (intro that [of a m' "[a]"]) (simp_all del: of_nat_Suc)
  next
    case False
    then show thesis using step.prems fresh_mono [OF step.prems(1), of "8 - Suc k + N"]
      by (intro that [of p m "[]"]) simp_all
  qed
  obtain p' m' pl' ds where s2:
      "unmarshal_loop_m alloc n (2 ^ Suc k) (of_nat (Suc (Suc k))) p1 m1 = Some (p', m')"
      "fresh N alloc m'"
      "unmarshal_loop n (2 ^ Suc k) (of_nat (Suc (Suc k))) ?pl = Some pl'"
      "pls (nodes m') p' pl' (ds @ cs @ as)" "mallocs m' = mallocs m1 + length ds"
      "\<forall>b \<in> set ds. nodes m1 b = None" "\<forall>a. a \<notin> set ds \<longrightarrow> nodes m' a = nodes m1 a"
    using step.IH [OF s1(2,3)] by blast
  have "unmarshal_loop_m alloc n (2 ^ k) (of_nat (Suc k)) p m = Some (p', m')"
    unfolding unmarshal_loop_m_step [OF step.hyps(2)] s1(1) using s2(1) by (simp del: power_Suc of_nat_Suc)
  moreover have "unmarshal_loop n (2 ^ k) (of_nat (Suc k)) pl = Some pl'"
    using s2(3) unmarshal_loop_step [OF step.hyps(2), of n pl] by simp
  moreover have "\<forall>b \<in> set (ds @ cs). nodes m b = None"
  proof
    fix b assume "b \<in> set (ds @ cs)"
    then show "nodes m b = None" using s1(5,6) s2(6) by (cases "b \<in> set cs") auto
  qed
  moreover have "\<forall>a. a \<notin> set (ds @ cs) \<longrightarrow> nodes m' a = nodes m a" using s1(6) s2(7) by auto
  moreover have "pls (nodes m') p' pl' ((ds @ cs) @ as)" "mallocs m' = mallocs m + length (ds @ cs)"
    using s1(4) s2(4,5) by simp_all
  ultimately show ?case using s2(2) by blast
qed

lemma unmarshal_iports_m_correct:
  assumes "fresh (8 + N) alloc m"
  shows "\<exists>p m' pl as. unmarshal_iports_m alloc n m = Some (p, m') \<and> unmarshal_iports n = Some pl \<and>
     fresh N alloc m' \<and> pls (nodes m') p pl as \<and> mallocs m' = mallocs m + length as \<and>
     (\<forall>b \<in> set as. nodes m b = None) \<and> (\<forall>a. a \<notin> set as \<longrightarrow> nodes m' a = nodes m a)"
  using unmarshal_loop_m_correct [of 0 N alloc m 0 PNull "[]" n] assms
  by (auto simp: unmarshal_iports_m_def unmarshal_iports_def)

lemma unmarshal_nonempty: "unmarshal_iports n = Some pl \<Longrightarrow> n \<noteq> 0 \<Longrightarrow> pl \<noteq> PNull"
  using port_mask.encode_decode [of n pl] by (auto simp: marshal_iports_def)

lemma fresh_free:
  "fresh N alloc m \<Longrightarrow> fresh N alloc (m\<lparr>nodes := (\<lambda>a. if a \<in> A then None else nodes m a)\<rparr>)"
  by (simp add: fresh_def)

lemma freed_dangling:
  assumes "pls (nodes m) p pl as" "pl \<noteq> PNull" "free_iport_list p m = Some m'"
  shows "marshal_iports_m p m' = None \<and> free_iport_list p m' = None \<and> cycle_ports m' p = None"
proof -
  have p: "p \<noteq> 0" "p \<in> set as" using assms(1,2) by (cases pl; auto)+
  then have "nodes m' p = None"
    using assms(3) free_iport_list_correct [OF assms(1)] by auto
  with p(1) show ?thesis
    unfolding marshal_iports_m_def
    by (subst marshal_loop_m.simps, subst free_iport_list.simps, subst cycle_ports.simps) simp
qed

section \<open>Properties\<close>

text \<open>
  C23: the life of a port list in memory, as the agent's attach handlers have it: the mask is
  unmarshalled into one fresh node per port, in the order of the list model; walking and
  marshalling it give the ports and the mask back; freeing it restores the memory exactly.
\<close>

theorem port_memory:
  assumes "fresh 8 alloc m"
  shows "\<exists>p m' m'' pl. unmarshal_iports_m alloc n m = Some (p, m') \<and> unmarshal_iports n = Some pl \<and>
     cycle_ports m' p = Some (ports_of pl) \<and> marshal_iports_m p m' = Some n \<and>
     free_iport_list p m' = Some m'' \<and> nodes m'' = nodes m \<and>
     mallocs m'' = mallocs m + length (ports_of pl)"
proof -
  obtain p m' pl as where u: "unmarshal_iports_m alloc n m = Some (p, m')" "unmarshal_iports n = Some pl"
      "pls (nodes m') p pl as" "mallocs m' = mallocs m + length as"
      "\<forall>b \<in> set as. nodes m b = None" "\<forall>a. a \<notin> set as \<longrightarrow> nodes m' a = nodes m a"
    using unmarshal_iports_m_correct [of 0 alloc m n] assms by auto
  have "(\<lambda>a. if a \<in> set as then None else nodes m' a) = nodes m" using u(5,6) by auto
  then show ?thesis
    using u free_iport_list_correct [OF u(3)] marshal_iports_m_correct [OF u(3)]
      cycle_ports_correct [OF u(3)] port_mask.encode_decode [OF u(2)] pls_length [OF u(3)]
    by auto
qed

definition demo_alloc :: "nat \<Rightarrow> u64" where
  "demo_alloc k = of_nat (Suc k)"

lemma demo_alloc_fresh_upto: "N \<le> 100 \<Longrightarrow> fresh N demo_alloc init_pmem"
proof -
  have "unat (demo_alloc k) = Suc k" if "k < 100" for k
    using that unfolding demo_alloc_def by (simp add: unat_of_nat del: of_nat_Suc)
  then have "demo_alloc k \<noteq> 0 \<and> (\<forall>j < k. demo_alloc k \<noteq> demo_alloc j)" if "k < 100" for k
    using that by (metis less_trans nat.distinct(1) nat.inject nat_less_le unat_0)
  then show "N \<le> 100 \<Longrightarrow> fresh N demo_alloc init_pmem" by (simp add: fresh_def init_pmem_def)
qed

lemma port_memory_witness:
  "\<exists>p m' m'' pl. unmarshal_iports_m demo_alloc 17 init_pmem = Some (p, m') \<and> unmarshal_iports 17 = Some pl \<and>
     cycle_ports m' p = Some (ports_of pl) \<and> marshal_iports_m p m' = Some 17 \<and>
     free_iport_list p m' = Some m'' \<and> nodes m'' = Map.empty"
  using port_memory [OF demo_alloc_fresh_upto, of 17] by (auto simp: init_pmem_def)

text \<open>
  a port list is not used after it is freed: every later walk, marshalling or second free
  of a list that was not empty follows a dangling pointer.
\<close>

theorem port_use_after_free:
  assumes "pls (nodes m) p pl as" "pl \<noteq> PNull" "free_iport_list p m = Some m'"
  shows "marshal_iports_m p m' = None \<and> free_iport_list p m' = None \<and> cycle_ports m' p = None"
  using assms by (rule freed_dangling)

lemma port_use_after_free_witness:
  "\<exists>m m'. free_iport_list 1 m = Some m' \<and> marshal_iports_m 1 m' = None"
proof -
  let ?m = "\<lparr> nodes = [1 \<mapsto> (5, 0)], mallocs = 1 \<rparr>"
  have l: "pls (nodes ?m) 1 (Port 5 PNull) [1]" by simp
  from free_iport_list_correct [OF l] obtain m' where "free_iport_list 1 ?m = Some m'" by blast
  with port_use_after_free [OF l _ this] show ?thesis by auto
qed

end
