(* ===== verification/TFLog.thy ===== *)
theory TFLog imports TFFlow begin

text \<open>
  Logging: \<^verbatim>\<open>libthymesisflow/include/logger.h\<close>, and the two operations whose result is what
  they print, \<^verbatim>\<open>list_connections\<close> of \<^verbatim>\<open>connection.c\<close> and \<^verbatim>\<open>print_proto_msg\<close> of \<^verbatim>\<open>proto.c\<close>.  Output is the list of
  the pieces printed.  The arguments of a log call are formatted by \<^verbatim>\<open>vprintf\<close>: \<open>message\<close>
  is the text it produces.
\<close>

section \<open>Model\<close>

definition ERROR_TAG :: string where "ERROR_TAG = ''ERROR''"
definition WARN_TAG :: string where "WARN_TAG = ''WARN''"
definition INFO_TAG :: string where "INFO_TAG = ''INFO''"
definition DEBUG_TAG :: string where "DEBUG_TAG = ''DEBUG''"

text \<open>\<^verbatim>\<open>struct tm\<close>, as far as the format \<^verbatim>\<open>"%Y-%m-%d %H:%M:%S"\<close> uses it.\<close>

record tm =
  tm_year :: nat        \<comment> \<open>the year itself, not its distance from 1900\<close>
  tm_mon :: nat         \<comment> \<open>1 to 12\<close>
  tm_mday :: nat
  tm_hour :: nat
  tm_min :: nat
  tm_sec :: nat

definition two_digits :: "nat \<Rightarrow> string" where
  "two_digits n = (if n < 10 then ''0'' @ decimal n else decimal n)"

text \<open>\<^verbatim>\<open>strftime\<close> stores nothing (here: the empty string) if the text does not fit in 64 bytes.\<close>

definition current_time :: "tm \<Rightarrow> string" where
  "current_time timeinfo =
     (let s = decimal (tm_year timeinfo) @ ''-'' @ two_digits (tm_mon timeinfo) @ ''-'' @
              two_digits (tm_mday timeinfo) @ '' '' @ two_digits (tm_hour timeinfo) @ '':'' @
              two_digits (tm_min timeinfo) @ '':'' @ two_digits (tm_sec timeinfo) in
      if length s < 64 then s else [])"

definition print_log :: "string \<Rightarrow> string \<Rightarrow> string \<Rightarrow> string" where
  "print_log tag curr_time message = curr_time @ '' ['' @ tag @ ''] '' @ message"

definition log_info :: "tm \<Rightarrow> string \<Rightarrow> string" where
  "log_info now message = print_log INFO_TAG (current_time now) message"

definition log_debug :: "tm \<Rightarrow> string \<Rightarrow> string" where
  "log_debug now message = print_log DEBUG_TAG (current_time now) message"

definition log_warn :: "tm \<Rightarrow> string \<Rightarrow> string" where
  "log_warn now message = print_log WARN_TAG (current_time now) message"

definition log_error :: "tm \<Rightarrow> string \<Rightarrow> string" where
  "log_error now message = print_log ERROR_TAG (current_time now) message"

definition print_log_ext :: "string \<Rightarrow> string \<Rightarrow> string \<Rightarrow> nat \<Rightarrow> string \<Rightarrow> string" where
  "print_log_ext tag curr_time filename line message =
     curr_time @ '' ['' @ tag @ ''] '' @ filename @ '':'' @ decimal line @ '', '' @ message"

definition log_info_ext :: "tm \<Rightarrow> string \<Rightarrow> nat \<Rightarrow> string \<Rightarrow> string" where
  "log_info_ext now file line message = print_log_ext INFO_TAG (current_time now) file line message"

definition log_debug_ext :: "tm \<Rightarrow> string \<Rightarrow> nat \<Rightarrow> string \<Rightarrow> string" where
  "log_debug_ext now file line message = print_log_ext DEBUG_TAG (current_time now) file line message"

definition log_warn_ext :: "tm \<Rightarrow> string \<Rightarrow> nat \<Rightarrow> string \<Rightarrow> string" where
  "log_warn_ext now file line message = print_log_ext WARN_TAG (current_time now) file line message"

definition log_error_ext :: "tm \<Rightarrow> string \<Rightarrow> nat \<Rightarrow> string \<Rightarrow> string" where
  "log_error_ext now file line message = print_log_ext ERROR_TAG (current_time now) file line message"

text \<open>\<^verbatim>\<open>%s\<close>: the characters before the NUL; undefined if the array has none.\<close>

definition chars :: "bytes \<Rightarrow> string" where
  "chars bs = map (\<lambda>b. char_of (unat b)) bs"

definition print_cstr :: "bytes \<Rightarrow> string option" where
  "print_cstr bs = (if 0 \<in> set bs then Some (chars (upto_nul bs)) else None)"

partial_function (option) list_loop ::
    "tm \<Rightarrow> (u64 \<Rightarrow> connection option) \<Rightarrow> u64 \<Rightarrow> string list option" where
  "list_loop now h runner =
     (if runner \<noteq> 0 then do {
        r \<leftarrow> h runner;
        s \<leftarrow> print_cstr (circuit_id r);
        rest \<leftarrow> list_loop now h (cnext r);
        Some (log_info_ext now ''connection.c'' 233 (''circuit - id: '' @ s @ newline) # rest) }
      else Some [])"

definition list_connections :: "tm \<Rightarrow> world \<Rightarrow> string list option" where
  "list_connections now w = do {
     ls \<leftarrow> list_loop now (heap w) (clist w);
     Some (log_info_ext now ''connection.c'' 230 (''--- BEGIN list circuits ---'' @ newline) # ls @
       [log_info_ext now ''connection.c'' 236 (''--- END list circuits ---'' @ newline)]) }"

text \<open>
  \<^verbatim>\<open>printf("%02x", msg[i])\<close>: the argument is promoted to \<^verbatim>\<open>int\<close>, so where \<^verbatim>\<open>char\<close> is signed
  (the flag \<open>char_signed\<close>) a byte above 127 is printed with eight digits.
\<close>

definition hex_byte :: "bool \<Rightarrow> byte \<Rightarrow> string" where
  "hex_byte char_signed b = (if char_signed \<and> 127 < unat b then ''ffffff'' else []) @
     [hex_digits ! (unat b div 16), hex_digits ! (unat b mod 16)]"

definition print_proto_msg :: "bool \<Rightarrow> tm \<Rightarrow> bytes \<Rightarrow> string option" where
  "print_proto_msg char_signed now msg = do {
     src \<leftarrow> mem_read 0 MSG_SIZE msg;
     Some (concat (map (hex_byte char_signed) src) @ log_info now newline) }"

text \<open>With an unsigned \<^verbatim>\<open>char\<close> the dump shows the whole message.\<close>

lemma hex_byte_inj: "hex_byte False b = hex_byte False b' \<Longrightarrow> b = b'"
proof -
  assume "hex_byte False b = hex_byte False b'"
  moreover have "distinct hex_digits" "length hex_digits = 16" by (simp_all add: hex_digits_def)
  moreover have "unat x div 16 < 16" "unat x mod 16 < 16" for x :: byte
    using unsigned_less [of x, where 'a = nat] by (simp_all add: less_mult_imp_div_less)
  ultimately have "unat b div 16 = unat b' div 16" "unat b mod 16 = unat b' mod 16"
    by (simp_all add: hex_byte_def nth_eq_iff_index_eq)
  then have "unat b = unat b'" by (metis div_mult_mod_eq)
  then show "b = b'" by (simp only: unsigned_word_eqI)
qed

lemma dump_bytes:
  "concat (map (hex_byte False) xs) @ t = concat (map (hex_byte False) ys) @ t \<Longrightarrow> xs = ys"
proof (induction xs arbitrary: ys)
  case Nil
  then show ?case by (cases ys) (auto simp: hex_byte_def)
next
  case (Cons x xs)
  then show ?case
  proof (cases ys)
    case (Cons y ys')
    have two: "length (hex_byte False b) = 2" for b by (simp add: hex_byte_def)
    have "hex_byte False x = hex_byte False y"
        "concat (map (hex_byte False) xs) @ t = concat (map (hex_byte False) ys') @ t"
      using Cons.prems Cons two by (simp_all add: append_eq_append_conv)
    then show ?thesis using Cons.IH Cons hex_byte_inj by auto
  qed (auto simp: hex_byte_def)
qed

lemma dump_determines:
  "length m = MSG_SIZE \<Longrightarrow> length m' = MSG_SIZE \<Longrightarrow>
   print_proto_msg False now m = print_proto_msg False now m' \<Longrightarrow> m = m'"
  using dump_bytes by (auto simp: print_proto_msg_def mem_read_def)

section \<open>Behaviour\<close>

lemma length_decimal: "n < 10 ^ Suc k \<Longrightarrow> length (decimal n) \<le> Suc k"
proof (induction k arbitrary: n)
  case 0
  then show ?case by (simp add: decimal.simps)
next
  case (Suc k)
  show ?case
  proof (cases "n < 10")
    case True
    then show ?thesis by (simp add: decimal.simps)
  next
    case False
    have "n div 10 < 10 ^ Suc k" using Suc.prems by (simp add: less_mult_imp_div_less)
    from Suc.IH [OF this] False show ?thesis by (subst decimal.simps) simp
  qed
qed

lemma length_two_digits: "n < 100 \<Longrightarrow> length (two_digits n) \<le> 2"
  using length_decimal [of n 1] length_decimal [of n 0] by (auto simp: two_digits_def)

text \<open>Until the year 10000 the time stamp fits its buffer.\<close>

lemma current_time_fits:
  assumes "tm_year t < 10000" "tm_mon t < 100" "tm_mday t < 100" "tm_hour t < 100" "tm_min t < 100"
    "tm_sec t < 100"
  shows "current_time t \<noteq> [] \<and> length (current_time t) \<le> 19"
  using length_decimal [of "tm_year t" 3] assms(1)
    length_two_digits [OF assms(2)] length_two_digits [OF assms(3)] length_two_digits [OF assms(4)]
    length_two_digits [OF assms(5)] length_two_digits [OF assms(6)]
  by (simp add: current_time_def Let_def)

text \<open>The line printed for a node.\<close>

definition circuit_line :: "tm \<Rightarrow> bytes \<Rightarrow> string" where
  "circuit_line now k = log_info_ext now ''connection.c'' 233 (''circuit - id: '' @ chars k @ newline)"

definition terminated :: "(u64 \<Rightarrow> connection option) \<Rightarrow> u64 \<Rightarrow> bool" where
  "terminated h a \<longleftrightarrow> (\<forall>c. h a = Some c \<longrightarrow> 0 \<in> set (circuit_id c))"

lemma print_node:
  assumes "0 \<in> set (circuit_id c)" "length (circuit_id c) = Suc CIRCUIT_ID_SIZE"
  shows "print_cstr (circuit_id c) = Some (chars (cid_key (circuit_id c)))"
proof -
  let ?b = "circuit_id c"
  have b: "?b = take 36 ?b @ drop 36 ?b" "length (drop 36 ?b) = 1"
    using assms(2) by (simp_all add: layout_defs)
  have "upto_nul ?b = upto_nul (take 36 ?b)"
  proof (cases "0 \<in> set (take 36 ?b)")
    case True
    then show ?thesis by (subst b(1)) (simp only: upto_nul_append if_True)
  next
    case False
    then have "0 \<in> set (drop 36 ?b)" using assms(1) b(1) by (metis Un_iff set_append)
    then have "drop 36 ?b = [0]" using b(2) by (cases "drop 36 ?b") auto
    then show ?thesis using False
      by (subst b(1)) (simp add: upto_nul_append upto_nul_id)
  qed
  then show ?thesis using assms(1) by (simp add: print_cstr_def cid_key_def layout_defs)
qed

lemma list_loop_correct:
  assumes "lseg h p as 0" "\<forall>a \<in> set as. terminated h a"
    and "\<forall>a \<in> set as. \<forall>c. h a = Some c \<longrightarrow> length (circuit_id c) = Suc CIRCUIT_ID_SIZE"
  shows "list_loop now h p = Some (map (\<lambda>a. circuit_line now (conn_key h a)) as)"
  using assms
proof (induction as arbitrary: p)
  case Nil
  then show ?case by (simp add: list_loop.simps)
next
  case (Cons a as)
  then obtain c where c: "p = a" "a \<noteq> 0" "h a = Some c" "lseg h (cnext c) as 0"
    by (auto split: option.splits)
  have "list_loop now h (cnext c) = Some (map (\<lambda>a. circuit_line now (conn_key h a)) as)"
    using Cons.prems c by (intro Cons.IH) auto
  moreover have "print_cstr (circuit_id c) = Some (chars (conn_key h a))"
    using Cons.prems(2,3) c print_node [of c] by (simp add: terminated_def conn_key_def)
  ultimately show ?case
    using c by (subst list_loop.simps) (simp add: circuit_line_def)
qed

section \<open>Properties\<close>

text \<open>
  listing the connections prints, between two marker lines, one line for each registered
  circuit, and no other, provided the circuit ids in the nodes are terminated.
\<close>

theorem list_connections_registry:
  assumes "reg_list w as" "\<forall>a \<in> set as. terminated (heap w) a"
  shows "\<exists>b ks e. list_connections now w = Some (b # map (circuit_line now) ks @ [e]) \<and>
     distinct ks \<and> set ks = dom (registry w)"
proof -
  have "list_loop now (heap w) (clist w) = Some (map (\<lambda>a. circuit_line now (conn_key (heap w) a)) as)"
    using assms by (intro list_loop_correct) (simp_all add: reg_list_def)
  moreover have "distinct (map (conn_key (heap w)) as)" using assms(1) by (simp add: reg_list_def)
  ultimately show ?thesis
    using dom_registry [OF assms(1)]
    by (auto simp: list_connections_def comp_def intro!: exI [of _ "map (conn_key (heap w)) as"])
qed

text \<open>
  the proviso can fail: \<^verbatim>\<open>new_conn\<close> copies 36 bytes into an array of 37 and does not
  terminate it, so for a circuit id of 36 characters (a UUID) the terminator is whatever the
  fresh block held, and unless it happens to be 0 printing the id runs out of the array.
\<close>

theorem unterminated_id:
  assumes "new_conn env (Some cid) nm sz nohp w = Some (a, w')"
    and "0 \<notin> set (take CIRCUIT_ID_SIZE cid)" "junk env (trace w) 36 \<noteq> 0"
  shows "a \<noteq> 0 \<and> list_loop now (heap w') a = None"
proof -
  obtain c where c: "a \<noteq> 0" "heap w' a = Some c"
      "circuit_id c = take CIRCUIT_ID_SIZE cid @ [junk env (trace w) 36]"
    using assms(1) by (auto simp: new_conn_def Let_def mem_read_def sys_def split: if_splits prod.splits)
  then have "print_cstr (circuit_id c) = None" using assms(2,3) by (simp add: print_cstr_def)
  with c show ?thesis by (subst list_loop.simps) simp
qed

definition junk_env :: env where
  "junk_env = (demo_env True)\<lparr>junk := (\<lambda>_ _. 1)\<rparr>"

definition demo_tm :: tm where
  "demo_tm = \<lparr> tm_year = 2021, tm_mon = 5, tm_mday = 17, tm_hour = 9, tm_min = 30, tm_sec = 0 \<rparr>"

lemma list_connections_registry_witness:
  "\<exists>w b ks e. list_connections demo_tm w = Some (b # map (circuit_line demo_tm) ks @ [e]) \<and>
     distinct ks \<and> set ks = dom (registry w) \<and> clist w \<noteq> 0"
proof -
  let ?w = "init_world\<lparr>heap := [8 \<mapsto> demo_node\<lparr>circuit_id := demo_cid, cnext := 0\<rparr>], clist := 8\<rparr>"
  have "reg_list ?w [8]" "\<forall>a \<in> set [8]. terminated (heap ?w) a"
    by (simp_all add: reg_list_def terminated_def demo_cid_def layout_defs)
  from list_connections_registry [OF this, of demo_tm]
  obtain b ks e where "list_connections demo_tm ?w = Some (b # map (circuit_line demo_tm) ks @ [e])"
      "distinct ks" "set ks = dom (registry ?w)" by blast
  moreover have "clist ?w \<noteq> 0" by simp
  ultimately show ?thesis by metis
qed

lemma unterminated_id_witness:
  "\<exists>a w'. new_conn junk_env (Some demo_cid) (Some [65, 0]) 0 0 init_world = Some (a, w') \<and>
     list_loop demo_tm (heap w') a = None"
proof -
  obtain a w' where n: "new_conn junk_env (Some demo_cid) (Some [65, 0]) 0 0 init_world = Some (a, w')"
    by (simp add: new_conn_def sys_def junk_env_def mem_read_def demo_cid_def layout_defs strncpy_src_defined Let_def)
  have "0 \<notin> set (take CIRCUIT_ID_SIZE demo_cid)" "junk junk_env (trace init_world) 36 \<noteq> 0"
    by (simp_all add: demo_cid_def layout_defs junk_env_def)
  from unterminated_id [OF n this] n show ?thesis by blast
qed

end
