(* ===== verification/TFTests.thy ===== *)
theory TFTests imports TFClient TFPortMem TFLog begin

text \<open>
  The unit tests \<^verbatim>\<open>libthymesisflow/unittest/unittest.c\<close> as programs over the models: each
  test runs the operations the C test runs, in its order, and ends at the first \<^verbatim>\<open>VERIFY\<close>
  that fails.  The theorems say which tests pass, and in which environments.
\<close>

section \<open>Model\<close>

text \<open>\<open>Failed n\<close>: the \<^verbatim>\<open>VERIFY\<close> at line \<open>n\<close> failed and the test returned there.\<close>

datatype outcome = Passed | Failed nat

definition VERIFY :: "bool \<Rightarrow> nat \<Rightarrow> 'w \<Rightarrow> (outcome \<times> 'w) option \<Rightarrow> (outcome \<times> 'w) option" where
  "VERIFY b line w k = (if b then k else Some (Failed line, w))"

text \<open>Evaluation of \<^verbatim>\<open>&&\<close> from left to right.\<close>

definition and_also :: "bool \<Rightarrow> bool option \<Rightarrow> bool option" where
  "and_also b m = (if b then m else Some False)"

subsection \<open>Port lists\<close>

definition test_iport_marshalling :: "(nat \<Rightarrow> u64) \<Rightarrow> pmem \<Rightarrow> (outcome \<times> pmem) option" where
  "test_iport_marshalling alloc m = do {
     (pl, m1) \<leftarrow> add_port_m alloc 0 1 m;
     rep \<leftarrow> marshal_iports_m pl m1;
     VERIFY (rep = 1) 79 m1 (do {
     (pl, m2) \<leftarrow> add_port_m alloc pl 5 m1;
     rep \<leftarrow> marshal_iports_m pl m2;
     VERIFY (rep = 17) 83 m2 (do {
     m3 \<leftarrow> free_iport_list pl m2;
     Some (Passed, m3) }) }) }"

definition test_iport :: "(nat \<Rightarrow> u64) \<Rightarrow> pmem \<Rightarrow> (outcome \<times> pmem) option" where
  "test_iport alloc m = do {
     (pl, m) \<leftarrow> unmarshal_iports_m alloc 1 m;
     _ \<leftarrow> cycle_ports m pl;
     m \<leftarrow> free_iport_list pl m;
     (pl, m) \<leftarrow> unmarshal_iports_m alloc 3 m;
     _ \<leftarrow> cycle_ports m pl;
     ptest \<leftarrow> marshal_iports_m pl m;
     VERIFY (ptest = 3) 101 m (do {
     m \<leftarrow> free_iport_list pl m;
     (pl, m) \<leftarrow> unmarshal_iports_m alloc 10 m;
     _ \<leftarrow> cycle_ports m pl;
     m \<leftarrow> free_iport_list pl m;
     ptest \<leftarrow> marshal_iports_m pl m;
     VERIFY (ptest = 10) 112 m (do {
     m \<leftarrow> free_iport_list pl m;
     (pl, m) \<leftarrow> unmarshal_iports_m alloc 0 m;
     _ \<leftarrow> cycle_ports m pl;
     m \<leftarrow> free_iport_list pl m;
     (pl, m) \<leftarrow> unmarshal_iports_m alloc 16 m;
     _ \<leftarrow> cycle_ports m pl;
     m \<leftarrow> free_iport_list pl m;
     Some (Passed, m) }) }) }"

subsection \<open>The registry\<close>

text \<open>The ids and names are string literals; \<open>now\<close> is the time of the log lines.\<close>

definition test_connection :: "env \<Rightarrow> tm \<Rightarrow> world \<Rightarrow> (outcome \<times> world) option" where
  "test_connection env now w = do {
     (conn1, w) \<leftarrow> new_conn env (literal env ''a'') (literal env ''afu1'') 10 0 w;
     (_, w) \<leftarrow> add_conn conn1 w;
     c1 \<leftarrow> heap w conn1;
     e1 \<leftarrow> and_also (csize c1 = 10) (strcmp_eq (circuit_id c1) (lit ''a''));
     e2 \<leftarrow> and_also e1 (strcmp_eq (afu_name c1) (lit ''afu1''));
     VERIFY (e2 \<and> cnext c1 = 0) 48 w (do {
     (conn2, w) \<leftarrow> new_conn env (literal env ''b'') (literal env ''afu2'') 10 0 w;
     (_, w) \<leftarrow> add_conn conn2 w;
     c \<leftarrow> heap w (clist w);
     VERIFY (clist w = conn2 \<and> cnext c = conn1) 53 w (do {
     (conn3, w) \<leftarrow> new_conn env (literal env ''c'') (literal env ''afu3'') 10 0 w;
     (_, w) \<leftarrow> add_conn conn3 w;
     c \<leftarrow> heap w (clist w);
     VERIFY (clist w = conn3 \<and> cnext c = conn2) 57 w (do {
     _ \<leftarrow> list_connections now w;
     conn_ret \<leftarrow> get_conn (literal env ''b'') w;
     r \<leftarrow> heap w conn_ret;
     e \<leftarrow> strcmp_eq (circuit_id r) (lit ''b'');
     VERIFY e 63 w (do {
     (_, w) \<leftarrow> del_conn env (literal env ''b'') w;
     c \<leftarrow> heap w (clist w);
     VERIFY (clist w = conn3 \<and> cnext c = conn1) 66 w (do {
     (_, w) \<leftarrow> del_conn env (literal env ''a'') w;
     c \<leftarrow> heap w (clist w);
     VERIFY (clist w = conn3 \<and> cnext c = 0) 69 w (do {
     (_, w) \<leftarrow> del_conn env (literal env ''c'') w;
     VERIFY (clist w = 0) 72 w (Some (Passed, w)) }) }) }) }) }) }) }"

subsection \<open>Client and agent\<close>

text \<open>
  One request of the client process to the forked agent: the client writes its message
  before it reads (so the message does not depend on the answer, here first a dummy), the
  agent accepts, serves and closes, the client reads what the agent wrote.
\<close>

definition rpc ::
    "env \<Rightarrow> cint \<Rightarrow> (sock \<Rightarrow> world \<Rightarrow> (pmessage \<times> sock \<times> world) option) \<Rightarrow> world \<times> world \<Rightarrow>
     (pmessage \<times> world \<times> world) option" where
  "rpc ae sfd send ws = do {
     let (wc, wa) = ws;
     (_, s0, _) \<leftarrow> send \<lparr> s_in = [Received (replicate MSG_SIZE 0)], s_out = [Wrote MSG_SIZE], s_sent = [] \<rparr> wc;
     let (cfd, wa1) = sys_rc ae (Accept sfd) wa;
     if cfd = -1 then None else do {
     (s1, wa2) \<leftarrow> handle_request ae
       \<lparr> s_in = [Received (s_sent s0)], s_out = [Wrote MSG_SIZE], s_sent = [] \<rparr> wa1;
     (rsp, _, wc') \<leftarrow> send \<lparr> s_in = [Received (s_sent s1)], s_out = [Wrote MSG_SIZE], s_sent = [] \<rparr> wc;
     Some (rsp, wc', snd (sys_rc ae (Close cfd) wa2)) } }"

definition test_id :: string where "test_id = ''cc592edc-eca6-4e0f-9541-5a3684c37757''"
definition test_afu :: string where "test_afu = ''/dev/ibm-n0''"
definition test_sock :: string where "test_sock = ''/tmp/thymesisflow-test.sock''"
definition test_size :: u64 where "test_size = 68719476736"

text \<open>
  The test forks the agent, which starts from a copy of the process (\<open>ae\<close> answers its calls,
  \<open>ce\<close> those of the parent) and sets its socket up while the parent sleeps.  The port list is
  built, printed and freed on the heap \<open>m\<close>; the requests read its values.  A \<^verbatim>\<open>VERIFY\<close> that
  fails returns with the list allocated and the agent running.  There is no result when
  \<^verbatim>\<open>fork\<close> fails (the parent logs it, falls through to the child's branch, serves as the agent
  itself and exits) and when the agent cannot set its socket up (nobody serves the requests).
\<close>

definition test_integration ::
    "env \<Rightarrow> env \<Rightarrow> (nat \<Rightarrow> u64) \<Rightarrow> world \<Rightarrow> pmem \<Rightarrow> (outcome \<times> (world \<times> world) \<times> pmem) option" where
  "test_integration ce ae alloc w m = do {
     let cid = literal ce test_id;
     let nm = literal ce test_afu;
     let path = literal ce test_sock;
     let (agent_pid, w) = sys_rc ce Fork w;
     if agent_pid = -1 then None else do {
     (r, wa) \<leftarrow> agent_setup ae path w;
     sfd \<leftarrow> (case r of Inl code \<Rightarrow> None | Inr sfd \<Rightarrow> Some sfd);
     let ws = (snd (sys_rc ce (Sleep 1) w), wa);
     (p, m) \<leftarrow> add_port_m alloc 0 1 m;
     ports \<leftarrow> cycle_ports m p;
     let plm = foldr Port ports PNull;
     (mresp, ws) \<leftarrow> rpc ae sfd (send_attach_memory_msg ce cid nm plm test_size path) ws;
     VERIFY (p_status mresp = ATTACH_OK) 160 (ws, m) (do {
     (mdresp, ws) \<leftarrow> rpc ae sfd (send_detach_memory_msg ce cid path) ws;
     VERIFY (p_status mdresp = DETACH_OK) 163 (ws, m) (do {
     (cresp, ws) \<leftarrow> rpc ae sfd (send_attach_compute_msg ce cid nm plm test_size (p_ea mresp) 1 path) ws;
     VERIFY (p_status cresp = ATTACH_OK) 168 (ws, m) (do {
     (cdresp, ws) \<leftarrow> rpc ae sfd (send_detach_compute_msg ce cid path) ws;
     VERIFY (p_status cdresp = DETACH_OK) 171 (ws, m) (do {
     (cresp, ws) \<leftarrow> rpc ae sfd (send_attach_compute_msg ce cid nm plm test_size (p_ea mresp) 0 path) ws;
     VERIFY (p_status cresp = ATTACH_OK) 177 (ws, m) (do {
     (cdresp, ws) \<leftarrow> rpc ae sfd (send_detach_compute_msg ce cid path) ws;
     VERIFY (p_status cdresp = DETACH_OK) 180 (ws, m) (do {
     m \<leftarrow> free_iport_list p m;
     let (wc, wa) = ws;
     Some (Passed, (snd (sys_rc ce (Kill agent_pid) wc), wa), m) }) }) }) }) }) }) } }"

subsection \<open>The program\<close>

text \<open>
  \<^verbatim>\<open>strtol\<close> saturates at the bounds of \<^verbatim>\<open>long\<close>; the test casts its result to \<^verbatim>\<open>int\<close> and
  back, and only prints: the result is the two numbers.
\<close>

definition strtol :: "bytes \<Rightarrow> nat \<Rightarrow> u64" where
  "strtol str base =
     (let t = dropWhile is_blank (upto_nul str);
          neg = (take 1 t = [45]);
          n = strtoull_digits base (if take 1 t = [45] \<or> take 1 t = [43] then drop 1 t else t) in
      if neg then (if 2 ^ 63 < n then - (2 ^ 63) else - of_nat n)
      else if 2 ^ 63 \<le> n then 2 ^ 63 - 1 else of_nat n)"

definition test_hex_string_to_address :: "u64 \<times> u64" where
  "test_hex_string_to_address =
     (let number = scast (ucast (strtol (lit ''0xabcdef0'') 16) :: cint);
          number2 = scast (ucast (strtol (lit ''abcdef0'') 16) :: cint) in (number, number2))"

text \<open>
  \<^verbatim>\<open>main\<close>: nothing without \<^verbatim>\<open>MOCK\<close>.  The result is what the tests found, the process and its
  agent, and the heap of the port lists.
\<close>

definition unit_main ::
    "env \<Rightarrow> env \<Rightarrow> (nat \<Rightarrow> u64) \<Rightarrow> tm \<Rightarrow> world \<Rightarrow> (outcome list \<times> (world \<times> world) \<times> pmem) option" where
  "unit_main env ae alloc now w =
     (if \<not> mock env then Some ([], (w, w), init_pmem)
      else do {
        let _ = test_hex_string_to_address;
        (o1, m) \<leftarrow> test_iport_marshalling alloc init_pmem;
        (o2, w) \<leftarrow> test_connection env now w;
        (o3, ws, m) \<leftarrow> test_integration env ae alloc w m;
        Some ([o1, o2, o3], ws, m) })"

section \<open>The tests of the port lists\<close>

lemma VERIFY_True [simp]: "VERIFY True n w k = k"
  by (simp add: VERIFY_def)

lemma iport_marshalling_run:
  assumes "fresh 3 alloc m"
  shows "\<exists>m'. test_iport_marshalling alloc m = Some (Passed, m') \<and> nodes m' = nodes m \<and> fresh 1 alloc m'"
proof -
  have f: "fresh (Suc (Suc (Suc 0))) alloc m" using assms by (simp add: numeral_3_eq_3)
  obtain a m1 where a: "add_port_m alloc 0 1 m = Some (a, m1)" "pls (nodes m1) a (Port 1 PNull) [a]"
      "nodes m a = None" "nodes m1 = (nodes m)(a \<mapsto> (1, 0))" "fresh (Suc (Suc 0)) alloc m1"
    using add_port_m_correct [OF f, of 0 PNull "[]" 1] by (auto simp: add_port_def)
  obtain b m2 where b: "add_port_m alloc a 5 m1 = Some (b, m2)"
      "pls (nodes m2) b (Port 5 (Port 1 PNull)) [b, a]" "nodes m1 b = None"
      "nodes m2 = (nodes m1)(b \<mapsto> (5, a))" "fresh (Suc 0) alloc m2"
    using add_port_m_correct [OF a(5,2), of 5] by (auto simp: add_port_def)
  have "marshal_iports_m a m1 = Some 1" "marshal_iports_m b m2 = Some 17"
    using marshal_iports_m_correct [OF a(2)] marshal_iports_m_correct [OF b(2)]
    by (simp_all add: marshal_iports_def shl_one_def)
  moreover obtain m3 where "free_iport_list b m2 = Some m3"
      "nodes m3 = (\<lambda>x. if x \<in> set [b, a] then None else nodes m2 x)" "fresh 1 alloc m3"
    using free_iport_list_correct [OF b(2)] fresh_free [OF b(5), of "set [b, a]"] by fastforce
  moreover have "(\<lambda>x. if x \<in> set [b, a] then None else nodes m2 x) = nodes m"
    using a(3,4) b(3,4) by (auto split: if_splits)
  ultimately show ?thesis using a(1) b(1) by (simp add: test_iport_marshalling_def)
qed

text \<open>One list made, printed and freed.\<close>

lemma list_cycle:
  assumes "fresh (8 + N) alloc m"
  obtains p m' pl m'' where "unmarshal_iports_m alloc n m = Some (p, m')" "unmarshal_iports n = Some pl"
    "cycle_ports m' p = Some (ports_of pl)" "marshal_iports_m p m' = Some n"
    "free_iport_list p m' = Some m''" "fresh N alloc m''"
    "n \<noteq> 0 \<Longrightarrow> marshal_iports_m p m'' = None"
proof -
  obtain p m' pl as where u: "unmarshal_iports_m alloc n m = Some (p, m')" "unmarshal_iports n = Some pl"
      "fresh N alloc m'" "pls (nodes m') p pl as"
    using unmarshal_iports_m_correct [OF assms] by blast
  note fr = free_iport_list_correct [OF u(4)]
  show thesis
  proof (rule that [OF u(1,2) cycle_ports_correct [OF u(4)] _ fr fresh_free [OF u(3)]])
    show "marshal_iports_m p m' = Some n"
      using marshal_iports_m_correct [OF u(4)] port_mask.encode_decode [OF u(2)] by simp
    show "marshal_iports_m p (m'\<lparr>nodes := \<lambda>a. if a \<in> set as then None else nodes m' a\<rparr>) = None" if "n \<noteq> 0"
      using freed_dangling [OF u(4) unmarshal_nonempty [OF u(2) that] fr] by blast
  qed
qed

lemma demo_alloc_fresh: "fresh 24 demo_alloc init_pmem"
  by (rule demo_alloc_fresh_upto) simp

section \<open>The test of the registry\<close>

text \<open>What the test's string literals look like to the library.\<close>

lemma length_lit [simp]: "length (lit s) = Suc (length s)"
  by (simp add: lit_def cstr_def)

lemma literal_id:
  assumes "0 \<notin> set (cstr s)" "length s \<le> 36" "36 \<le> length (lit s @ rodata env s)"
  shows "cid_key (lit s @ rodata env s) = cstr s"
    "cid_key (take 36 (lit s @ rodata env s) @ x) = cstr s"
proof -
  have u: "upto_nul (take 36 (lit s @ r)) = cstr s" for r
    using assms(1,2) by (auto simp: lit_def upto_nul_append upto_nul_id cstr_def take_Cons')
  have "take 36 (take 36 (lit s @ rodata env s) @ x) = take 36 (lit s @ rodata env s)"
    using assms(3) by (simp add: take_append del: length_append) (simp add: min_def)
  with u show "cid_key (lit s @ rodata env s) = cstr s"
    "cid_key (take 36 (lit s @ rodata env s) @ x) = cstr s"
    by (simp_all only: cid_key_def layout_defs)
qed

lemma literal_name:
  assumes "0 \<notin> set (cstr s)" "length s < n"
  shows "strncpy_src (lit s @ r) n = Some (cstr s @ replicate (n - length s) 0)"
proof -
  have "upto_nul (take n (lit s @ r)) = cstr s"
    using assms by (auto simp: lit_def upto_nul_append upto_nul_id cstr_def take_Cons')
  then show ?thesis by (simp add: strncpy_src_defined cstr_def)
qed

text \<open>A connection made of one-letter literals; the loops of the registry, one node at a time.\<close>

lemma new_conn_literal:
  assumes "ext env (trace w) (Malloc 328) = (r, a)" "a \<noteq> 0" "heap w a = None" and m: "mock env"
    and "0 \<notin> set (cstr s)" "length s < 36" "36 \<le> length (lit s @ rodata env s)"
    and "0 \<notin> set (cstr n)" "length n < 256"
  obtains c where "new_conn env (literal env s) (literal env n) sz nohp w =
      Some (a, w\<lparr>trace := trace w @ [Malloc 328], heap := (heap w)(a \<mapsto> c)\<rparr>)"
    "csize c = sz" "cnext c = 0" "cid_key (circuit_id c) = cstr s" "0 \<in> set (circuit_id c)"
    "length (circuit_id c) = Suc CIRCUIT_ID_SIZE" "strcmp_eq (circuit_id c) (lit s) = Some True"
    "strcmp_eq (afu_name c) (lit n) = Some True"
proof -
  let ?c = "\<lparr> circuit_id = take 36 (lit s @ rodata env s) @ [junk env (trace w) 36],
      afu_name = cstr n @ replicate (256 - length n) 0, csize = sz, ea = junk_word env (trace w) 304,
      cnext = 0, no_hotplug = nohp, afu = junk_word env (trace w) 328, stat_tid = 0,
      global = junk_word env (trace w) 344, pp_mmio = junk_word env (trace w) 352 \<rparr>"
  have nc: "new_conn env (literal env s) (literal env n) sz nohp w =
      Some (a, w\<lparr>trace := trace w @ [Malloc 328], heap := (heap w)(a \<mapsto> ?c)\<rparr>)"
    using assms
    by (simp add: new_conn_def sys_def literal_def literal_name layout_defs mem_read_def Let_def)
  have key: "cid_key (circuit_id ?c) = cstr s"
    using literal_id(2) [OF assms(5) less_imp_le [OF assms(6)] assms(7)] by (simp only: connection.simps)
  have z: "0 \<in> set (circuit_id ?c)"
    using assms(6) by (simp add: lit_def cstr_def take_Cons')
  have len: "length (circuit_id ?c) = Suc CIRCUIT_ID_SIZE" using assms(7) by (simp add: layout_defs)
  have "upto_nul (circuit_id ?c) = cstr s"
    using assms(5,6) by (simp add: lit_def cstr_def upto_nul_append upto_nul_id take_Cons')
  then have "strcmp_eq (circuit_id ?c) (lit s) = Some True"
    using z assms(5) by (subst strcmp_eq_iff) (simp_all add: lit_def upto_nul_append upto_nul_id)
  moreover have "strcmp_eq (afu_name ?c) (lit n) = Some True"
    using assms(8,9) by (subst strcmp_eq_iff) (simp_all add: lit_def upto_nul_append upto_nul_id)
  ultimately show thesis using that [OF nc _ _ key z len] by simp
qed

lemma get_conn_step:
  assumes "p \<noteq> 0" "h p = Some r" "length (circuit_id r) = Suc CIRCUIT_ID_SIZE" "CIRCUIT_ID_SIZE \<le> length cid"
  shows "get_conn_loop h cid p =
    (if cid_key (circuit_id r) = cid_key cid then Some p else get_conn_loop h cid (cnext r))"
  using assms by (subst get_conn_loop.simps) (simp add: strncmp_cid)

lemma get_conn_end: "get_conn_loop h cid 0 = Some 0"
  by (simp add: get_conn_loop.simps)

lemma del_conn_step:
  assumes "p \<noteq> 0" "heap w p = Some r" "length (circuit_id r) = Suc CIRCUIT_ID_SIZE"
    "CIRCUIT_ID_SIZE \<le> length cid"
  shows "del_conn_loop env cid p prev w =
    (if cid_key (circuit_id r) = cid_key cid then drop_conn env p prev r w
     else del_conn_loop env cid (cnext r) p w)"
  using assms by (subst del_conn_loop.simps) (simp add: strncmp_cid)

lemma list_step:
  assumes "p \<noteq> 0" "h p = Some r" "0 \<in> set (circuit_id r)"
  shows "\<exists>l. list_loop now h p = (list_loop now h (cnext r) \<bind> (\<lambda>rest. Some (l # rest)))"
  using assms by (subst list_loop.simps) (auto simp: print_cstr_def)

lemma drop_conn_mock:
  "mock env \<Longrightarrow> drop_conn env runner prev r w = do {
     w1 \<leftarrow> unlink_conn runner prev r w;
     (_, w3) \<leftarrow> free_conn env runner w1;
     Some (CONN_SUCCESS, w3) }"
  by (simp add: drop_conn_def)

lemma connection_test_run:
  fixes t :: "call list" and lv cl nb
  defines "W \<equiv> \<lambda>t h l. \<lparr> trace = t, heap = h, clist = l, live = lv, cells = cl, nbufs = nb \<rparr>"
  assumes m: "mock env" and ro: "\<forall>s. 34 \<le> length (rodata env s)"
    and al: "ext env t (Malloc 328) = (r1, a1)" "ext env (t @ [Malloc 328]) (Malloc 328) = (r2, a2)"
      "ext env (t @ [Malloc 328, Malloc 328]) (Malloc 328) = (r3, a3)" "distinct [0, a1, a2, a3]"
  shows "test_connection env now (W t Map.empty 0) =
    Some (Passed, W (t @ [Malloc 328, Malloc 328, Malloc 328, Free a2, Free a1, Free a3]) Map.empty 0)"
proof -
  let ?t1 = "t @ [Malloc 328]" and ?t2 = "t @ [Malloc 328, Malloc 328]"
  let ?t3 = "t @ [Malloc 328, Malloc 328, Malloc 328]"
  let ?t4 = "?t3 @ [Free a2]" and ?t5 = "?t3 @ [Free a2, Free a1]"
  have lits: "0 \<notin> set (cstr ''a'')" "0 \<notin> set (cstr ''b'')" "0 \<notin> set (cstr ''c'')"
      "0 \<notin> set (cstr ''afu1'')" "0 \<notin> set (cstr ''afu2'')" "0 \<notin> set (cstr ''afu3'')"
    by (simp_all add: cstr_def)
  have long: "36 \<le> length (lit [x] @ rodata env [x])" for x
    using ro [rule_format, of "[x]"] by simp
  have keys: "cid_key (lit [x] @ rodata env [x]) = cstr [x]" if "0 \<notin> set (cstr [x])" for x
    using literal_id(1) [OF that _ long] by simp
  have full: "CIRCUIT_ID_SIZE \<le> length (lit [x] @ rodata env [x])" for x
    using long [of x] by (simp add: layout_defs)
  have neq: "cstr ''a'' \<noteq> cstr ''b''" "cstr ''a'' \<noteq> cstr ''c''" "cstr ''b'' \<noteq> cstr ''c''"
    by (simp_all add: cstr_def)
  obtain c1 where c1: "new_conn env (literal env ''a'') (literal env ''afu1'') 10 0 (W t Map.empty 0) =
        Some (a1, W ?t1 [a1 \<mapsto> c1] 0)"
      "csize c1 = 10" "cnext c1 = 0" "cid_key (circuit_id c1) = cstr ''a''" "0 \<in> set (circuit_id c1)"
      "length (circuit_id c1) = Suc CIRCUIT_ID_SIZE" "strcmp_eq (circuit_id c1) (lit ''a'') = Some True"
      "strcmp_eq (afu_name c1) (lit ''afu1'') = Some True"
    by (rule new_conn_literal [of env "W t Map.empty 0" r1 a1 "''a''" "''afu1''" 10 0])
       (use al lits long m in \<open>auto simp: W_def\<close>)
  obtain c2 where c2: "new_conn env (literal env ''b'') (literal env ''afu2'') 10 0 (W ?t1 [a1 \<mapsto> c1] a1) =
        Some (a2, W ?t2 [a1 \<mapsto> c1, a2 \<mapsto> c2] a1)"
      "cnext c2 = 0" "cid_key (circuit_id c2) = cstr ''b''" "0 \<in> set (circuit_id c2)"
      "length (circuit_id c2) = Suc CIRCUIT_ID_SIZE" "strcmp_eq (circuit_id c2) (lit ''b'') = Some True"
    by (rule new_conn_literal [of env "W ?t1 [a1 \<mapsto> c1] a1" r2 a2 "''b''" "''afu2''" 10 0])
       (use al lits long m in \<open>auto simp: W_def\<close>)
  let ?c2 = "c2\<lparr>cnext := a1\<rparr>"
  let ?h2 = "[a1 \<mapsto> c1, a2 \<mapsto> ?c2]"
  obtain c3 where c3: "new_conn env (literal env ''c'') (literal env ''afu3'') 10 0 (W ?t2 ?h2 a2) =
        Some (a3, W ?t3 (?h2(a3 \<mapsto> c3)) a2)"
      "cnext c3 = 0" "cid_key (circuit_id c3) = cstr ''c''" "0 \<in> set (circuit_id c3)"
      "length (circuit_id c3) = Suc CIRCUIT_ID_SIZE"
    by (rule new_conn_literal [of env "W ?t2 ?h2 a2" r3 a3 "''c''" "''afu3''" 10 0])
       (use al lits long m in \<open>auto simp: W_def\<close>)
  let ?c3 = "c3\<lparr>cnext := a2\<rparr>"
  let ?h3 = "[a1 \<mapsto> c1, a2 \<mapsto> ?c2, a3 \<mapsto> ?c3]"
  have d: "a1 \<noteq> 0" "a2 \<noteq> 0" "a3 \<noteq> 0" "a1 \<noteq> a2" "a1 \<noteq> a3" "a2 \<noteq> a3"
      "a2 \<noteq> a1" "a3 \<noteq> a1" "a3 \<noteq> a2" using al(4) by auto
  have Wsel: "trace (W tr h l) = tr" "heap (W tr h l) = h" "clist (W tr h l) = l"
      "(W tr h l)\<lparr>heap := h'\<rparr> = W tr h' l" "(W tr h l)\<lparr>clist := l'\<rparr> = W tr h l'"
      "(W tr h l)\<lparr>clist := l', heap := h'\<rparr> = W tr h' l'"
      "(W tr h l)\<lparr>trace := tr', heap := h'\<rparr> = W tr' h' l"
      "(W tr h l)\<lparr>trace := tr', clist := l', heap := h'\<rparr> = W tr' h' l'"
      "(W tr h l)\<lparr>clist := l', trace := tr', heap := h'\<rparr> = W tr' h' l'" for tr h l tr' h' l'
    by (simp_all add: W_def)
  have k: "cid_key (lit ''b'' @ rodata env ''b'') = cstr ''b''"
      "cid_key (lit ''a'' @ rodata env ''a'') = cstr ''a''"
      "cid_key (lit ''c'' @ rodata env ''c'') = cstr ''c''"
    using keys lits by simp_all
  note step = get_conn_step get_conn_end
  have add1: "add_conn a1 (W ?t1 [a1 \<mapsto> c1] 0) = Some (CONN_NULL, W ?t1 [a1 \<mapsto> c1] a1)"
    by (simp add: add_conn_def Wsel)
  have add2: "add_conn a2 (W ?t2 [a1 \<mapsto> c1, a2 \<mapsto> c2] a1) = Some (CONN_SUCCESS, W ?t2 ?h2 a2)"
    using d c1 c2 neq by (simp add: add_conn_def get_conn_def Wsel step)
  have add3: "add_conn a3 (W ?t3 (?h2(a3 \<mapsto> c3)) a2) = Some (CONN_SUCCESS, W ?t3 ?h3 a3)"
    using d c1 c2 c3 neq by (simp add: add_conn_def get_conn_def Wsel step)
  have ls: "list_connections now (W ?t3 ?h3 a3) \<noteq> None"
  proof -
    obtain l1 where "list_loop now ?h3 a1 = (list_loop now ?h3 (cnext c1) \<bind> (\<lambda>rest. Some (l1 # rest)))"
      using list_step [of a1 ?h3 c1 now] d c1(5) by auto
    moreover obtain l2 where "list_loop now ?h3 a2 = (list_loop now ?h3 a1 \<bind> (\<lambda>rest. Some (l2 # rest)))"
      using list_step [of a2 ?h3 ?c2 now] d c2(4) by auto
    moreover obtain l3 where "list_loop now ?h3 a3 = (list_loop now ?h3 a2 \<bind> (\<lambda>rest. Some (l3 # rest)))"
      using list_step [of a3 ?h3 ?c3 now] d c3(4) by auto
    moreover have "list_loop now ?h3 0 = Some []" by (simp add: list_loop.simps)
    ultimately show ?thesis using c1(3) by (simp add: list_connections_def Wsel)
  qed
  have got: "get_conn (literal env ''b'') (W ?t3 ?h3 a3) = Some a2"
    using d c2 c3 neq full by (simp add: get_conn_def literal_def Wsel step k)
  let ?h4 = "[a1 \<mapsto> c1, a3 \<mapsto> c3\<lparr>cnext := a1\<rparr>]" and ?h5 = "[a3 \<mapsto> c3\<lparr>cnext := 0\<rparr>]"
  have del1: "del_conn env (literal env ''b'') (W ?t3 ?h3 a3) = Some (CONN_SUCCESS, W ?t4 ?h4 a3)"
    using d c1 c2 c3 neq full m by (simp add: del_conn_def literal_def Wsel del_conn_step k drop_conn_mock unlink_conn_def free_conn_def)
  have del2: "del_conn env (literal env ''a'') (W ?t4 ?h4 a3) = Some (CONN_SUCCESS, W ?t5 ?h5 a3)"
    using d c1 c2 c3 neq full m by (simp add: del_conn_def literal_def Wsel del_conn_step k drop_conn_mock unlink_conn_def free_conn_def)
  have del3: "del_conn env (literal env ''c'') (W ?t5 ?h5 a3) = Some (CONN_SUCCESS, W (?t5 @ [Free a3]) Map.empty 0)"
    using d c1 c2 c3 neq full m by (simp add: del_conn_def literal_def Wsel del_conn_step k drop_conn_mock unlink_conn_def free_conn_def)
  obtain ls where "list_connections now (W ?t3 ?h3 a3) = Some ls" using ls by blast
  then show ?thesis
    unfolding test_connection_def
    using c1 c2 c3 add1 add2 add3 got del1 del2 del3 d by (simp add: and_also_def Wsel)
qed

section \<open>The integration test\<close>

text \<open>The shape the four client functions share.\<close>

definition send_marshalled ::
    "env \<Rightarrow> (world \<Rightarrow> (cptr \<times> world) option) \<Rightarrow> cptr \<Rightarrow> sock \<Rightarrow> world \<Rightarrow>
     (pmessage \<times> sock \<times> world) option" where
  "send_marshalled ce marshal path s w = do {
     (msg, w1) \<leftarrow> marshal w;
     (rsp, s1, w2) \<leftarrow> send_cmd ce msg path s w1;
     Some (rsp, s1, free_buf msg w2) }"

lemma send_functions:
  "send_attach_memory_msg ce cid nm pl sz path = send_marshalled ce (marshal_attach_memory_request ce cid nm pl sz) path"
  "send_detach_memory_msg ce cid path = send_marshalled ce (marshal_detach_memory_request ce cid) path"
  "send_attach_compute_msg ce cid nm pl sz e h path =
     send_marshalled ce (marshal_attach_compute_request ce cid nm pl sz e h) path"
  "send_detach_compute_msg ce cid path = send_marshalled ce (marshal_detach_compute_request ce cid) path"
  by (intro ext, simp add: send_marshalled_def send_attach_memory_msg_def send_detach_memory_msg_def
      send_attach_compute_msg_def send_detach_compute_msg_def)+

lemma rpc_spec:
  assumes client: "malloc_ok ce" "sockets_ok ce" "0 \<in> set p" "hd p \<noteq> 0"
    and msg: "marshal wc = Some (Some m, wm)" "is_msg m"
    and agent: "malloc_ok ae" "fst (ext ae (trace wa) (Accept sfd)) \<noteq> -1" "is_request k"
      "upto_nul (v_type (view m)) = cstr (mtype_name k)"
    and wy: "wy = after_mallocs [MSG_SIZE, MSGTYPE_SIZE] (wa\<lparr>trace := trace wa @ [Accept sfd]\<rparr>)"
    and op: "exec_request k ae (view m) (uninit_ea ae k wy) (after_mallocs (request_allocs k) wy) =
      Some ((rc, e), wz)"
  shows "\<exists>rsp wc' wa'. rpc ae sfd (send_marshalled ce marshal (Some p)) (wc, wa) = Some (rsp, wc', wa') \<and>
     p_status rsp = rc \<and> heap wa' = heap wz \<and> clist wa' = clist wz \<and> live wa' = live wz"
proof -
  let ?s = "\<lambda>r. \<lparr> s_in = [Received r], s_out = [Wrote MSG_SIZE], s_sent = [] \<rparr>"
  let ?e = "\<lambda>m. \<lparr> s_in = [], s_out = [], s_sent = m \<rparr>"
  let ?send = "send_marshalled ce marshal (Some p)"
  have ans: "\<exists>rsp wc'. ?send (?s r) wc = Some (rsp, ?e m, wc') \<and> p_status rsp = v_status (view r)"
    if r: "is_msg r" for r
    using send_cmd_spec [OF client msg(2) r, of "?s r" wm] msg(1) by (auto simp: send_marshalled_def)
  have "is_msg (replicate MSG_SIZE 0)" by (simp add: is_msg_def)
  from ans [OF this] obtain rsp0 wc0 where first: "?send (?s (replicate MSG_SIZE 0)) wc = Some (rsp0, ?e m, wc0)"
    by blast
  obtain r wa2 where r: "handle_request ae (?s m) (wa\<lparr>trace := trace wa @ [Accept sfd]\<rparr>) = Some (?e r, wa2)"
      "responds k (view m) rc e r" "heap wa2 = heap wz" "clist wa2 = clist wz" "live wa2 = live wz"
    using handle_request_serves [OF agent(1) msg(2) agent(3) _ _ agent(4) wy op, of "?s m" "[]" "[]"]
    by auto
  from r(2) have isr: "is_msg r" "v_status (view r) = rc" by (simp_all add: responds_def)
  obtain rsp wc' where "?send (?s r) wc = Some (rsp, ?e m, wc')" "p_status rsp = rc"
    using ans [OF isr(1)] isr(2) by auto
  with first r agent(2) show ?thesis by (simp add: rpc_def Let_def)
qed

text \<open>The agent between the requests: no circuit, or the one of the test.\<close>

definition no_circuit :: "world \<Rightarrow> bool" where
  "no_circuit w \<longleftrightarrow> heap w = Map.empty \<and> clist w = 0 \<and> live w = []"

definition one_circuit :: "bytes \<Rightarrow> bool \<Rightarrow> world \<Rightarrow> bool" where
  "one_circuit k mem w \<longleftrightarrow> (\<exists>a c. heap w = [a \<mapsto> c] \<and> reg_list w [a] \<and> conn_key (heap w) a = k \<and>
     (if mem then ea c \<noteq> 0 \<and> live w = [ea c] else live w = []))"

lemma register_empty:
  assumes "malloc_ok env" "no_circuit w" "CIRCUIT_ID_SIZE \<le> length cid" "0 \<in> set nm"
  shows "\<exists>a w' c. register_conn env (Some cid) (Some nm) sz nohp w = Some (a, w') \<and>
     heap w' = [a \<mapsto> c] \<and> reg_list w' [a] \<and> conn_key (heap w') a = cid_key cid \<and> live w' = []"
proof -
  have reg: "reg_list w []" using assms(2) by (simp add: reg_list_def no_circuit_def)
  obtain r a where a: "ext env (trace w) (Malloc (conn_size env)) = (r, a)" by fastforce
  then have "a \<noteq> 0" using assms(1) unfolding malloc_ok_def by (metis snd_conv)
  moreover have "heap w a = None" "AFUNAME_SIZE \<le> length nm \<or> 0 \<in> set nm"
    using assms(2,4) by (simp_all add: no_circuit_def)
  ultimately obtain w' where w': "register_conn env (Some cid) (Some nm) sz nohp w = Some (a, w')"
    using register_conn_defined [OF reg a _ _ assms(3)] by blast
  obtain c where c: "heap w' a = Some c" "cid_key (circuit_id c) = cid_key cid" "reg_list w' [a]"
      "\<forall>x. x \<noteq> a \<longrightarrow> heap w' x = heap w x" "live w' = live w"
    using register_conn_correct [OF reg w'] by auto
  have "heap w' = [a \<mapsto> c]" using c(1,4) assms(2) by (auto simp: no_circuit_def)
  with w' c assms(2) show ?thesis by (auto simp: no_circuit_def conn_key_def)
qed

text \<open>The aligned allocation succeeds.\<close>

definition memalign_ok :: "env \<Rightarrow> bool" where
  "memalign_ok env \<longleftrightarrow> (\<forall>tr al sz. fst (ext env tr (Posix_memalign al sz)) = 0 \<and>
     snd (ext env tr (Posix_memalign al sz)) \<noteq> 0)"

lemma attach_memory_one:
  assumes "mock env" "malloc_ok env" "no_circuit w" "CIRCUIT_ID_SIZE \<le> length cid" "0 \<in> set nm"
    "memalign_ok env"
  shows "\<exists>e w'. attach_memory env (Some cid) (Some nm) ports sz u w = Some ((ATTACH_OK, e), w') \<and>
     one_circuit (cid_key cid) True w'"
proof -
  obtain a w1 c where r: "register_conn env (Some cid) (Some nm) sz 0 w = Some (a, w1)"
      "heap w1 = [a \<mapsto> c]" "reg_list w1 [a]" "conn_key (heap w1) a = cid_key cid" "live w1 = []"
    using register_empty [OF assms(2-5)] by blast
  obtain p where p: "ext env (trace w1) (Posix_memalign CACHE_ALIGNMENT (drop_bit 20 256)) = (0, p)" "p \<noteq> 0"
    using assms(6) unfolding memalign_ok_def by (metis prod.collapse)
  let ?w = "w1\<lparr>trace := trace w1 @ [Posix_memalign CACHE_ALIGNMENT (drop_bit 20 256)], live := [p],
      heap := [a \<mapsto> c\<lparr>ea := p\<rparr>]\<rparr>"
  have "attach_memory env (Some cid) (Some nm) ports sz u w = Some ((ATTACH_OK, p), ?w)"
    using r p assms(1) by (simp add: attach_memory_def memalign_def put_node_def Let_def)
  moreover have "reg_list ?w [a] = reg_list w1 [a]"
    by (rule reg_list_node_upd [of w1 a c "c\<lparr>ea := p\<rparr>"]) (simp_all add: r(2))
  ultimately have "one_circuit (cid_key cid) True ?w" using r p(2)
    unfolding one_circuit_def
    by (intro exI [of _ a] exI [of _ "c\<lparr>ea := p\<rparr>"]) (simp add: conn_key_def)
  with \<open>attach_memory _ _ _ _ _ _ _ = _\<close> show ?thesis by blast
qed

lemma attach_compute_one:
  assumes "mock env" "malloc_ok env" "no_circuit w" "CIRCUIT_ID_SIZE \<le> length cid" "0 \<in> set nm"
  shows "\<exists>w'. attach_compute env (Some cid) (Some nm) (Port n PNull) e sz nohp w = Some (ATTACH_OK, w') \<and>
     one_circuit (cid_key cid) False w'"
  using register_empty [OF assms(2-5), of sz nohp] assms(1)
  by (auto simp: attach_compute_def one_circuit_def)

lemma del_conn_one:
  assumes "mock env" "heap w = [a \<mapsto> c]" "reg_list w [a]" "conn_key (heap w) a = cid_key cid"
    "CIRCUIT_ID_SIZE \<le> length cid"
  shows "\<exists>w'. del_conn env (Some cid) w = Some (CONN_SUCCESS, w') \<and> heap w' = Map.empty \<and> clist w' = 0 \<and>
     live w' = live w"
proof -
  obtain rc w' where ret: "del_conn env (Some cid) w = Some (rc, w')"
    using del_conn_defined [OF assms(3,5)] assms(1) by blast
  from del_conn_present [OF assms(3,5) _ assms(4) ret]
  have d: "rc = CONN_SUCCESS" "reg_list w' []" "heap w' a = None" "live w' = live w"
      "\<And>x. x \<noteq> a \<Longrightarrow> map_option payload (heap w' x) = map_option payload (heap w x)" by simp_all
  have "heap w' x = None" for x using d(3) d(5) [of x] assms(2) by (cases "x = a") auto
  with ret d show ?thesis by (auto simp: reg_list_def)
qed

lemma detach_memory_one:
  assumes "mock env" "one_circuit (cid_key cid) True w" "CIRCUIT_ID_SIZE \<le> length cid"
  shows "\<exists>w'. detach_memory env (Some cid) w = Some (DETACH_OK, w') \<and> no_circuit w'"
proof -
  obtain a c where w: "heap w = [a \<mapsto> c]" "reg_list w [a]" "conn_key (heap w) a = cid_key cid" "ea c \<noteq> 0"
      "live w = [ea c]" using assms(2) by (auto simp: one_circuit_def)
  let ?w = "w\<lparr>trace := trace w @ [Free (ea c)], live := []\<rparr>"
  have "reg_list ?w [a]" using w(2) reg_list_frame [of ?w w] by simp
  then obtain w' where "del_conn env (Some cid) ?w = Some (CONN_SUCCESS, w')" "no_circuit w'"
    using del_conn_one [OF assms(1), of ?w a c cid] w assms(3) by (auto simp: no_circuit_def)
  then show ?thesis
    using get_conn_present [OF w(2) assms(3) _ w(3)] w by (auto simp: detach_memory_def free_block_def)
qed

lemma detach_compute_one:
  assumes "mock env" "one_circuit (cid_key cid) False w" "CIRCUIT_ID_SIZE \<le> length cid"
  shows "\<exists>w'. detach_compute env (Some cid) w = Some (DETACH_OK, w') \<and> no_circuit w'"
proof -
  obtain a c where w: "heap w = [a \<mapsto> c]" "reg_list w [a]" "conn_key (heap w) a = cid_key cid" "live w = []"
    using assms(2) by (auto simp: one_circuit_def)
  then obtain w' where "del_conn env (Some cid) w = Some (CONN_SUCCESS, w')" "no_circuit w'"
    using del_conn_one [OF assms(1) w(1-3) assms(3)] by (auto simp: no_circuit_def)
  then show ?thesis
    using get_conn_present [OF w(2) assms(3) _ w(3)] w assms(1) by (auto simp: detach_compute_def)
qed

lemma circuit_frame:
  assumes "heap w' = heap w" "clist w' = clist w" "live w' = live w"
  shows "no_circuit w' = no_circuit w" "one_circuit k mem w' = one_circuit k mem w"
  using assms reg_list_frame [OF assms(1,2)] by (simp_all add: no_circuit_def one_circuit_def)

lemma ports_one: "unmarshal_iports 1 = Some (Port 1 PNull)"
proof -
  obtain pl where pl: "unmarshal_iports 1 = Some pl" "ports_of pl = rev (mask_ports 1 [0..<8])"
    using unmarshal_iports_ports by blast
  have "mask_ports 1 [0..<8] = [1]" by (simp add: mask_ports_def upt_rec bit_1_iff)
  with pl(2) have "ports_of pl = [1]" by simp
  then have "pl = Port 1 PNull" by (cases pl) auto
  with pl(1) show ?thesis by simp
qed

text \<open>What the client of the test and its agent need.\<close>

definition client_ready :: "env \<Rightarrow> bool" where
  "client_ready ce \<longleftrightarrow> malloc_ok ce \<and> rodata_ok ce \<and> sockets_ok ce \<and> (\<forall>s. 256 \<le> length (rodata ce s))"

definition fork_ok :: "env \<Rightarrow> bool" where
  "fork_ok ce \<longleftrightarrow> (\<forall>tr. 0 <s fst (ext ce tr Fork))"

definition agent_ready :: "env \<Rightarrow> bool" where
  "agent_ready ae \<longleftrightarrow> mock ae \<and> malloc_ok ae \<and> memalign_ok ae \<and>
     (\<forall>tr fd p. fst (ext ae tr Socket) \<noteq> -1 \<and> fst (ext ae tr (Bind fd p)) \<noteq> -1 \<and>
        fst (ext ae tr (Accept fd)) \<noteq> -1 \<and>
        (fst (ext ae tr (Remove p)) = -1 \<longrightarrow> snd (ext ae tr (Remove p)) = ENOENT))"

abbreviation test_cid :: "env \<Rightarrow> bytes" where
  "test_cid ce \<equiv> lit test_id @ rodata ce test_id"

abbreviation test_key :: "env \<Rightarrow> bytes" where
  "test_key ce \<equiv> cid_key (take CIRCUIT_ID_SIZE (test_cid ce) @ [0])"

lemma test_strings:
  assumes "client_ready ce"
  shows "CIRCUIT_ID_SIZE \<le> length (test_cid ce)" "AFUNAME_SIZE \<le> length (lit test_afu @ rodata ce test_afu)"
    "hd (lit test_afu @ rodata ce test_afu) \<noteq> 0" "hd (lit test_sock @ rodata ce test_sock) \<noteq> 0"
    "test_size \<noteq> 0" "test_size mod MEMBLOCK_SIZE = 0"
proof -
  have "256 \<le> length (rodata ce s)" for s using assms by (simp add: client_ready_def)
  from this [of test_id] this [of test_afu]
  show "CIRCUIT_ID_SIZE \<le> length (test_cid ce)" "AFUNAME_SIZE \<le> length (lit test_afu @ rodata ce test_afu)"
    by (simp_all add: layout_defs)
qed (simp_all add: test_afu_def test_sock_def test_size_def MEMBLOCK_SIZE_def lit_def cstr_def)

lemma agent_ready_facts:
  assumes "agent_ready ae"
  shows "mock ae" "malloc_ok ae" "memalign_ok ae" "fst (ext ae tr (Accept fd)) \<noteq> -1"
  using assms by (simp_all add: agent_ready_def)

text \<open>The four requests of the test.\<close>

lemma test_rpc:
  assumes ce: "client_ready ce" and ae: "agent_ready ae"
    and msg: "marshal wc = Some (Some m, wm)" "is_msg m" "is_request k"
      "v_type (view m) = type_field ce (mtype_name k)"
    and op: "\<And>w u. heap w = heap wa \<Longrightarrow> clist w = clist wa \<Longrightarrow> live w = live wa \<Longrightarrow>
      \<exists>e w3. exec_request k ae (view m) u w = Some ((rc, e), w3) \<and> Q w3"
    and Q: "\<And>w w'. heap w' = heap w \<Longrightarrow> clist w' = clist w \<Longrightarrow> live w' = live w \<Longrightarrow> Q w \<Longrightarrow> Q w'"
  shows "\<exists>rsp wc' wa'. rpc ae sfd (send_marshalled ce marshal (literal ce test_sock)) (wc, wa) =
       Some (rsp, wc', wa') \<and> p_status rsp = rc \<and> Q wa'"
proof -
  let ?w0 = "after_mallocs [MSG_SIZE, MSGTYPE_SIZE] (wa\<lparr>trace := trace wa @ [Accept sfd]\<rparr>)"
  let ?w1 = "after_mallocs (request_allocs k) ?w0"
  obtain e w3 where x: "exec_request k ae (view m) (uninit_ea ae k ?w0) ?w1 = Some ((rc, e), w3)" "Q w3"
    using op [of ?w1] by fastforce
  have c: "malloc_ok ce" "sockets_ok ce" "rodata_ok ce" using ce by (simp_all add: client_ready_def)
  have ty: "upto_nul (v_type (view m)) = cstr (mtype_name k)"
    using type_field_name [OF c(3)] msg(4) by simp
  have acc: "fst (ext ae (trace wa) (Accept sfd)) \<noteq> -1" by (rule agent_ready_facts(4) [OF ae])
  have nul: "0 \<in> set (lit test_sock @ rodata ce test_sock)" by simp
  obtain rsp wc' wa' where "rpc ae sfd (send_marshalled ce marshal (literal ce test_sock)) (wc, wa) = Some (rsp, wc', wa')" "p_status rsp = rc"
      "heap wa' = heap w3" "clist wa' = clist w3" "live wa' = live w3"
    unfolding literal_def
    using rpc_spec [where ce = ce and ae = ae and marshal = marshal and wc = wc and m = m and wm = wm
        and k = k and wa = wa and sfd = sfd and wy = ?w0 and rc = rc and e = e and wz = w3,
        OF c(1,2) nul test_strings(4) [OF ce] msg(1,2) agent_ready_facts(2) [OF ae] acc msg(3) ty refl x(1)] by auto
  with Q [OF this(3-5) x(2)] show ?thesis by blast
qed

lemma test_attach_memory:
  assumes ce: "client_ready ce" and ae: "agent_ready ae" and wa: "no_circuit wa"
  shows "\<exists>rsp wc' wa'. rpc ae sfd (send_attach_memory_msg ce (literal ce test_id) (literal ce test_afu)
       (Port 1 PNull) test_size (literal ce test_sock)) (wc, wa) = Some (rsp, wc', wa') \<and>
     p_status rsp = ATTACH_OK \<and> one_circuit (test_key ce) True wa'"
proof -
  note str = test_strings [OF ce]
  have c: "malloc_ok ce" "rodata_ok ce" using ce by (simp_all add: client_ready_def)
  obtain m where m: "marshal_attach_memory_request ce (literal ce test_id) (literal ce test_afu) (Port 1 PNull)
        test_size wc = Some (Some m, after_mallocs [MSG_SIZE] wc)" "is_msg m"
      "view m = snd (spec_ops [Set_circuitid (test_cid ce),
        Set_msgtype (lit MEMORY_ATTACH @ rodata ce MEMORY_ATTACH), Set_afu (lit test_afu @ rodata ce test_afu),
        Set_iports (Port 1 PNull), Set_size test_size] (view (raw_msg ce (trace wc))))"
    using marshal_attach_memory_spec [OF c str(1,2) nul_in_lit(2) demo_port] unfolding literal_def by blast
  have v: "v_cid (view m) = take CIRCUIT_ID_SIZE (test_cid ce)" "v_type (view m) = type_field ce MEMORY_ATTACH"
      "v_ports (view m) = 1"
    using m(3) type_known [OF response_known(7)] str(3,5,6) demo_port
    by (simp_all add: type_field_def Let_def)
  have len: "CIRCUIT_ID_SIZE \<le> length (take CIRCUIT_ID_SIZE (test_cid ce) @ [0])" using str(1) by simp
  have op: "\<exists>e w3. exec_request Memory_Attach ae (view m) u w = Some ((ATTACH_OK, e), w3) \<and>
      one_circuit (test_key ce) True w3"
    if "heap w = heap wa" "clist w = clist wa" "live w = live wa" for w u
  proof -
    have "no_circuit w" using wa circuit_frame(1) [OF that] by simp
    from attach_memory_one [OF agent_ready_facts(1,2) [OF ae] this len _ agent_ready_facts(3) [OF ae], of "v_afu (view m) @ [0]"]
    show ?thesis using v(1,3) by (simp add: ports_one)
  qed
  have rq: "is_request Memory_Attach" by (simp add: is_request_def)
  show ?thesis
    unfolding send_functions
    by (rule test_rpc [where marshal = "marshal_attach_memory_request ce (literal ce test_id) (literal ce test_afu)
        (Port 1 PNull) test_size"
        and wc = wc and ce = ce and ae = ae and k = Memory_Attach and Q = "one_circuit (test_key ce) True" and rc = ATTACH_OK and wa = wa
        and m = m, OF ce ae m(1,2) rq])
      (rule op | simp add: v(2) | metis circuit_frame(2); assumption)+
qed

lemma test_attach_compute:
  assumes ce: "client_ready ce" and ae: "agent_ready ae" and wa: "no_circuit wa"
  shows "\<exists>rsp wc' wa'. rpc ae sfd (send_attach_compute_msg ce (literal ce test_id) (literal ce test_afu)
       (Port 1 PNull) test_size e nohp (literal ce test_sock)) (wc, wa) = Some (rsp, wc', wa') \<and>
     p_status rsp = ATTACH_OK \<and> one_circuit (test_key ce) False wa'"
proof -
  note str = test_strings [OF ce]
  have c: "malloc_ok ce" "rodata_ok ce" using ce by (simp_all add: client_ready_def)
  obtain m where m: "marshal_attach_compute_request ce (literal ce test_id) (literal ce test_afu) (Port 1 PNull)
        test_size e nohp wc = Some (Some m, after_mallocs [MSG_SIZE] wc)" "is_msg m"
      "view m = snd (spec_ops [Set_circuitid (test_cid ce),
        Set_msgtype (lit COMPUTE_ATTACH @ rodata ce COMPUTE_ATTACH), Set_afu (lit test_afu @ rodata ce test_afu),
        Set_iports (Port 1 PNull), Set_size test_size, Set_ea e, Set_no_hotplug nohp]
        (view (raw_msg ce (trace wc))))"
    using marshal_attach_compute_spec [OF c str(1,2) nul_in_lit(2) demo_port] unfolding literal_def by blast
  have v: "v_cid (view m) = take CIRCUIT_ID_SIZE (test_cid ce)" "v_type (view m) = type_field ce COMPUTE_ATTACH"
      "v_ports (view m) = 1"
    using m(3) type_known [OF response_known(5)] str(3,5,6) demo_port
    by (simp_all add: type_field_def Let_def)
  have len: "CIRCUIT_ID_SIZE \<le> length (take CIRCUIT_ID_SIZE (test_cid ce) @ [0])" using str(1) by simp
  have op: "\<exists>e w3. exec_request Compute_Attach ae (view m) u w = Some ((ATTACH_OK, e), w3) \<and>
      one_circuit (test_key ce) False w3"
    if "heap w = heap wa" "clist w = clist wa" "live w = live wa" for w u
  proof -
    have "no_circuit w" using wa circuit_frame(1) [OF that] by simp
    from attach_compute_one [OF agent_ready_facts(1,2) [OF ae] this len, of "v_afu (view m) @ [0]"]
    show ?thesis using v(1,3) by (fastforce simp: ports_one)
  qed
  have rq: "is_request Compute_Attach" by (simp add: is_request_def)
  show ?thesis
    unfolding send_functions
    by (rule test_rpc [where marshal = "marshal_attach_compute_request ce (literal ce test_id) (literal ce test_afu)
        (Port 1 PNull) test_size e nohp"
        and wc = wc and ce = ce and ae = ae and k = Compute_Attach and Q = "one_circuit (test_key ce) False" and rc = ATTACH_OK and wa = wa
        and m = m, OF ce ae m(1,2) rq])
      (rule op | simp add: v(2) | metis circuit_frame(2); assumption)+
qed

lemma test_detach:
  assumes ce: "client_ready ce" and ae: "agent_ready ae"
  shows "one_circuit (test_key ce) True wa \<Longrightarrow>
     \<exists>rsp wc' wa'. rpc ae sfd (send_detach_memory_msg ce (literal ce test_id) (literal ce test_sock)) (wc, wa) =
       Some (rsp, wc', wa') \<and> p_status rsp = DETACH_OK \<and> no_circuit wa'"
    and "one_circuit (test_key ce) False wa \<Longrightarrow>
     \<exists>rsp wc' wa'. rpc ae sfd (send_detach_compute_msg ce (literal ce test_id) (literal ce test_sock)) (wc, wa) =
       Some (rsp, wc', wa') \<and> p_status rsp = DETACH_OK \<and> no_circuit wa'"
proof -
  note str = test_strings [OF ce]
  have c: "malloc_ok ce" "rodata_ok ce" using ce by (simp_all add: client_ready_def)
  have len: "CIRCUIT_ID_SIZE \<le> length (take CIRCUIT_ID_SIZE (test_cid ce) @ [0])" using str(1) by simp
  have rq: "is_request Memory_Detach" "is_request Compute_Detach" by (simp_all add: is_request_def)
  show "\<exists>rsp wc' wa'. rpc ae sfd (send_detach_memory_msg ce (literal ce test_id) (literal ce test_sock)) (wc, wa) =
       Some (rsp, wc', wa') \<and> p_status rsp = DETACH_OK \<and> no_circuit wa'"
    if wa: "one_circuit (test_key ce) True wa"
  proof -
    obtain m where m: "marshal_detach_memory_request ce (literal ce test_id) wc =
        Some (Some m, after_mallocs [MSG_SIZE] wc)" "is_msg m"
        "v_cid (view m) = take CIRCUIT_ID_SIZE (test_cid ce)" "v_type (view m) = type_field ce MEMORY_DETACH"
      using marshal_detach_spec(1) [OF c str(1)] unfolding literal_def by blast
    have op: "\<exists>e w3. exec_request Memory_Detach ae (view m) u w = Some ((DETACH_OK, e), w3) \<and> no_circuit w3"
      if "heap w = heap wa" "clist w = clist wa" "live w = live wa" for w u
      using detach_memory_one [OF agent_ready_facts(1) [OF ae] _ len, of w] wa circuit_frame(2) [OF that] m(3)
      by auto
    show ?thesis
      unfolding send_functions
      by (rule test_rpc [where marshal = "marshal_detach_memory_request ce (literal ce test_id)"
        and wc = wc and ce = ce and ae = ae and k = Memory_Detach and Q = no_circuit and rc = DETACH_OK and wa = wa
        and m = m, OF ce ae m(1,2) rq(1)])
      (rule op | simp add: m(4) | metis circuit_frame(1); assumption)+
  qed
  show "\<exists>rsp wc' wa'. rpc ae sfd (send_detach_compute_msg ce (literal ce test_id) (literal ce test_sock)) (wc, wa) =
       Some (rsp, wc', wa') \<and> p_status rsp = DETACH_OK \<and> no_circuit wa'"
    if wa: "one_circuit (test_key ce) False wa"
  proof -
    obtain m where m: "marshal_detach_compute_request ce (literal ce test_id) wc =
        Some (Some m, after_mallocs [MSG_SIZE] wc)" "is_msg m"
        "v_cid (view m) = take CIRCUIT_ID_SIZE (test_cid ce)" "v_type (view m) = type_field ce COMPUTE_DETACH"
      using marshal_detach_spec(2) [OF c str(1)] unfolding literal_def by blast
    have op: "\<exists>e w3. exec_request Compute_Detach ae (view m) u w = Some ((DETACH_OK, e), w3) \<and> no_circuit w3"
      if "heap w = heap wa" "clist w = clist wa" "live w = live wa" for w u
      using detach_compute_one [OF agent_ready_facts(1) [OF ae] _ len, of w] wa circuit_frame(2) [OF that] m(3)
      by auto
    show ?thesis
      unfolding send_functions
      by (rule test_rpc [where marshal = "marshal_detach_compute_request ce (literal ce test_id)"
        and wc = wc and ce = ce and ae = ae and k = Compute_Detach and Q = no_circuit and rc = DETACH_OK and wa = wa
        and m = m, OF ce ae m(1,2) rq(2)])
      (rule op | simp add: m(4) | metis circuit_frame(1); assumption)+
  qed
qed

lemma agent_setup_ready:
  assumes "agent_ready ae" "0 \<in> set p"
  shows "\<exists>sfd w'. agent_setup ae (Some p) w = Some (Inr sfd, w') \<and> heap w' = heap w \<and> clist w' = clist w \<and>
     live w' = live w"
proof -
  obtain sun where "strncpy_src p 107 = Some sun" using strncpy_src_defined [of 107 p] assms(2) by simp
  with assms(1) show ?thesis by (simp add: agent_setup_def agent_ready_def sys_def case_prod_beta Let_def)
qed

lemma integration_run:
  assumes "client_ready ce" "agent_ready ae" "fork_ok ce" "no_circuit w" "fresh 1 alloc m"
  shows "\<exists>wc' wa' m' pid. test_integration ce ae alloc w m = Some (Passed, (wc', wa'), m') \<and> no_circuit wa' \<and>
     nodes m' = nodes m \<and> fst (ext ce (trace w) Fork) = pid \<and> last (trace wc') = Kill pid"
proof -
  note am = test_attach_memory [OF assms(1,2)] and ac = test_attach_compute [OF assms(1,2)]
  note dm = test_detach(1) [OF assms(1,2)] and dc = test_detach(2) [OF assms(1,2)]
  let ?w = "w\<lparr>trace := trace w @ [Fork]\<rparr>" and ?c0 = "w\<lparr>trace := trace w @ [Fork, Sleep 1]\<rparr>"
  obtain sfd wa where agent: "agent_setup ae (literal ce test_sock) ?w = Some (Inr sfd, wa)"
      "heap wa = heap w" "clist wa = clist w" "live wa = live w"
    using agent_setup_ready [OF assms(2) nul_in_lit(2), where w = ?w] unfolding literal_def by fastforce
  have wa: "no_circuit wa" using circuit_frame(1) [OF agent(2-4)] assms(4) by simp
  obtain pid where pid: "fst (ext ce (trace w) Fork) = pid" "pid \<noteq> -1"
  proof -
    have "\<not> 0 <s (-1 :: cint)" by (simp add: word_sless_alt)
    then have "fst (ext ce (trace w) Fork) \<noteq> -1" using assms(3) unfolding fork_ok_def by metis
    with that show thesis by blast
  qed
  have f: "fresh (Suc 0) alloc m" using assms(5) by simp
  obtain p m1 where p: "add_port_m alloc 0 1 m = Some (p, m1)" "pls (nodes m1) p (Port 1 PNull) [p]"
      "nodes m p = None" "nodes m1 = (nodes m)(p \<mapsto> (1, 0))"
    using add_port_m_correct [OF f, of 0 PNull "[]" 1] by (auto simp: add_port_def)
  have ports: "cycle_ports m1 p = Some [1]" using cycle_ports_correct [OF p(2)] by simp
  obtain m2 where m2: "free_iport_list p m1 = Some m2" "nodes m2 = nodes m"
  proof -
    have "(\<lambda>x. if x \<in> set [p] then None else nodes m1 x) = nodes m" using p(3,4) by auto
    with free_iport_list_correct [OF p(2)] that show thesis by simp
  qed
  obtain r1 c1 a1 where 1: "rpc ae sfd (send_attach_memory_msg ce (literal ce test_id) (literal ce test_afu)
       (Port 1 PNull) test_size (literal ce test_sock)) (?c0, wa) = Some (r1, c1, a1)"
      "p_status r1 = ATTACH_OK" "one_circuit (test_key ce) True a1"
    using am [OF wa] by blast
  obtain r2 c2 a2 where 2: "rpc ae sfd (send_detach_memory_msg ce (literal ce test_id) (literal ce test_sock))
       (c1, a1) = Some (r2, c2, a2)" "p_status r2 = DETACH_OK" "no_circuit a2"
    using dm [OF 1(3)] by blast
  obtain r3 c3 a3 where 3: "rpc ae sfd (send_attach_compute_msg ce (literal ce test_id) (literal ce test_afu)
       (Port 1 PNull) test_size (p_ea r1) 1 (literal ce test_sock)) (c2, a2) = Some (r3, c3, a3)"
      "p_status r3 = ATTACH_OK" "one_circuit (test_key ce) False a3"
    using ac [OF 2(3)] by blast
  obtain r4 c4 a4 where 4: "rpc ae sfd (send_detach_compute_msg ce (literal ce test_id) (literal ce test_sock))
       (c3, a3) = Some (r4, c4, a4)" "p_status r4 = DETACH_OK" "no_circuit a4"
    using dc [OF 3(3)] by blast
  obtain r5 c5 a5 where 5: "rpc ae sfd (send_attach_compute_msg ce (literal ce test_id) (literal ce test_afu)
       (Port 1 PNull) test_size (p_ea r1) 0 (literal ce test_sock)) (c4, a4) = Some (r5, c5, a5)"
      "p_status r5 = ATTACH_OK" "one_circuit (test_key ce) False a5"
    using ac [OF 4(3)] by blast
  obtain r6 c6 a6 where 6: "rpc ae sfd (send_detach_compute_msg ce (literal ce test_id) (literal ce test_sock))
       (c5, a5) = Some (r6, c6, a6)" "p_status r6 = DETACH_OK" "no_circuit a6"
    using dc [OF 5(3)] by blast
  show ?thesis
    using pid agent(1) p(1) ports m2 1(1,2) 2(1,2) 3(1,2) 4(1,2) 5(1,2) 6
    by (simp add: test_integration_def)
qed

section \<open>Properties\<close>

text \<open>
  C13: the unit tests pass, end to end, in the \<^verbatim>\<open>MOCK\<close> build, when \<^verbatim>\<open>malloc\<close> succeeds and hands out
  different blocks, \<^verbatim>\<open>fork\<close>, \<^verbatim>\<open>posix_memalign\<close> and the socket calls succeed, the messages arrive
  whole and the bytes behind the string literals can be read: the marshalling test, the registry
  test and the integration test end with every \<^verbatim>\<open>VERIFY\<close> true, no port of a list is left
  allocated, the agent is left without a circuit or memory, and the last thing the test program
  does is terminate it.  The integration test drives all four requests through the client
  library, the messages, the agent and the registry.
\<close>

theorem unit_tests_pass:
  assumes "mock env" "client_ready env" "fork_ok env" "agent_ready ae" "no_circuit w" "fresh 3 alloc init_pmem"
    and "ext env (trace w) (Malloc 328) = (r1, a1)" "ext env (trace w @ [Malloc 328]) (Malloc 328) = (r2, a2)"
      "ext env (trace w @ [Malloc 328, Malloc 328]) (Malloc 328) = (r3, a3)" "distinct [0, a1, a2, a3]"
  shows "\<exists>wc wa m tr. unit_main env ae alloc now w = Some ([Passed, Passed, Passed], (wc, wa), m) \<and>
    no_circuit wa \<and> nodes m = Map.empty \<and> last (trace wc) = Kill (fst (ext env tr Fork))"
proof -
  obtain m where ports: "test_iport_marshalling alloc init_pmem = Some (Passed, m)" "nodes m = Map.empty"
      "fresh 1 alloc m"
    using iport_marshalling_run [OF assms(6)] by (auto simp: init_pmem_def)
  have "34 \<le> length (rodata env s)" for s
  proof -
    have "256 \<le> length (rodata env s)" using assms(2) by (simp add: client_ready_def)
    then show ?thesis by simp
  qed
  then have "\<forall>s. 34 \<le> length (rodata env s)" by blast
  note run = connection_test_run [OF assms(1) this assms(7-10), of now "live w" "cells w" "nbufs w"]
  have "\<exists>w1. test_connection env now w = Some (Passed, w1) \<and> no_circuit w1"
    using assms(5) run by (cases w) (simp add: no_circuit_def)
  then obtain w1 where conn: "test_connection env now w = Some (Passed, w1)" "no_circuit w1" by blast
  from integration_run [OF assms(2,4,3) conn(2) ports(3)] ports(1,2) conn(1) assms(1)
  show ?thesis by (fastforce simp: unit_main_def)
qed

definition unit_env :: env where
  "unit_env = (ok_env True)\<lparr>ext := (\<lambda>tr c. case c of
      Socket \<Rightarrow> (3, 0) | Accept _ \<Rightarrow> (4, 0) | Fork \<Rightarrow> (77, 0) | _ \<Rightarrow> ext (ok_env True) tr c)\<rparr>"

lemma unit_tests_pass_witness:
  "\<exists>wc wa m. unit_main unit_env unit_env demo_alloc demo_tm init_world =
     Some ([Passed, Passed, Passed], (wc, wa), m) \<and> no_circuit wa \<and> nodes m = Map.empty \<and>
     last (trace wc) = Kill 77"
proof -
  have rd: "rodata unit_env = rodata (ok_env True)" by (simp add: unit_env_def)
  have "client_ready unit_env" using demo_client(1-3)
    by (simp add: client_ready_def ok_env_facts malloc_ok_def sockets_ok_def rodata_ok_def rd)
      (simp_all add: unit_env_def)
  moreover have "agent_ready unit_env"
    by (simp add: agent_ready_def malloc_ok_def memalign_ok_def unit_env_def) (simp add: ok_env_def)
  moreover have "fork_ok unit_env" by (simp add: fork_ok_def unit_env_def word_sless_alt)
  moreover have "no_circuit init_world" by (simp add: no_circuit_def)
  moreover have "fresh 3 demo_alloc init_pmem" by (rule fresh_mono [OF demo_alloc_fresh]) simp
  moreover have "mock unit_env" by (simp add: unit_env_def ok_env_facts)
  ultimately have "\<exists>wc wa m tr. unit_main unit_env unit_env demo_alloc demo_tm init_world =
      Some ([Passed, Passed, Passed], (wc, wa), m) \<and> no_circuit wa \<and> nodes m = Map.empty \<and>
      last (trace wc) = Kill (fst (ext unit_env tr Fork))"
    by (intro unit_tests_pass [of _ _ _ _ 0 4096 0 8192 0 12288]; assumption?)
      (simp_all add: unit_env_def, simp_all add: ok_env_def)
  then show ?thesis by (simp add: unit_env_def)
qed

text \<open>
  the other test of the port lists, which the program never runs, has no defined result
  however well \<^verbatim>\<open>malloc\<close> behaves: it marshals a list that it has freed.
\<close>

theorem iport_test_undefined:
  assumes "fresh 24 alloc m"
  shows "test_iport alloc m = None"
proof -
  have N: "fresh (8 + 16) alloc m" using assms by simp
  obtain p1 m1 pl1 n1 where s1: "unmarshal_iports_m alloc 1 m = Some (p1, m1)"
      "cycle_ports m1 p1 = Some (ports_of pl1)" "free_iport_list p1 m1 = Some n1" "fresh 16 alloc n1"
    by (rule list_cycle [OF N, of 1])
  have N1: "fresh (8 + 8) alloc n1" using s1(4) by simp
  obtain p2 m2 pl2 n2 where s2: "unmarshal_iports_m alloc 3 n1 = Some (p2, m2)"
      "cycle_ports m2 p2 = Some (ports_of pl2)" "marshal_iports_m p2 m2 = Some 3"
      "free_iport_list p2 m2 = Some n2" "fresh 8 alloc n2"
    by (rule list_cycle [OF N1, of 3])
  have N2: "fresh (8 + 0) alloc n2" using s2(5) by simp
  obtain p3 m3 pl3 n3 where s3: "unmarshal_iports_m alloc 10 n2 = Some (p3, m3)"
      "cycle_ports m3 p3 = Some (ports_of pl3)" "free_iport_list p3 m3 = Some n3"
      "marshal_iports_m p3 n3 = None"
    by (rule list_cycle [OF N2, of 10]) auto
  show ?thesis using s1 s2 s3 by (simp add: test_iport_def)
qed

lemma iport_test_undefined_witness: "test_iport demo_alloc init_pmem = None"
  by (rule iport_test_undefined [OF demo_alloc_fresh])

end
