(* ===== verification/TFThread.thy ===== *)
theory TFThread imports TFConn begin

text \<open>
  The counter thread of \<^verbatim>\<open>libthymesisflow/src/stats.c\<close> beside the agent: \<open>TFStats\<close> models
  the thread alone, this theory its interleaving with \<^verbatim>\<open>stop_stats_thread\<close> (called by
  \<^verbatim>\<open>del_conn\<close>, which closes the AFU afterwards) and with everything else the agent does.
  One step is one call outside \<^verbatim>\<open>src/\<close>.  Cancellation is deferred, as by default: a pending
  request takes effect in \<^verbatim>\<open>open\<close> and \<^verbatim>\<open>sleep\<close>, if it is enabled.  The reader of the FIFO is
  part of the environment: it decides when \<^verbatim>\<open>open\<close> and \<^verbatim>\<open>dprintf\<close> do not block.  The branch of
  the thread for \<^verbatim>\<open>targs == NULL\<close> is left out: its creator dereferences the pointer before.
\<close>

section \<open>Model\<close>

text \<open>The program points of \<^verbatim>\<open>_stats_thread\<close>, with the counters read so far.\<close>

datatype tpc =
    T_open                    \<comment> \<open>in \<^verbatim>\<open>open(THYMESISCOUNT_PATH)\<close>\<close>
  | T_top
  | T_tx
  | T_rx u64
  | T_lat u64 u64
  | T_print u64 u64 u64
  | T_enable
  | T_nap
  | T_sleep                   \<comment> \<open>in \<^verbatim>\<open>sleep\<close>\<close>
  | T_close                   \<comment> \<open>after a failed read\<close>
  | T_exited                  \<comment> \<open>\<^verbatim>\<open>pthread_exit(NULL)\<close>\<close>
  | T_cancelled
  | P_exit                    \<comment> \<open>\<^verbatim>\<open>exit(EXIT_FAILURE)\<close>\<close>
  | P_undef                   \<comment> \<open>division by zero\<close>

text \<open>The agent's side: at work, joining, about to close the AFU, done.\<close>

datatype mpc = M_work | M_join | M_close | M_done | M_exit

text \<open>\<open>t_calls\<close> records the calls of the thread alone, the trace of \<open>t_world\<close> all calls.\<close>

record tstate =
  t_pc :: tpc
  t_fd :: cint
  t_cancel :: bool
  t_pending :: bool
  t_room :: bool
  t_main :: mpc
  t_calls :: "call list"
  t_world :: world

definition init_thread :: "world \<Rightarrow> tstate" where
  "init_thread w = \<lparr> t_pc = T_open, t_fd = 0, t_cancel = True, t_pending = False, t_room = False,
     t_main = M_work, t_calls = [], t_world = w \<rparr>"

definition t_ext :: "env \<Rightarrow> call \<Rightarrow> tstate \<Rightarrow> result" where
  "t_ext env c s = ext env (trace (t_world s)) c"

text \<open>A call of the thread, after which it is at \<open>pc\<close>; a call of another thread.\<close>

definition t_call :: "env \<Rightarrow> call \<Rightarrow> tpc \<Rightarrow> tstate \<Rightarrow> tstate" where
  "t_call env c pc s = s\<lparr>t_pc := pc, t_calls := t_calls s @ [c],
     t_world := snd (sys env c (t_world s))\<rparr>"

definition m_call :: "env \<Rightarrow> call \<Rightarrow> mpc \<Rightarrow> tstate \<Rightarrow> tstate" where
  "m_call env c pc s = s\<lparr>t_main := pc, t_world := snd (sys env c (t_world s))\<rparr>"

definition cancels :: "tstate \<Rightarrow> bool" where
  "cancels s \<longleftrightarrow> t_cancel s \<and> t_pending s"

inductive thread_step :: "env \<Rightarrow> u64 \<Rightarrow> nat \<Rightarrow> tstate \<Rightarrow> tstate \<Rightarrow> bool" for env g period where
  opened: "t_pc s = T_open \<Longrightarrow> t_room s \<Longrightarrow> \<not> cancels s \<Longrightarrow> c = Open_wronly THYMESISCOUNT_PATH \<Longrightarrow>
    thread_step env g period s ((t_call env c T_top s)\<lparr>t_fd := fst (t_ext env c s)\<rparr>)"
| open_cancelled: "t_pc s = T_open \<Longrightarrow> cancels s \<Longrightarrow> thread_step env g period s (s\<lparr>t_pc := T_cancelled\<rparr>)"
| disable: "t_pc s = T_top \<Longrightarrow> c = Pthread_setcancelstate False \<Longrightarrow> fst (t_ext env c s) = 0 \<Longrightarrow>
    thread_step env g period s ((t_call env c T_tx s)\<lparr>t_cancel := False\<rparr>)"
| disable_fails: "t_pc s = T_top \<Longrightarrow> c = Pthread_setcancelstate False \<Longrightarrow> fst (t_ext env c s) \<noteq> 0 \<Longrightarrow>
    thread_step env g period s (t_call env c P_exit s)"
| read_tx: "t_pc s = T_tx \<Longrightarrow> c = Ocxl_mmio_read64 g TX_STATS \<Longrightarrow> t_ext env c s = (rc, tx) \<Longrightarrow>
    thread_step env g period s (t_call env c (if rc = 0 then T_rx tx else T_close) s)"
| read_rx: "t_pc s = T_rx tx \<Longrightarrow> c = Ocxl_mmio_read64 g RX_STATS \<Longrightarrow> t_ext env c s = (rc, rx) \<Longrightarrow>
    thread_step env g period s (t_call env c (if rc = 0 then T_lat tx rx else T_close) s)"
| read_lat: "t_pc s = T_lat tx rx \<Longrightarrow> c = Ocxl_mmio_read64 g LATENCY_STATS \<Longrightarrow>
    t_ext env c s = (rc, latency) \<Longrightarrow>
    thread_step env g period s (t_call env c (if rc = 0 then T_print tx rx latency else T_close) s)"
| print: "t_pc s = T_print tx rx latency \<Longrightarrow> t_room s \<Longrightarrow> average_latency latency = Some avg \<Longrightarrow>
    thread_step env g period s (t_call env (Dprintf (t_fd s) tx rx avg) T_enable s)"
| no_samples: "t_pc s = T_print tx rx latency \<Longrightarrow> average_latency latency = None \<Longrightarrow>
    thread_step env g period s (s\<lparr>t_pc := P_undef\<rparr>)"
| enable: "t_pc s = T_enable \<Longrightarrow> c = Pthread_setcancelstate True \<Longrightarrow> fst (t_ext env c s) = 0 \<Longrightarrow>
    thread_step env g period s ((t_call env c T_nap s)\<lparr>t_cancel := True\<rparr>)"
| enable_fails: "t_pc s = T_enable \<Longrightarrow> c = Pthread_setcancelstate True \<Longrightarrow> fst (t_ext env c s) \<noteq> 0 \<Longrightarrow>
    thread_step env g period s (t_call env (Close (t_fd s)) P_exit (t_call env c T_enable s))"
| nap: "t_pc s = T_nap \<Longrightarrow> thread_step env g period s (t_call env (Sleep period) T_sleep s)"
| wake: "t_pc s = T_sleep \<Longrightarrow> \<not> cancels s \<Longrightarrow> thread_step env g period s (s\<lparr>t_pc := T_top\<rparr>)"
| sleep_cancelled: "t_pc s = T_sleep \<Longrightarrow> cancels s \<Longrightarrow> thread_step env g period s (s\<lparr>t_pc := T_cancelled\<rparr>)"
| close: "t_pc s = T_close \<Longrightarrow> thread_step env g period s (t_call env (Close (t_fd s)) T_exited s)"

text \<open>
  The agent: \<^verbatim>\<open>stop_stats_thread\<close> on the thread \<open>t\<close>, then \<^verbatim>\<open>ocxl_afu_close\<close> on the AFU \<open>a\<close>
  (in \<^verbatim>\<open>free_conn\<close> of \<^verbatim>\<open>connection.c\<close>, which \<^verbatim>\<open>del_conn\<close> calls next); before and after, any calls that have to do with other circuits.
\<close>

definition t_ended :: "tstate \<Rightarrow> bool" where
  "t_ended s \<longleftrightarrow> t_pc s = T_exited \<or> t_pc s = T_cancelled"

inductive agent_step :: "env \<Rightarrow> u64 \<Rightarrow> u64 \<Rightarrow> u64 \<Rightarrow> tstate \<Rightarrow> tstate \<Rightarrow> bool" for env g t a where
  other: "t_main s = M_work \<Longrightarrow> c \<noteq> Ocxl_afu_close a \<Longrightarrow> \<forall>r. c \<noteq> Ocxl_mmio_read64 g r \<Longrightarrow>
    agent_step env g t a s (m_call env c M_work s)"
| cancel: "t_main s = M_work \<Longrightarrow> c = Pthread_cancel t \<Longrightarrow>
    agent_step env g t a s
      (if fst (t_ext env c s) = 0 then (m_call env c M_join s)\<lparr>t_pending := True\<rparr>
       else m_call env c M_exit s)"
| join: "t_main s = M_join \<Longrightarrow> t_ended s \<Longrightarrow> c = Pthread_join t \<Longrightarrow>
    agent_step env g t a s (m_call env c (if fst (t_ext env c s) = 0 then M_close else M_exit) s)"
| close_afu: "t_main s = M_close \<Longrightarrow> agent_step env g t a s (m_call env (Ocxl_afu_close a) M_done s)"
| later: "t_main s = M_done \<Longrightarrow> \<forall>r. c \<noteq> Ocxl_mmio_read64 g r \<Longrightarrow>
    agent_step env g t a s (m_call env c M_done s)"

text \<open>The whole system; a process that has ended makes no more steps.\<close>

definition t_alive :: "tstate \<Rightarrow> bool" where
  "t_alive s \<longleftrightarrow> t_main s \<noteq> M_exit \<and> t_pc s \<noteq> P_exit \<and> t_pc s \<noteq> P_undef"

inductive sys_step :: "env \<Rightarrow> u64 \<Rightarrow> nat \<Rightarrow> u64 \<Rightarrow> u64 \<Rightarrow> tstate \<Rightarrow> tstate \<Rightarrow> bool" for env g period t a where
  thread: "t_alive s \<Longrightarrow> thread_step env g period s s' \<Longrightarrow> sys_step env g period t a s s'"
| agent: "t_alive s \<Longrightarrow> agent_step env g t a s s' \<Longrightarrow> sys_step env g period t a s s'"
| reader: "t_alive s \<Longrightarrow> sys_step env g period t a s (s\<lparr>t_room := b\<rparr>)"

inductive sys_run :: "env \<Rightarrow> u64 \<Rightarrow> nat \<Rightarrow> u64 \<Rightarrow> u64 \<Rightarrow> tstate \<Rightarrow> tstate \<Rightarrow> bool" for env g period t a where
  stop: "sys_run env g period t a s s"
| more: "sys_run env g period t a s s' \<Longrightarrow> sys_step env g period t a s' s'' \<Longrightarrow> sys_run env g period t a s s''"

code_pred thread_step .

section \<open>Lemmas\<close>

lemma call_simps [simp]:
  "t_pc (t_call env c pc s) = pc" "t_fd (t_call env c pc s) = t_fd s"
  "t_cancel (t_call env c pc s) = t_cancel s" "t_pending (t_call env c pc s) = t_pending s"
  "t_room (t_call env c pc s) = t_room s" "t_main (t_call env c pc s) = t_main s"
  "t_calls (t_call env c pc s) = t_calls s @ [c]"
  "trace (t_world (t_call env c pc s)) = trace (t_world s) @ [c]"
  "t_pc (m_call env c mpc s) = t_pc s" "t_fd (m_call env c mpc s) = t_fd s"
  "t_cancel (m_call env c mpc s) = t_cancel s" "t_pending (m_call env c mpc s) = t_pending s"
  "t_room (m_call env c mpc s) = t_room s" "t_main (m_call env c mpc s) = mpc"
  "t_calls (m_call env c mpc s) = t_calls s"
  "trace (t_world (m_call env c mpc s)) = trace (t_world s) @ [c]"
  by (simp_all add: t_call_def m_call_def)

lemma init_thread_simps [simp]:
  "t_pc (init_thread w) = T_open" "t_cancel (init_thread w)" "\<not> t_pending (init_thread w)"
  "t_main (init_thread w) = M_work" "t_calls (init_thread w) = []" "t_world (init_thread w) = w"
  by (simp_all add: init_thread_def)

text \<open>Invariants of the system: closed under the three kinds of step.\<close>

lemma sys_run_invariant:
  assumes "sys_run env g period t a s s'" "P s"
    and "\<And>s s'. P s \<Longrightarrow> thread_step env g period s s' \<Longrightarrow> P s'"
    and "\<And>s s'. P s \<Longrightarrow> agent_step env g t a s s' \<Longrightarrow> P s'"
    and "\<And>s b. P s \<Longrightarrow> P (s\<lparr>t_room := b\<rparr>)"
  shows "P s'"
  using assms(1,2)
proof (induction rule: sys_run.induct)
  case (more s s' s'')
  have "P s'" by (rule more.IH [OF more.prems])
  from more.hyps(2) show ?case
  proof (cases rule: sys_step.cases)
    case thread
    then show ?thesis using assms(3) \<open>P s'\<close> by blast
  next
    case agent
    then show ?thesis using assms(4) \<open>P s'\<close> by blast
  next
    case (reader b)
    then show ?thesis using assms(5) \<open>P s'\<close> by simp
  qed
qed

lemma thread_step_main: "thread_step env g period s s' \<Longrightarrow> t_main s' = t_main s \<and>
    t_pending s' = t_pending s \<and> \<not> t_ended s \<and> t_room s' = t_room s"
  by (cases rule: thread_step.cases) (auto simp: t_ended_def)

lemma thread_step_trace:
  "thread_step env g period s s' \<Longrightarrow> \<exists>ts. trace (t_world s') = trace (t_world s) @ ts \<and>
     (\<forall>a. Ocxl_afu_close a \<notin> set ts)"
  by (cases rule: thread_step.cases) auto

text \<open>The AFU is closed after the thread has ended.\<close>

definition closed_last :: "world \<Rightarrow> u64 \<Rightarrow> u64 \<Rightarrow> tstate \<Rightarrow> bool" where
  "closed_last w0 g a s \<longleftrightarrow> (\<exists>ts. trace (t_world s) = trace w0 @ ts \<and>
     (if t_main s = M_done
      then \<exists>us vs. ts = us @ Ocxl_afu_close a # vs \<and> Ocxl_afu_close a \<notin> set us \<and>
        (\<forall>r. Ocxl_mmio_read64 g r \<notin> set vs)
      else Ocxl_afu_close a \<notin> set ts) \<and>
     (t_main s = M_close \<or> t_main s = M_done \<longrightarrow> t_ended s))"

lemma closed_last_thread:
  assumes "closed_last w0 g a s" "thread_step env g period s s'"
  shows "closed_last w0 g a s'"
proof -
  obtain ts where ts: "trace (t_world s) = trace w0 @ ts"
      "t_main s \<noteq> M_done \<Longrightarrow> Ocxl_afu_close a \<notin> set ts"
      "t_main s = M_close \<or> t_main s = M_done \<longrightarrow> t_ended s"
    using assms(1) by (auto simp: closed_last_def split: if_splits)
  have m: "t_main s' = t_main s" "t_main s \<noteq> M_close" "t_main s \<noteq> M_done"
    using thread_step_main [OF assms(2)] ts(3) by auto
  obtain us where "trace (t_world s') = trace (t_world s) @ us" "Ocxl_afu_close a \<notin> set us"
    using thread_step_trace [OF assms(2)] by blast
  with ts m show ?thesis by (auto simp: closed_last_def)
qed

lemma closed_last_agent:
  assumes "closed_last w0 g a s" "agent_step env g t a s s'"
  shows "closed_last w0 g a s'"
  using assms(2)
proof (cases rule: agent_step.cases)
  case (other c)
  then show ?thesis using assms(1) by (auto simp: closed_last_def t_ended_def)
next
  case (cancel c)
  then show ?thesis using assms(1) by (auto simp: closed_last_def t_ended_def)
next
  case (join c)
  then show ?thesis using assms(1) by (auto simp: closed_last_def t_ended_def)
next
  case close_afu
  then obtain ts where "trace (t_world s) = trace w0 @ ts" "Ocxl_afu_close a \<notin> set ts" "t_ended s"
    using assms(1) by (auto simp: closed_last_def)
  then have "\<exists>us vs. ts @ [Ocxl_afu_close a] = us @ Ocxl_afu_close a # vs \<and>
      Ocxl_afu_close a \<notin> set us \<and> (\<forall>r. Ocxl_mmio_read64 g r \<notin> set vs)"
    by (intro exI [of _ ts] exI [of _ "[]"]) simp
  with \<open>trace (t_world s) = trace w0 @ ts\<close> \<open>t_ended s\<close> show ?thesis using close_afu
    unfolding closed_last_def by (intro exI [of _ "ts @ [Ocxl_afu_close a]"]) (simp add: t_ended_def)
next
  case (later c)
  then obtain us vs where "trace (t_world s) = trace w0 @ us @ Ocxl_afu_close a # vs"
      "Ocxl_afu_close a \<notin> set us" "\<forall>r. Ocxl_mmio_read64 g r \<notin> set vs" "t_ended s"
    using assms(1) by (auto simp: closed_last_def)
  then have "\<exists>us' vs'. (us @ Ocxl_afu_close a # vs) @ [c] = us' @ Ocxl_afu_close a # vs' \<and>
      Ocxl_afu_close a \<notin> set us' \<and> (\<forall>r. Ocxl_mmio_read64 g r \<notin> set vs')"
    using later by - (rule exI [of _ us], rule exI [of _ "vs @ [c]"], auto)
  moreover have "trace (t_world s') = trace w0 @ (us @ Ocxl_afu_close a # vs) @ [c]"
      "t_main s' = M_done" "t_ended s'"
    using later \<open>trace (t_world s) = _\<close> \<open>t_ended s\<close> by (simp_all add: t_ended_def)
  ultimately show ?thesis unfolding closed_last_def by (metis (no_types))
qed

lemma first_split:
  assumes "us @ x # vs = xs @ x # ys" "x \<notin> set us"
  shows "set ys \<subseteq> set vs"
  using assms by (induction us arbitrary: xs) (auto simp: Cons_eq_append_conv)

section \<open>Whole rounds\<close>

text \<open>The calls of one round that publishes the line \<open>tx,rx,avg\<close>.\<close>

fun round_calls :: "cint \<Rightarrow> u64 \<Rightarrow> nat \<Rightarrow> u64 \<times> u64 \<times> u64 \<Rightarrow> call list" where
  "round_calls fd g period (tx, rx, avg) =
     [Pthread_setcancelstate False, Ocxl_mmio_read64 g TX_STATS, Ocxl_mmio_read64 g RX_STATS,
      Ocxl_mmio_read64 g LATENCY_STATS, Dprintf fd tx rx avg, Pthread_setcancelstate True,
      Sleep period]"

fun calls_done :: "tpc \<Rightarrow> nat" where
  "calls_done T_tx = 1"
| "calls_done (T_rx _) = 2"
| "calls_done (T_lat _ _) = 3"
| "calls_done (T_print _ _ _) = 4"
| "calls_done T_enable = 5"
| "calls_done T_nap = 6"
| "calls_done T_sleep = 7"
| "calls_done _ = 0"

definition rounds :: "cint \<Rightarrow> u64 \<Rightarrow> nat \<Rightarrow> (u64 \<times> u64 \<times> u64) list \<Rightarrow> call list" where
  "rounds fd g period ls = Open_wronly THYMESISCOUNT_PATH # concat (map (round_calls fd g period) ls)"

text \<open>The calls of the thread at each program point; cancellation is enabled outside the rounds.\<close>

definition in_rounds :: "u64 \<Rightarrow> nat \<Rightarrow> tstate \<Rightarrow> bool" where
  "in_rounds g period s \<longleftrightarrow>
     (t_pc s \<in> {T_open, T_top, T_nap, T_sleep} \<longrightarrow> t_cancel s) \<and>
     (case t_pc s of
        T_open \<Rightarrow> t_calls s = []
      | T_close \<Rightarrow> \<exists>ls l k. 2 \<le> k \<and> k \<le> 4 \<and>
          t_calls s = rounds (t_fd s) g period ls @ take k (round_calls (t_fd s) g period l)
      | T_exited \<Rightarrow> \<exists>ls l k. 2 \<le> k \<and> k \<le> 4 \<and> t_calls s =
          rounds (t_fd s) g period ls @ take k (round_calls (t_fd s) g period l) @ [Close (t_fd s)]
      | T_cancelled \<Rightarrow> t_calls s = [] \<or> (\<exists>ls. t_calls s = rounds (t_fd s) g period ls)
      | P_exit \<Rightarrow> True
      | P_undef \<Rightarrow> True
      | pc \<Rightarrow> \<exists>ls l. t_calls s =
          rounds (t_fd s) g period ls @ take (calls_done pc) (round_calls (t_fd s) g period l))"

lemma rounds_snoc: "rounds fd g period (ls @ [l]) = rounds fd g period ls @ round_calls fd g period l"
  by (simp add: rounds_def)

lemma rounds_Nil: "rounds fd g period [] = [Open_wronly THYMESISCOUNT_PATH]"
  by (simp add: rounds_def)

lemma take_calls:
  "take 0 (round_calls fd g p l) = []" "take (Suc 0) (round_calls fd g p l) = [Pthread_setcancelstate False]"
  "take 2 (round_calls fd g p l) = [Pthread_setcancelstate False, Ocxl_mmio_read64 g TX_STATS]"
  "take 3 (round_calls fd g p l) = [Pthread_setcancelstate False, Ocxl_mmio_read64 g TX_STATS,
     Ocxl_mmio_read64 g RX_STATS]"
  "take 4 (round_calls fd g p l) = [Pthread_setcancelstate False, Ocxl_mmio_read64 g TX_STATS,
     Ocxl_mmio_read64 g RX_STATS, Ocxl_mmio_read64 g LATENCY_STATS]"
  "take 5 (round_calls fd g p l) = [Pthread_setcancelstate False, Ocxl_mmio_read64 g TX_STATS,
     Ocxl_mmio_read64 g RX_STATS, Ocxl_mmio_read64 g LATENCY_STATS, Dprintf fd (fst l) (fst (snd l)) (snd (snd l))]"
  "take 6 (round_calls fd g p l) = [Pthread_setcancelstate False, Ocxl_mmio_read64 g TX_STATS,
     Ocxl_mmio_read64 g RX_STATS, Ocxl_mmio_read64 g LATENCY_STATS, Dprintf fd (fst l) (fst (snd l)) (snd (snd l)),
     Pthread_setcancelstate True]"
  "take 7 (round_calls fd g p l) = round_calls fd g p l"
  by (cases l; simp)+

lemma in_rounds_thread:
  assumes "in_rounds g period s" "thread_step env g period s s'"
  shows "in_rounds g period s'"
  using assms(2)
proof (cases rule: thread_step.cases)
  case (opened c)
  then show ?thesis using assms(1)
    by (auto simp: in_rounds_def rounds_Nil intro!: exI [of _ "[]"])
next
  case (read_tx c rc tx)
  then obtain ls where "t_calls s = rounds (t_fd s) g period ls @ [Pthread_setcancelstate False]"
    using assms(1) by (auto simp: in_rounds_def take_calls)
  then show ?thesis using read_tx
    by (auto simp: in_rounds_def take_calls intro!: exI [of _ ls] exI [of _ 2])
next
  case (read_rx tx c rc rx)
  then obtain ls where "t_calls s = rounds (t_fd s) g period ls @
      [Pthread_setcancelstate False, Ocxl_mmio_read64 g TX_STATS]"
    using assms(1) by (auto simp: in_rounds_def take_calls)
  then show ?thesis using read_rx
    by (auto simp: in_rounds_def take_calls intro!: exI [of _ ls] exI [of _ 3])
next
  case (read_lat tx rx c rc latency)
  then obtain ls where "t_calls s = rounds (t_fd s) g period ls @
      [Pthread_setcancelstate False, Ocxl_mmio_read64 g TX_STATS, Ocxl_mmio_read64 g RX_STATS]"
    using assms(1) by (auto simp: in_rounds_def take_calls)
  then show ?thesis using read_lat
    by (auto simp: in_rounds_def take_calls intro!: exI [of _ ls] exI [of _ 4])
next
  case (print tx rx latency avg)
  then obtain ls where "t_calls s = rounds (t_fd s) g period ls @
      [Pthread_setcancelstate False, Ocxl_mmio_read64 g TX_STATS, Ocxl_mmio_read64 g RX_STATS,
       Ocxl_mmio_read64 g LATENCY_STATS]"
    using assms(1) by (auto simp: in_rounds_def take_calls)
  then show ?thesis using print
    by (auto simp: in_rounds_def take_calls intro!: exI [of _ ls] exI [of _ "(tx, rx, avg)"])
next
  case (enable c)
  then obtain ls l where "t_calls s = rounds (t_fd s) g period ls @ take 5 (round_calls (t_fd s) g period l)"
    using assms(1) by (auto simp: in_rounds_def)
  then show ?thesis using enable
    by (auto simp: in_rounds_def take_calls intro!: exI [of _ ls] exI [of _ l])
next
  case nap
  then obtain ls l where "t_cancel s"
      "t_calls s = rounds (t_fd s) g period ls @ take 6 (round_calls (t_fd s) g period l)"
    using assms(1) by (auto simp: in_rounds_def)
  then show ?thesis using nap
    by (cases l) (auto simp: in_rounds_def take_calls intro!: exI [of _ ls] exI [of _ l])
next
  case wake
  then obtain ls l where "t_cancel s" "t_calls s = rounds (t_fd s) g period (ls @ [l])"
    using assms(1) by (auto simp: in_rounds_def take_calls rounds_snoc)
  then show ?thesis using wake by (auto simp: in_rounds_def take_calls)
next
  case sleep_cancelled
  then obtain ls l where "t_calls s = rounds (t_fd s) g period (ls @ [l])"
    using assms(1) by (auto simp: in_rounds_def take_calls rounds_snoc)
  then show ?thesis using sleep_cancelled by (auto simp: in_rounds_def)
next
  case close
  then obtain ls l k where "2 \<le> k" "k \<le> (4 :: nat)"
      "t_calls s = rounds (t_fd s) g period ls @ take k (round_calls (t_fd s) g period l)"
    using assms(1) by (auto simp: in_rounds_def)
  then have "\<exists>ls l k. 2 \<le> k \<and> k \<le> 4 \<and> t_calls s' =
      rounds (t_fd s') g period ls @ take k (round_calls (t_fd s') g period l) @ [Close (t_fd s')]"
    using close by (intro exI [of _ ls] exI [of _ l] exI [of _ k]) simp
  then show ?thesis using close by (simp add: in_rounds_def)
qed (use assms(1) in \<open>auto simp: in_rounds_def take_calls\<close>)

lemma agent_step_thread: "agent_step env g t a s s' \<Longrightarrow> t_pc s' = t_pc s \<and> t_fd s' = t_fd s \<and>
    t_cancel s' = t_cancel s \<and> t_calls s' = t_calls s"
  by (cases rule: agent_step.cases) (auto split: if_splits)

lemma run_in_rounds:
  assumes "sys_run env g period t a (init_thread w0) s"
  shows "in_rounds g period s"
proof (rule sys_run_invariant [where P = "in_rounds g period", OF assms])
  show "in_rounds g period (init_thread w0)" by (simp add: in_rounds_def)
  show "in_rounds g period s \<Longrightarrow> agent_step env g t a s s' \<Longrightarrow> in_rounds g period s'" for s s'
    using agent_step_thread [of env g t a s s'] by (simp add: in_rounds_def cong: tpc.case_cong)
  show "in_rounds g period s \<Longrightarrow> in_rounds g period (s\<lparr>t_room := b\<rparr>)" for s b
    by (simp add: in_rounds_def cong: tpc.case_cong)
qed (fact in_rounds_thread)

section \<open>Ending\<close>

fun steps_left :: "tpc \<Rightarrow> nat" where
  "steps_left T_open = 1"
| "steps_left T_top = 8"
| "steps_left T_tx = 7"
| "steps_left (T_rx _) = 6"
| "steps_left (T_lat _ _) = 5"
| "steps_left (T_print _ _ _) = 4"
| "steps_left T_enable = 3"
| "steps_left T_nap = 2"
| "steps_left T_sleep = 1"
| "steps_left T_close = 1"
| "steps_left _ = 0"

lemma thread_step_left:
  assumes "thread_step env g period s s'" "in_rounds g period s" "t_pending s"
  shows "steps_left (t_pc s') < steps_left (t_pc s)"
  using assms(1)
  by (cases rule: thread_step.cases) (use assms(2,3) in \<open>auto simp: in_rounds_def cancels_def\<close>)

lemma thread_progress:
  assumes "t_room s" "t_alive s" "\<not> t_ended s"
  shows "\<exists>s'. thread_step env g period s s'"
proof (cases "t_pc s")
  case T_open
  then show ?thesis using assms(1) by (cases "cancels s") (blast intro: thread_step.intros)+
next
  case T_sleep
  then show ?thesis by (cases "cancels s") (blast intro: thread_step.intros)+
next
  case (T_print tx rx latency)
  then show ?thesis using assms(1)
    by (cases "average_latency latency") (blast intro: thread_step.intros)+
next
  case T_top
  then show ?thesis
    by (cases "fst (t_ext env (Pthread_setcancelstate False) s) = 0") (blast intro: thread_step.intros)+
next
  case T_enable
  then show ?thesis
    by (cases "fst (t_ext env (Pthread_setcancelstate True) s) = 0") (blast intro: thread_step.intros)+
next
  case T_tx
  then show ?thesis by (metis prod.collapse thread_step.read_tx)
next
  case (T_rx tx)
  then show ?thesis by (metis prod.collapse thread_step.read_rx)
next
  case (T_lat tx rx)
  then show ?thesis by (metis prod.collapse thread_step.read_lat)
qed (use assms in \<open>auto simp: t_alive_def t_ended_def intro: thread_step.intros\<close>)

lemma thread_run_bound:
  assumes "(thread_step env g period ^^ n) s s'" "in_rounds g period s" "t_pending s"
  shows "n + steps_left (t_pc s') \<le> steps_left (t_pc s) \<and> in_rounds g period s' \<and> t_pending s' \<and>
    t_room s' = t_room s \<and> t_main s' = t_main s"
  using assms(1)
proof (induction n arbitrary: s')
  case 0
  then show ?case using assms(2,3) by simp
next
  case (Suc n)
  then obtain u where u: "(thread_step env g period ^^ n) s u" "thread_step env g period u s'"
    by auto
  note IH = Suc.IH [OF u(1)]
  have "steps_left (t_pc s') < steps_left (t_pc u)"
    using thread_step_left [OF u(2)] IH by blast
  then show ?case
    using IH thread_step_main [OF u(2)] in_rounds_thread [OF _ u(2)] by auto
qed

text \<open>
  What an ending needs of the calls: \<^verbatim>\<open>pthread_setcancelstate\<close> and \<^verbatim>\<open>pthread_join\<close> succeed, and a
  latency register that can be read counts at least one sample.
\<close>

definition thread_calls_ok :: "env \<Rightarrow> u64 \<Rightarrow> u64 \<Rightarrow> bool" where
  "thread_calls_ok env g t \<longleftrightarrow> (\<forall>tr b. fst (ext env tr (Pthread_setcancelstate b)) = 0) \<and>
     (\<forall>tr. fst (ext env tr (Pthread_join t)) = 0) \<and>
     (\<forall>tr latency. ext env tr (Ocxl_mmio_read64 g LATENCY_STATS) = (0, latency) \<longrightarrow>
        average_latency latency \<noteq> None)"

definition sane :: "tstate \<Rightarrow> bool" where
  "sane s \<longleftrightarrow> t_pc s \<noteq> P_exit \<and> t_pc s \<noteq> P_undef \<and> (t_main s = M_join \<longrightarrow> t_pending s) \<and>
     (\<forall>tx rx latency. t_pc s = T_print tx rx latency \<longrightarrow> average_latency latency \<noteq> None)"

lemma sane_thread:
  assumes "thread_calls_ok env g t" "thread_step env g period s s'" "sane s"
  shows "sane s'"
  using assms(2)
  by (cases rule: thread_step.cases)
     (use assms(1,3) in \<open>auto simp: sane_def thread_calls_ok_def t_ext_def split: if_splits\<close>)

lemma run_sane:
  assumes "thread_calls_ok env g t" "sys_run env g period t a (init_thread w0) s"
  shows "sane s"
proof (rule sys_run_invariant [where P = sane, OF assms(2)])
  show "sane (init_thread w0)" by (simp add: sane_def)
  show "sane s \<Longrightarrow> agent_step env g t a s s' \<Longrightarrow> sane s'" for s s'
    by (erule agent_step.cases) (auto simp: sane_def)
  show "sane s \<Longrightarrow> sane (s\<lparr>t_room := b\<rparr>)" for s b by (simp add: sane_def)
qed (rule sane_thread [OF assms(1)])

section \<open>A round alone\<close>

text \<open>
  Four steps take the counters, three more publish them; with the wake-up they are one turn
  of the sequential model, \<open>stats_iter\<close> of \<open>TFStats\<close>.
\<close>

abbreviation reads :: "u64 \<Rightarrow> call list" where
  "reads g \<equiv> [Pthread_setcancelstate False, Ocxl_mmio_read64 g TX_STATS, Ocxl_mmio_read64 g RX_STATS,
     Ocxl_mmio_read64 g LATENCY_STATS]"

definition to_print :: "u64 \<Rightarrow> u64 \<Rightarrow> u64 \<Rightarrow> u64 \<Rightarrow> tstate \<Rightarrow> tstate" where
  "to_print g tx rx lat s = s\<lparr>t_pc := T_print tx rx lat, t_cancel := False,
     t_calls := t_calls s @ reads g, t_world := (t_world s)\<lparr>trace := trace (t_world s) @ reads g\<rparr>\<rparr>"

definition to_sleep :: "u64 \<Rightarrow> nat \<Rightarrow> u64 \<times> u64 \<times> u64 \<Rightarrow> tstate \<Rightarrow> tstate" where
  "to_sleep g period l s = s\<lparr>t_pc := T_sleep, t_cancel := True,
     t_calls := t_calls s @ round_calls (t_fd s) g period l,
     t_world := (t_world s)\<lparr>trace := trace (t_world s) @ round_calls (t_fd s) g period l\<rparr>\<rparr>"

lemma round_reads:
  assumes "t_pc s = T_top" "trace (t_world s) = tr"
    and "fst (ext env tr (Pthread_setcancelstate False)) = 0"
      "ext env (tr @ take 1 (reads g)) (Ocxl_mmio_read64 g TX_STATS) = (0, tx)"
      "ext env (tr @ take 2 (reads g)) (Ocxl_mmio_read64 g RX_STATS) = (0, rx)"
      "ext env (tr @ take 3 (reads g)) (Ocxl_mmio_read64 g LATENCY_STATS) = (0, lat)"
  shows "(thread_step env g period ^^ 4) s (to_print g tx rx lat s)"
proof -
  define s1 where "s1 = (t_call env (Pthread_setcancelstate False) T_tx s)\<lparr>t_cancel := False\<rparr>"
  define s2 where "s2 = t_call env (Ocxl_mmio_read64 g TX_STATS) (T_rx tx) s1"
  define s3 where "s3 = t_call env (Ocxl_mmio_read64 g RX_STATS) (T_lat tx rx) s2"
  have "thread_step env g period s s1"
    unfolding s1_def using assms by (intro thread_step.disable) (simp_all add: t_ext_def)
  moreover have "thread_step env g period s1 s2"
    using thread_step.read_tx [of s1 _ g env 0 tx] assms by (simp add: s1_def s2_def t_ext_def)
  moreover have "thread_step env g period s2 s3"
    using thread_step.read_rx [of s2 tx _ g env 0 rx] assms
    by (simp add: s1_def s2_def s3_def t_ext_def)
  moreover have "thread_step env g period s3
      (t_call env (Ocxl_mmio_read64 g LATENCY_STATS) (T_print tx rx lat) s3)"
    using thread_step.read_lat [of s3 tx rx _ g env 0 lat] assms
    by (simp add: s1_def s2_def s3_def t_ext_def)
  moreover have "t_call env (Ocxl_mmio_read64 g LATENCY_STATS) (T_print tx rx lat) s3 =
      to_print g tx rx lat s"
    by (rule tstate.equality) (simp_all add: s1_def s2_def s3_def to_print_def t_call_def)
  ultimately show ?thesis by (simp add: numeral_eq_Suc) blast
qed

lemma round_publish:
  assumes "t_room s" "average_latency lat = Some avg"
    and "fst (ext env (trace (t_world s) @ reads g @ [Dprintf (t_fd s) tx rx avg])
        (Pthread_setcancelstate True)) = 0"
  shows "(thread_step env g period ^^ 3) (to_print g tx rx lat s) (to_sleep g period (tx, rx, avg) s)"
proof -
  let ?s = "to_print g tx rx lat s"
  define s1 where "s1 = t_call env (Dprintf (t_fd ?s) tx rx avg) T_enable ?s"
  define s2 where "s2 = (t_call env (Pthread_setcancelstate True) T_nap s1)\<lparr>t_cancel := True\<rparr>"
  have "thread_step env g period ?s s1"
    unfolding s1_def using assms by (intro thread_step.print) (simp_all add: to_print_def)
  moreover have "thread_step env g period s1 s2"
    unfolding s2_def using assms(3)
    by (intro thread_step.enable) (simp_all add: s1_def t_ext_def to_print_def)
  moreover have "thread_step env g period s2 (t_call env (Sleep period) T_sleep s2)"
    by (rule thread_step.nap) (simp add: s2_def)
  moreover have "t_call env (Sleep period) T_sleep s2 = to_sleep g period (tx, rx, avg) s"
    by (rule tstate.equality) (simp_all add: s1_def s2_def to_print_def to_sleep_def t_call_def)
  ultimately show ?thesis by (simp add: numeral_eq_Suc) blast
qed

lemma round_refines:
  assumes it: "stats_iter env g (t_fd s) period (t_world s) = Some (Running, w')"
    and s: "t_pc s = T_top" "t_cancel s" "\<not> t_pending s" "t_room s"
  shows "\<exists>l. (thread_step env g period ^^ 8) s
     (s\<lparr>t_world := w', t_calls := t_calls s @ round_calls (t_fd s) g period l\<rparr>)"
proof -
  let ?w = "t_world s" and ?tr = "trace (t_world s)"
  obtain tx rx lat avg where r: "fst (ext env ?tr (Pthread_setcancelstate False)) = 0"
      "ext env (?tr @ take 1 (reads g)) (Ocxl_mmio_read64 g TX_STATS) = (0, tx)"
      "ext env (?tr @ take 2 (reads g)) (Ocxl_mmio_read64 g RX_STATS) = (0, rx)"
      "ext env (?tr @ take 3 (reads g)) (Ocxl_mmio_read64 g LATENCY_STATS) = (0, lat)"
      "average_latency lat = Some avg"
      "fst (ext env (?tr @ reads g @ [Dprintf (t_fd s) tx rx avg]) (Pthread_setcancelstate True)) = 0"
      "w' = ?w\<lparr>trace := ?tr @ round_calls (t_fd s) g period (tx, rx, avg)\<rparr>"
    using it by (auto simp: stats_iter_def Let_def sys_def split: if_splits prod.splits)
  let ?l = "(tx, rx, avg)" and ?s = "to_sleep g period (tx, rx, avg) s"
  have "(thread_step env g period ^^ (4 + 3)) s ?s"
    unfolding relpowp_add using round_reads [OF s(1) refl r(1-4)] round_publish [OF s(4) r(5,6)] by blast
  moreover have "thread_step env g period ?s (?s\<lparr>t_pc := T_top\<rparr>)"
    using s(3) by (intro thread_step.wake) (simp_all add: to_sleep_def cancels_def)
  ultimately have "(thread_step env g period ^^ Suc (4 + 3)) s (?s\<lparr>t_pc := T_top\<rparr>)"
    by (rule relpowp_Suc_I)
  moreover have "?s\<lparr>t_pc := T_top\<rparr> =
      s\<lparr>t_world := w', t_calls := t_calls s @ round_calls (t_fd s) g period ?l\<rparr>"
    using s(1,2) r(7) by (simp add: to_sleep_def)
  ultimately show ?thesis by (intro exI [of _ ?l]) (simp only: add_Suc numeral_eq_Suc, simp)
qed

lemma run_thread_steps:
  assumes "(thread_step env g period ^^ n) s s'" "sys_run env g period t a s0 s" "t_main s \<noteq> M_exit"
  shows "sys_run env g period t a s0 s'"
  using assms(1)
proof (induction n arbitrary: s')
  case 0
  then show ?case using assms(2) by simp
next
  case (Suc n)
  then obtain u where u: "(thread_step env g period ^^ n) s u" "thread_step env g period u s'" by auto
  have "t_main u = t_main s" using u(1)
    by (induction n arbitrary: u) (auto dest: thread_step_main)
  moreover have "t_pc u \<noteq> P_exit" "t_pc u \<noteq> P_undef"
    using u(2) by (auto elim: thread_step.cases)
  ultimately have "t_alive u" using assms(3) by (simp add: t_alive_def)
  with Suc.IH [OF u(1)] u(2) show ?case by (blast intro: sys_run.more sys_step.thread)
qed

section \<open>An example run\<close>

text \<open>The thread opens the FIFO, makes one round, and is cancelled in its sleep.\<close>

definition demo_thread :: tstate where
  "demo_thread = (t_call stats_env (Open_wronly THYMESISCOUNT_PATH) T_top
     ((init_thread init_world)\<lparr>t_room := True\<rparr>))\<lparr>t_fd := 0\<rparr>"

lemma demo_thread_facts:
  "t_pc demo_thread = T_top" "t_main demo_thread = M_work" "t_room demo_thread" "t_cancel demo_thread"
  "\<not> t_pending demo_thread" "t_fd demo_thread = 0" "t_calls demo_thread = rounds 0 1 1 []"
  by (simp_all add: demo_thread_def rounds_Nil)

lemma stats_env_ext:
  "ext stats_env tr c = (if c = Ocxl_mmio_read64 1 LATENCY_STATS then (0, 0x2000000064) else (0, 7))"
  by (simp add: stats_env_def)

lemma demo_average: "average_latency 0x2000000064 = Some 100"
  by (simp add: average_latency_def)

lemma demo_open: "sys_run stats_env 1 1 3 9 (init_thread init_world) demo_thread"
proof -
  let ?s = "(init_thread init_world)\<lparr>t_room := True\<rparr>"
  have "t_alive (init_thread init_world)" "t_alive ?s" by (simp_all add: t_alive_def)
  moreover from this(1) have "sys_step stats_env 1 1 3 9 (init_thread init_world) ?s"
    by (rule sys_step.reader)
  moreover have "thread_step stats_env 1 1 ?s demo_thread"
    using thread_step.opened [of ?s _ stats_env 1 1]
    by (simp add: demo_thread_def cancels_def t_ext_def stats_env_ext)
  ultimately show ?thesis by (blast intro: sys_run.intros sys_step.thread)
qed

lemma demo_print: "sys_run stats_env 1 1 3 9 (init_thread init_world) (to_print 1 7 7 0x2000000064 demo_thread)"
proof -
  have "(thread_step stats_env 1 1 ^^ 4) demo_thread (to_print 1 7 7 0x2000000064 demo_thread)"
    by (rule round_reads [OF demo_thread_facts(1) refl])
       (simp_all add: stats_env_ext TX_STATS_def RX_STATS_def LATENCY_STATS_def)
  from run_thread_steps [OF this demo_open] show ?thesis by (simp add: demo_thread_facts)
qed

lemma demo_sleep: "sys_run stats_env 1 1 3 9 (init_thread init_world) (to_sleep 1 1 (7, 7, 100) demo_thread)"
proof -
  have "(thread_step stats_env 1 1 ^^ 3) (to_print 1 7 7 0x2000000064 demo_thread)
      (to_sleep 1 1 (7, 7, 100) demo_thread)"
    by (rule round_publish) (simp_all add: stats_env_ext demo_thread_facts demo_average)
  from run_thread_steps [OF this demo_print] show ?thesis by (simp add: to_print_def demo_thread_facts)
qed

definition cancel_demo :: "tstate \<Rightarrow> tstate" where
  "cancel_demo s = (m_call stats_env (Pthread_cancel 3) M_join s)\<lparr>t_pending := True\<rparr>"

lemma demo_cancel:
  assumes "sys_run stats_env 1 1 3 9 (init_thread init_world) s" "t_main s = M_work" "t_alive s"
  shows "sys_run stats_env 1 1 3 9 (init_thread init_world) (cancel_demo s)"
proof -
  have "agent_step stats_env 1 3 9 s (cancel_demo s)"
    using agent_step.cancel [OF assms(2) refl, of stats_env 1 3 9]
    by (simp add: cancel_demo_def t_ext_def stats_env_ext)
  with assms show ?thesis by (blast intro: sys_run.more sys_step.agent)
qed

definition demo_joining :: tstate where
  "demo_joining = cancel_demo (to_sleep 1 1 (7, 7, 100) demo_thread)"

lemma demo_joining_facts:
  "t_pc demo_joining = T_sleep" "t_main demo_joining = M_join" "t_room demo_joining"
  "t_pending demo_joining" "t_cancel demo_joining" "t_fd demo_joining = 0" "t_alive demo_joining"
  "t_calls demo_joining = rounds 0 1 1 [(7, 7, 100)]"
  "sys_run stats_env 1 1 3 9 (init_thread init_world) demo_joining"
proof -
  show "sys_run stats_env 1 1 3 9 (init_thread init_world) demo_joining"
    unfolding demo_joining_def
    by (rule demo_cancel [OF demo_sleep]) (simp_all add: to_sleep_def demo_thread_facts t_alive_def)
qed (simp_all add: demo_joining_def cancel_demo_def to_sleep_def demo_thread_facts t_alive_def rounds_def)

lemma demo_cancelled:
  "thread_step stats_env 1 1 demo_joining (demo_joining\<lparr>t_pc := T_cancelled\<rparr>)"
  "sys_run stats_env 1 1 3 9 (init_thread init_world) (demo_joining\<lparr>t_pc := T_cancelled\<rparr>)"
proof -
  show *: "thread_step stats_env 1 1 demo_joining (demo_joining\<lparr>t_pc := T_cancelled\<rparr>)"
    by (rule thread_step.sleep_cancelled) (simp_all add: demo_joining_facts cancels_def)
  show "sys_run stats_env 1 1 3 9 (init_thread init_world) (demo_joining\<lparr>t_pc := T_cancelled\<rparr>)"
    using demo_joining_facts(7,9) * by (blast intro: sys_run.more sys_step.thread)
qed

lemma demo_closed:
  "\<exists>s. sys_run stats_env 1 1 3 9 (init_thread init_world) s \<and>
     trace (t_world s) = trace (t_world demo_joining) @ [Pthread_join 3, Ocxl_afu_close 9, Sleep 5]"
proof -
  let ?s = "demo_joining\<lparr>t_pc := T_cancelled\<rparr>"
  let ?s1 = "m_call stats_env (Pthread_join 3) M_close ?s"
  let ?s2 = "m_call stats_env (Ocxl_afu_close 9) M_done ?s1"
  let ?s3 = "m_call stats_env (Sleep 5) M_done ?s2"
  have "t_alive ?s" "t_alive ?s1" "t_alive ?s2" by (simp_all add: t_alive_def demo_joining_facts)
  moreover have "agent_step stats_env 1 3 9 ?s ?s1"
    using agent_step.join [of ?s _ 3 stats_env 1 9]
    by (simp add: demo_joining_facts t_ended_def t_ext_def stats_env_ext)
  moreover have "agent_step stats_env 1 3 9 ?s1 ?s2" by (rule agent_step.close_afu) simp
  moreover have "agent_step stats_env 1 3 9 ?s2 ?s3" by (rule agent_step.later) simp_all
  ultimately have "sys_run stats_env 1 1 3 9 (init_thread init_world) ?s3"
    using demo_cancelled(2) by (blast intro: sys_run.more sys_step.agent)
  then show ?thesis by (intro exI [of _ ?s3]) simp
qed

section \<open>Properties\<close>

text \<open>
  C6: an AFU is not used after it is closed: whatever the scheduler, the reader of the FIFO and
  the rest of the agent do, once \<^verbatim>\<open>del_conn\<close> has closed the AFU the counter thread does not
  read its registers any more.
\<close>

theorem thread_quiesced:
  assumes "sys_run env g period t a (init_thread w0) s"
    and "trace (t_world s) = trace w0 @ xs @ Ocxl_afu_close a # ys"
  shows "Ocxl_mmio_read64 g r \<notin> set ys"
proof -
  have init: "closed_last w0 g a (init_thread w0)" by (simp add: closed_last_def)
  have "closed_last w0 g a s"
  proof (rule sys_run_invariant [where P = "closed_last w0 g a", OF assms(1) init])
    show "closed_last w0 g a s \<Longrightarrow> closed_last w0 g a (s\<lparr>t_room := b\<rparr>)" for s b
      by (simp add: closed_last_def t_ended_def)
  qed (fact closed_last_thread, fact closed_last_agent)
  then obtain us vs where "us @ Ocxl_afu_close a # vs = xs @ Ocxl_afu_close a # ys"
      "Ocxl_afu_close a \<notin> set us" "Ocxl_mmio_read64 g r \<notin> set vs"
    using assms(2) by (auto simp: closed_last_def split: if_splits)
  with first_split [OF this(1,2)] show ?thesis by blast
qed

lemma thread_quiesced_witness:
  "\<exists>s. sys_run stats_env 1 1 3 9 (init_thread init_world) s \<and>
     (\<exists>xs ys. trace (t_world s) = xs @ Ocxl_afu_close 9 # ys \<and> ys \<noteq> [] \<and>
       Ocxl_mmio_read64 1 TX_STATS \<notin> set ys)"
proof -
  obtain s where s: "sys_run stats_env 1 1 3 9 (init_thread init_world) s"
      "trace (t_world s) = trace (t_world demo_joining) @ [Pthread_join 3, Ocxl_afu_close 9, Sleep 5]"
    using demo_closed by blast
  have "trace (t_world s) = trace init_world @ (trace (t_world demo_joining) @ [Pthread_join 3]) @
      Ocxl_afu_close 9 # [Sleep 5]" using s(2) by simp
  from thread_quiesced [OF s(1) this, of TX_STATS] s show ?thesis
    by (intro exI [of _ s] conjI exI [of _ "trace (t_world demo_joining) @ [Pthread_join 3]"]
        exI [of _ "[Sleep 5]"]) simp_all
qed

text \<open>
  C40: a cancelled thread has published every set of counters it read: in any interleaving its
  calls are the opening of the FIFO and whole rounds, so the reader never misses a line of
  counters already taken; but the FIFO is then never closed, a descriptor lost with every
  detachment.  A thread that exits by itself stops at a failed read and does close it.
\<close>

theorem cancelled_between_rounds:
  assumes "sys_run env g period t a (init_thread w0) s"
  shows "(t_pc s = T_cancelled \<longrightarrow> t_calls s = [] \<or>
       (\<exists>ls. t_calls s = rounds (t_fd s) g period ls \<and> Close (t_fd s) \<notin> set (t_calls s))) \<and>
     (t_pc s = T_exited \<longrightarrow> (\<exists>ls l k. 2 \<le> k \<and> k \<le> 4 \<and> t_calls s =
        rounds (t_fd s) g period ls @ take k (round_calls (t_fd s) g period l) @ [Close (t_fd s)]))"
proof -
  have "Close fd \<notin> set (rounds fd g period ls)" for fd ls
    by (auto simp: rounds_def)
  then show ?thesis
    using run_in_rounds [OF assms] by (auto simp: in_rounds_def simp del: round_calls.simps split_paired_Ex)
qed

lemma cancelled_between_rounds_witness:
  "\<exists>s. sys_run stats_env 1 1 3 9 (init_thread init_world) s \<and> t_pc s = T_cancelled \<and> t_calls s \<noteq> [] \<and>
     (\<exists>ls. t_calls s = rounds (t_fd s) 1 1 ls) \<and> Close 0 \<notin> set (t_calls s)"
proof -
  let ?s = "demo_joining\<lparr>t_pc := T_cancelled\<rparr>"
  have "t_pc ?s = T_cancelled" "t_calls ?s \<noteq> []" "t_fd ?s = 0"
    by (simp_all add: demo_joining_facts rounds_def)
  moreover from this have "\<exists>ls. t_calls ?s = rounds (t_fd ?s) 1 1 ls \<and> Close (t_fd ?s) \<notin> set (t_calls ?s)"
    using cancelled_between_rounds [OF demo_cancelled(2)] by blast
  ultimately show ?thesis using demo_cancelled(2) by metis
qed

text \<open>
  C21: a detachment ends, when the calls of \<^verbatim>\<open>pthread\<close> succeed, the counters hold at least one sample
  whenever they can be read, and somebody reads the FIFO: once the agent joins the thread, the
  thread makes at most 8 more steps, and when it cannot move any more it has ended, by
  cancellation or after a failed read; then the join returns, and the agent goes on to close
  the AFU and can do nothing else.
\<close>

theorem stop_terminates:
  assumes "thread_calls_ok env g t" "sys_run env g period t a (init_thread w0) s"
    and "t_main s = M_join" "t_room s" "(thread_step env g period ^^ n) s s'"
  shows "n \<le> 8 \<and> ((\<nexists>s''. thread_step env g period s' s'') \<longrightarrow> t_ended s' \<and>
    (\<exists>s''. sys_step env g period t a s' s'' \<and> t_main s'' = M_close) \<and>
    (\<forall>s''. agent_step env g t a s' s'' \<longrightarrow> t_main s'' = M_close))"
proof (intro conjI impI)
  note sane = run_sane [OF assms(1,2)]
  have pending: "t_pending s" using sane assms(3) by (simp add: sane_def)
  note bound = thread_run_bound [OF assms(5) run_in_rounds [OF assms(2)] pending]
  have "steps_left (t_pc s) \<le> 8" by (cases "t_pc s") simp_all
  then show "n \<le> 8" using bound by simp
  assume stuck: "\<nexists>s''. thread_step env g period s' s''"
  have "sane s'" using assms(5) sane
    by (induction n arbitrary: s') (auto dest: sane_thread [OF assms(1)])
  then have alive: "t_alive s'" using bound assms(3) by (simp add: sane_def t_alive_def)
  with thread_progress [of s' env g period] stuck bound assms(4) show ended: "t_ended s'" by blast
  have main: "t_main s' = M_join" using bound assms(3) by simp
  from assms(1) have join: "fst (t_ext env (Pthread_join t) s') = 0"
    by (simp add: thread_calls_ok_def t_ext_def)
  show "\<exists>s''. sys_step env g period t a s' s'' \<and> t_main s'' = M_close"
  proof (intro exI conjI)
    show "sys_step env g period t a s' (m_call env (Pthread_join t) M_close s')"
      using agent_step.join [OF main ended refl, of env g t a] join by (intro sys_step.agent alive) simp
  qed simp
  show "\<forall>s''. agent_step env g t a s' s'' \<longrightarrow> t_main s'' = M_close"
    using main join by (auto elim!: agent_step.cases)
qed

lemma stop_terminates_witness:
  "thread_calls_ok stats_env 1 3 \<and> sys_run stats_env 1 1 3 9 (init_thread init_world) demo_joining \<and>
   (\<exists>s' s''. (thread_step stats_env 1 1 ^^ Suc 0) demo_joining s' \<and> t_ended s' \<and>
     sys_step stats_env 1 1 3 9 s' s'' \<and> t_main s'' = M_close)"
proof -
  let ?s = "demo_joining\<lparr>t_pc := T_cancelled\<rparr>"
  have ok: "thread_calls_ok stats_env 1 3"
    by (auto simp: thread_calls_ok_def stats_env_ext demo_average split: if_splits)
  have run: "(thread_step stats_env 1 1 ^^ Suc 0) demo_joining ?s" using demo_cancelled(1) by auto
  have "\<nexists>s''. thread_step stats_env 1 1 ?s s''"
    using thread_step_main [of stats_env 1 1 ?s] by (auto simp: t_ended_def)
  with stop_terminates [OF ok demo_joining_facts(9,2,3) run] run ok demo_joining_facts(9)
  show ?thesis by blast
qed

text \<open>
  without a reader it does not: when the FIFO is full while the thread is about to write to
  it, cancellation is disabled and the agent that joins it, and with it every client, waits
  for the reader for ever; nothing else can move.
\<close>

theorem stop_hangs:
  assumes "t_main s = M_join" "t_pc s = T_print tx rx latency" "\<not> t_room s"
    and "average_latency latency \<noteq> None" "sys_step env g period t a s s'"
  shows "\<exists>b. s' = s\<lparr>t_room := b\<rparr>"
  using assms(5)
proof (cases rule: sys_step.cases)
  case thread
  from thread(2) show ?thesis by (cases rule: thread_step.cases) (use assms in auto)
next
  case agent
  from agent(2) show ?thesis
    by (cases rule: agent_step.cases) (use assms in \<open>auto simp: t_ended_def\<close>)
qed blast

lemma stop_hangs_witness:
  "\<exists>s. sys_run stats_env 1 1 3 9 (init_thread init_world) s \<and> t_main s = M_join \<and>
     (\<forall>s'. sys_step stats_env 1 1 3 9 s s' \<longrightarrow> (\<exists>b. s' = s\<lparr>t_room := b\<rparr>))"
proof -
  let ?p = "to_print 1 7 7 0x2000000064 demo_thread"
  let ?s = "(cancel_demo ?p)\<lparr>t_room := False\<rparr>"
  have p: "t_main ?p = M_work" "t_alive ?p" "t_alive (cancel_demo ?p)"
    by (simp_all add: to_print_def demo_thread_facts t_alive_def cancel_demo_def)
  have s: "t_main ?s = M_join" "t_pc ?s = T_print 7 7 0x2000000064" "\<not> t_room ?s"
    by (simp_all add: to_print_def cancel_demo_def)
  have "sys_run stats_env 1 1 3 9 (init_thread init_world) ?s"
    using demo_cancel [OF demo_print p(1,2)] p(3) by (blast intro: sys_run.more sys_step.reader)
  moreover have "average_latency 0x2000000064 \<noteq> None" by (simp add: demo_average)
  ultimately show ?thesis using stop_hangs [OF s] s(1) by blast
qed

end
