(* ===== verification/TFMm.thy ===== *)
theory TFMm imports TFPrelude begin

text \<open>
  \<^verbatim>\<open>libtfshmem/src/custom_mm.c\<close>: the allocator that carves buffers out of the shared
  memory pool.  It is a bump allocator over four static variables; addresses are 64-bit
  and wrap.
\<close>

section \<open>Model\<close>

text \<open>\<^verbatim>\<open>ALIGN(x,a)\<close>\<close>

definition align :: "u64 \<Rightarrow> u64 \<Rightarrow> u64" where
  "align x a = (x + (a - 1)) AND NOT (a - 1)"

definition PAGE_SIZE :: u64 where "PAGE_SIZE = 64 * 1024"

record mm =
  base_address :: u64
  next_free :: u64
  PREALLOC_SIZE :: u64
  initialized :: bool

definition init_mm :: mm where
  "init_mm = \<lparr> base_address = 0, next_free = 0, PREALLOC_SIZE = 0, initialized = False \<rparr>"

definition custom_free :: "u64 \<Rightarrow> mm \<Rightarrow> mm" where
  "custom_free ptr m = m"

definition custom_malloc :: "u64 \<Rightarrow> mm \<Rightarrow> u64 \<times> mm" where
  "custom_malloc sz m =
     (if sz = 0 \<or> \<not> initialized m then (0, m)
      else
        let sz = align sz PAGE_SIZE in
        if next_free m = 0 then (base_address m, m\<lparr>next_free := base_address m + sz\<rparr>)
        else (next_free m, m\<lparr>next_free := next_free m + sz\<rparr>))"

definition custom_malloc_aligned :: "u64 \<Rightarrow> u64 \<Rightarrow> mm \<Rightarrow> u64 \<times> mm" where
  "custom_malloc_aligned alignment sz m =
     (if \<not> initialized m then (0, m)
      else custom_malloc (align sz alignment) m)"

definition init_custom_mm :: "u64 \<Rightarrow> u64 \<Rightarrow> mm \<Rightarrow> mm" where
  "init_custom_mm base_addr sz m =
     m\<lparr>base_address := base_addr, PREALLOC_SIZE := sz, initialized := True\<rparr>"

definition fini_custom_mm :: "mm \<Rightarrow> mm" where
  "fini_custom_mm m = m\<lparr>base_address := 0, PREALLOC_SIZE := 0, initialized := False\<rparr>"

text \<open>A sequence of allocations.\<close>

fun malloc_all :: "u64 list \<Rightarrow> mm \<Rightarrow> u64 list \<times> mm" where
  "malloc_all [] m = ([], m)"
| "malloc_all (s # ss) m =
     (let (p, m1) = custom_malloc s m; (ps, m2) = malloc_all ss m1 in (p # ps, m2))"

section \<open>Alignment\<close>

text \<open>The size in pages, and in bytes rounded up to pages.\<close>

definition pages :: "u64 \<Rightarrow> nat" where
  "pages sz = (unat sz + 65535) div 65536"

lemma and_not_mask: "(x :: u64) AND NOT (mask k) = push_bit k (drop_bit k x)"
  by (rule bit_word_eqI) (auto simp: bit_simps dest: bit_imp_le_length)

lemma align_page:
  assumes "unat sz + 65535 < 2 ^ 64"
  shows "unat (align sz PAGE_SIZE) = pages sz * 65536"
proof -
  have m: "(PAGE_SIZE - 1 :: u64) = mask 16" by (simp add: PAGE_SIZE_def mask_eq_exp_minus_1)
  have m': "(mask 16 :: u64) = 65535" by (simp add: mask_eq_exp_minus_1)
  have u: "unat (sz + 65535) = unat sz + 65535"
    using assms by (simp add: unat_word_ariths)
  have "unat (drop_bit 16 (sz + 65535)) = pages sz"
    by (simp add: drop_bit_eq_div unat_div_distrib u pages_def)
  moreover have "pages sz * 65536 < 2 ^ 64"
    using assms unfolding pages_def by (simp add: le_less_trans [OF div_times_less_eq_dividend])
  ultimately have "unat (push_bit 16 (drop_bit 16 (sz + 65535))) = pages sz * 65536"
    by (simp add: push_bit_eq_mult unat_word_ariths)
  moreover have "align sz PAGE_SIZE = push_bit 16 (drop_bit 16 (sz + 65535))"
    unfolding align_def m using and_not_mask [of "sz + mask 16" 16] unfolding m' .
  ultimately show ?thesis by simp
qed

section \<open>A run of allocations\<close>

text \<open>
  The specification: the \<open>k\<close>-th buffer starts where the pages of the ones before end.
\<close>

definition pages_before :: "u64 list \<Rightarrow> nat \<Rightarrow> nat" where
  "pages_before ss k = sum_list (map pages (take k ss))"

lemma custom_malloc_step:
  assumes "initialized m" "sz \<noteq> 0" "start = (if next_free m = 0 then base_address m else next_free m)"
  shows "custom_malloc sz m = (start, m\<lparr>next_free := start + align sz PAGE_SIZE\<rparr>)"
  using assms by (simp add: custom_malloc_def Let_def)

lemma malloc_run:
  assumes "initialized m" "\<forall>s \<in> set ss. s \<noteq> 0"
    and "start = (if next_free m = 0 then base_address m else next_free m)" "start \<noteq> 0"
    and "unat start + sum_list (map pages ss) * 65536 < 2 ^ 64 - 65536"
  shows "length (fst (malloc_all ss m)) = length ss \<and>
    (\<forall>k < length ss. unat (fst (malloc_all ss m) ! k) = unat start + pages_before ss k * 65536)"
  using assms
proof (induction ss arbitrary: m start)
  case Nil
  then show ?case by simp
next
  case (Cons s ss)
  have bound: "unat start + (pages s + sum_list (map pages ss)) * 65536 < 2 ^ 64 - 65536"
    using Cons.prems(5) by simp
  have "(unat s + 65535) div 65536 * 65536 + (unat s + 65535) mod 65536 = unat s + 65535"
    by (rule div_mult_mod_eq)
  moreover have "(unat s + 65535) mod 65536 < 65536" by simp
  ultimately have "unat s + 65535 < pages s * 65536 + 65536" unfolding pages_def by linarith
  then have small: "unat s + 65535 < 2 ^ 64" using bound by simp
  let ?al = "align s PAGE_SIZE"
  have al: "unat ?al = pages s * 65536" by (rule align_page [OF small])
  have nxt: "unat (start + ?al) = unat start + pages s * 65536"
    unfolding al [symmetric] using bound al by (intro unat_add_lem [THEN iffD1]) simp
  have "unat start \<noteq> 0" using Cons.prems(4) by (simp add: unat_eq_zero)
  then have nz: "start + ?al \<noteq> 0" using nxt by (metis add_is_0 unat_0)
  let ?m1 = "m\<lparr>next_free := start + ?al\<rparr>"
  have step: "custom_malloc s m = (start, ?m1)"
    using Cons.prems(1-3) by (intro custom_malloc_step) simp_all
  have IH: "length (fst (malloc_all ss ?m1)) = length ss \<and>
    (\<forall>k < length ss. unat (fst (malloc_all ss ?m1) ! k) =
       unat (start + ?al) + pages_before ss k * 65536)"
  proof (rule Cons.IH)
    show "unat (start + ?al) + sum_list (map pages ss) * 65536 < 2 ^ 64 - 65536"
      using bound by (simp add: nxt algebra_simps)
  qed (use Cons.prems nz in simp_all)
  have "unat (fst (malloc_all (s # ss) m) ! k) = unat start + pages_before (s # ss) k * 65536"
    if "k < length (s # ss)" for k
    using that IH by (cases k) (simp_all add: step case_prod_beta nxt pages_before_def)
  then show ?case using IH by (simp add: step case_prod_beta)
qed

section \<open>Properties\<close>

text \<open>
  C31: in a fresh pool the allocator hands out consecutive regions of whole pages of 64 KB: the
  \<open>k\<close>-th buffer starts right after the pages of the earlier ones, so buffers never overlap, as
  long as the addresses do not wrap.  Every buffer has the alignment of the base within a
  page (which the program only asks to be a multiple of 128), not that of a page.
\<close>

theorem pool_regions:
  assumes "base \<noteq> 0" "next_free m = 0" "\<forall>s \<in> set ss. s \<noteq> 0"
    and "unat base + sum_list (map pages ss) * 65536 < 2 ^ 64 - 65536"
    and "j < k" "k < length ss" "ps = fst (malloc_all ss (init_custom_mm base psz m))"
  shows "unat (ps ! k) = unat base + pages_before ss k * 65536 \<and>
     unat (ps ! k) mod 65536 = unat base mod 65536 \<and>
     unat (ps ! j) + pages (ss ! j) * 65536 \<le> unat (ps ! k)"
proof -
  have run: "length ps = length ss \<and>
    (\<forall>k < length ss. unat (ps ! k) = unat base + pages_before ss k * 65536)"
    unfolding assms(7)
    by (rule malloc_run) (use assms(1-4) in \<open>simp_all add: init_custom_mm_def\<close>)
  have "pages_before ss j + pages (ss ! j) = pages_before ss (Suc j)"
    using assms(5,6) by (simp add: pages_before_def take_Suc_conv_app_nth)
  moreover have "pages_before ss (Suc j) \<le> pages_before ss k"
  proof -
    obtain d where d: "k = Suc j + d" using assms(5) by (auto simp: less_iff_Suc_add)
    show ?thesis unfolding d pages_before_def take_add by simp
  qed
  ultimately have "pages_before ss j + pages (ss ! j) \<le> pages_before ss k" by simp
  then show ?thesis using run assms(5,6) by simp
qed

lemma pool_regions_witness:
  "unat (fst (malloc_all [100, 70000, 5] (init_custom_mm 0x10000 0x100000 init_mm)) ! 2) = 0x40000"
  using pool_regions [where base = "0x10000" and m = init_mm and ss = "[100, 70000, 5]" and j = 1 and k = 2
      and psz = "0x100000", OF _ _ _ _ _ _ refl]
  by (simp add: init_mm_def pages_before_def pages_def)

text \<open>
  the allocator never looks at the size of the pool: a pool of one page serves any
  number of buffers, the second of which lies wholly outside of it.
\<close>

theorem pool_not_bounded:
  assumes "base \<noteq> 0" "unat base < 2 ^ 63" "next_free m = 0"
  shows "fst (malloc_all [PAGE_SIZE, PAGE_SIZE] (init_custom_mm base PAGE_SIZE m)) =
    [base, base + PAGE_SIZE]"
proof -
  have "unat (base + PAGE_SIZE) = unat base + unat PAGE_SIZE"
    using assms(2) by (intro unat_add_lem [THEN iffD1]) (simp add: PAGE_SIZE_def)
  then have "base + PAGE_SIZE \<noteq> 0"
    by (metis add_is_0 assms(1) unat_0 unat_eq_zero)
  moreover have "align PAGE_SIZE PAGE_SIZE = PAGE_SIZE" by (simp add: align_def PAGE_SIZE_def)
  ultimately show ?thesis
    using assms by (simp add: custom_malloc_def init_custom_mm_def Let_def PAGE_SIZE_def)
qed

lemma pool_not_bounded_witness:
  "fst (malloc_all [PAGE_SIZE, PAGE_SIZE] (init_custom_mm 0x10000 PAGE_SIZE init_mm)) = [0x10000, 0x20000]"
  using pool_not_bounded [of "0x10000" init_mm] by (simp add: init_mm_def PAGE_SIZE_def)

text \<open>
  finalising the allocator keeps its bump pointer, so after a new initialisation the
  first buffer still comes from the old pool.
\<close>

theorem stale_pool:
  assumes "initialized m" "sz \<noteq> 0" "sz' \<noteq> 0" "custom_malloc sz m = (p, m1)" "next_free m1 \<noteq> 0"
  shows "fst (custom_malloc sz' (init_custom_mm base' size' (fini_custom_mm m1))) = p + align sz PAGE_SIZE"
  using assms by (auto simp: custom_malloc_def init_custom_mm_def fini_custom_mm_def Let_def split: if_splits)

lemma stale_pool_witness:
  "fst (custom_malloc 8 (init_custom_mm 0x900000 PAGE_SIZE (fini_custom_mm
     (snd (custom_malloc 8 (init_custom_mm 0x10000 PAGE_SIZE init_mm)))))) = 0x20000"
proof -
  have "custom_malloc 8 (init_custom_mm 0x10000 PAGE_SIZE init_mm) =
      (0x10000, snd (custom_malloc 8 (init_custom_mm 0x10000 PAGE_SIZE init_mm)))"
    by (simp add: custom_malloc_def init_custom_mm_def init_mm_def Let_def)
  moreover have "next_free (snd (custom_malloc 8 (init_custom_mm 0x10000 PAGE_SIZE init_mm))) \<noteq> 0"
    by (simp add: custom_malloc_def init_custom_mm_def init_mm_def Let_def align_def PAGE_SIZE_def)
  ultimately show ?thesis
    using stale_pool [where m = "init_custom_mm 0x10000 PAGE_SIZE init_mm" and sz = 8 and sz' = 8]
    by (simp add: init_custom_mm_def align_def PAGE_SIZE_def)
qed

text \<open>
  \<^verbatim>\<open>custom_malloc_aligned\<close> rounds the size, not the address: the alignment never has
  an influence on where a (non-empty) buffer starts.
\<close>

theorem alignment_ignored:
  assumes "align sz a \<noteq> 0" "align sz b \<noteq> 0"
  shows "fst (custom_malloc_aligned a sz m) = fst (custom_malloc_aligned b sz m)"
  using assms by (simp add: custom_malloc_aligned_def custom_malloc_def Let_def)

lemma alignment_ignored_witness:
  "fst (custom_malloc_aligned 0x100000 8 (init_custom_mm 0x10000 PAGE_SIZE init_mm)) =
   fst (custom_malloc_aligned 8 8 (init_custom_mm 0x10000 PAGE_SIZE init_mm))"
  by (rule alignment_ignored) (simp_all add: align_def)

end
