(* ===== verification/TFShmem.thy ===== *)
theory TFShmem imports TFFlow TFMm begin

text \<open>
  \<^verbatim>\<open>libtfshmem/src/tf_shmem.c\<close>: the user library that runs one side of a shared pool in the
  calling process.  Its state is a mode (uninitialised, compute node or memory node), the
  pool and the allocator; it calls the attach and detach operations directly.
\<close>

section \<open>Model\<close>

definition COMPUTE_PORT :: cint where "COMPUTE_PORT = 2"
definition MEMORY_PORT :: cint where "MEMORY_PORT = 1"
definition AFU_NAME :: string where "AFU_NAME = ''IBM,RMEM''"

record shm =
  pool_ea :: u64
  pool_size :: u64
  memory_node :: cint
  alloc :: mm

definition init_shm :: shm where
  "init_shm = \<lparr> pool_ea = 0, pool_size = 0, memory_node = -1, alloc = init_mm \<rparr>"

definition is_initialized :: "shm \<Rightarrow> bool" where
  "is_initialized st \<longleftrightarrow> memory_node st \<noteq> -1"

definition tf_initialized :: "shm \<Rightarrow> bool" where
  "tf_initialized st = is_initialized st"

definition tf_get_pool_ea :: "shm \<Rightarrow> u64" where
  "tf_get_pool_ea st = (if memory_node st \<noteq> 1 then 0 else pool_ea st)"

definition tf_compute_init ::
    "env \<Rightarrow> u64 \<Rightarrow> u64 \<Rightarrow> shm \<Rightarrow> world \<Rightarrow> (cint \<times> shm \<times> world) option" where
  "tf_compute_init env eaddr psz st w =
     (if is_initialized st then Some (-2, st, w)
      else do {
        (ret, w1) \<leftarrow> attach_compute env (literal env ''0x1'') (literal env AFU_NAME)
                      (Port COMPUTE_PORT PNull) eaddr psz 1 w;
        Some (if ret \<noteq> ATTACH_OK then -1 else ret,
              st\<lparr>pool_ea := eaddr, pool_size := psz, memory_node := 0\<rparr>,
              snd (sys env (Sleep 5) w1)) })"

definition tf_memory_init ::
    "env \<Rightarrow> u64 \<Rightarrow> shm \<Rightarrow> world \<Rightarrow> (cint \<times> shm \<times> world) option" where
  "tf_memory_init env psz st w =
     (if is_initialized st then Some (-2, st, w)
      else do {
        ((ret, ptr), w1) \<leftarrow> attach_memory env (literal env ''0x1'') (literal env AFU_NAME)
                      (Port MEMORY_PORT PNull) psz (junk_word env (trace w) 0) w;
        if ret \<noteq> ATTACH_OK then Some (ret, st, w1)
        else Some (ret, st\<lparr>pool_ea := ptr, pool_size := psz,
               alloc := init_custom_mm ptr psz (alloc st), memory_node := 1\<rparr>, w1) })"

definition tf_shmem_teardown :: "env \<Rightarrow> shm \<Rightarrow> world \<Rightarrow> (cint \<times> shm \<times> world) option" where
  "tf_shmem_teardown env st w =
     (if \<not> is_initialized st then Some (0, st, w)
      else do {
        (ret, w1) \<leftarrow> (if memory_node st \<noteq> 0 then detach_memory env (literal env ''0x1'') w
                      else detach_compute env (literal env ''0x1'') w);
        if ret \<noteq> DETACH_OK then Some (-1, st, w1)
        else Some (0, st\<lparr>pool_ea := 0, pool_size := 0, memory_node := -1\<rparr>, w1) })"

definition tf_buffer_alloc :: "u64 \<Rightarrow> shm \<Rightarrow> u64 \<times> shm" where
  "tf_buffer_alloc buffer_size st =
     (if \<not> is_initialized st then (0, st)
      else if memory_node st = 0 then (0, st)
      else let (ptr, m) = custom_malloc buffer_size (alloc st) in (ptr, st\<lparr>alloc := m\<rparr>))"

text \<open>\<^verbatim>\<open>MAP_FAILED\<close> is the pointer -1.\<close>

definition buf_map_mmap :: "env \<Rightarrow> u64 \<Rightarrow> u64 \<Rightarrow> world \<Rightarrow> u64 \<times> world" where
  "buf_map_mmap env offset len w =
     (let (fd, w1) = sys_rc env (Open_rdwr ''/dev/tfshmem'') w in
      if sint fd < 0 then (0, snd (sys env (Close fd) w1))
      else
        let ((_, ret), w2) = sys env (Mmap len offset) w1 in
        (ret, snd (sys env (Close fd) w2)))"

definition tf_buffer_map :: "env \<Rightarrow> u64 \<Rightarrow> u64 \<Rightarrow> shm \<Rightarrow> world \<Rightarrow> u64 \<times> world" where
  "tf_buffer_map env eaddr buffer_size st w =
     (if eaddr = 0 then (0, w)
      else if \<not> is_initialized st then (0, w)
      else if memory_node st \<noteq> 0 then (0, w)
      else
        let (addr, w1) = buf_map_mmap env (eaddr - pool_ea st) buffer_size w in
        if addr = -1 then (0, w1)
        else
          let (rc, w2) = sys_rc env (Mlock addr buffer_size) w1 in
          if sint rc < 0 then (0, w2) else (addr, w2))"

definition tf_buffer_unmap :: "env \<Rightarrow> u64 \<Rightarrow> u64 \<Rightarrow> shm \<Rightarrow> world \<Rightarrow> cint \<times> world" where
  "tf_buffer_unmap env buf len st w =
     (if \<not> is_initialized st then (-1, w)
      else if memory_node st \<noteq> 0 then (-1, w)
      else sys_rc env (Munmap buf len) w)"

definition tf_buffer_free :: "u64 \<Rightarrow> shm \<Rightarrow> shm" where
  "tf_buffer_free buf st =
     (if \<not> is_initialized st then st
      else if memory_node st = 0 then st
      else st\<lparr>alloc := custom_free buf (alloc st)\<rparr>)"

section \<open>The library as a state machine\<close>

inductive shm_step :: "env \<Rightarrow> shm \<times> world \<Rightarrow> shm \<times> world \<Rightarrow> bool" for env where
  ci: "tf_compute_init env eaddr psz st w = Some (rc, st', w') \<Longrightarrow> shm_step env (st, w) (st', w')"
| mi: "tf_memory_init env psz st w = Some (rc, st', w') \<Longrightarrow> shm_step env (st, w) (st', w')"
| td: "tf_shmem_teardown env st w = Some (rc, st', w') \<Longrightarrow> shm_step env (st, w) (st', w')"
| al: "tf_buffer_alloc n st = (p, st') \<Longrightarrow> shm_step env (st, w) (st', w)"
| fr: "shm_step env (st, w) (tf_buffer_free p st, w)"
| mp: "tf_buffer_map env eaddr n st w = (p, w') \<Longrightarrow> shm_step env (st, w) (st, w')"
| um: "tf_buffer_unmap env p n st w = (rc, w') \<Longrightarrow> shm_step env (st, w) (st, w')"

text \<open>
  The states the library can get into, with the bases of the pools it has been initialised on
  as a memory node, in order.
\<close>

inductive shm_reachable :: "env \<Rightarrow> world \<Rightarrow> u64 list \<Rightarrow> shm \<times> world \<Rightarrow> bool" for env w0 where
  init: "shm_reachable env w0 [] (init_shm, w0)"
| step: "shm_reachable env w0 ps s \<Longrightarrow> shm_step env s s' \<Longrightarrow>
    shm_reachable env w0
      (if memory_node (fst s) \<noteq> 1 \<and> memory_node (fst s') = 1 then ps @ [pool_ea (fst s')] else ps) s'"

text \<open>
  The mode is one of three; the pool is empty unless initialised; on a memory node the base
  and the size of the allocator are those of the pool that was attached.
\<close>

definition shm_inv :: "shm \<Rightarrow> bool" where
  "shm_inv st \<longleftrightarrow>
     memory_node st \<in> {-1, 0, 1} \<and>
     (memory_node st = -1 \<longrightarrow> pool_ea st = 0 \<and> pool_size st = 0) \<and>
     (memory_node st = 1 \<longrightarrow> initialized (alloc st) \<and> base_address (alloc st) = pool_ea st \<and>
        PREALLOC_SIZE (alloc st) = pool_size st)"

text \<open>
  The bump pointer: unset, or a number of whole pages above the base of one of the pools.
\<close>

definition bump_inv :: "u64 list \<Rightarrow> shm \<Rightarrow> bool" where
  "bump_inv ps st \<longleftrightarrow> (memory_node st = 1 \<longrightarrow> ps \<noteq> [] \<and> last ps = pool_ea st) \<and>
     (next_free (alloc st) = 0 \<or>
      (\<exists>base \<in> set ps. \<exists>k. next_free (alloc st) = base + of_nat k * PAGE_SIZE))"

lemma custom_malloc_frame:
  "custom_malloc n m = (p, m') \<Longrightarrow> base_address m' = base_address m \<and>
   PREALLOC_SIZE m' = PREALLOC_SIZE m \<and> initialized m' = initialized m"
  by (auto simp: custom_malloc_def Let_def split: if_splits)

lemma align_pages: "\<exists>k. align sz PAGE_SIZE = of_nat k * PAGE_SIZE"
proof -
  have m: "(PAGE_SIZE - 1 :: u64) = mask 16" by (simp add: PAGE_SIZE_def mask_eq_exp_minus_1)
  have "align sz PAGE_SIZE = push_bit 16 (drop_bit 16 (sz + mask 16))"
    by (simp only: align_def m and_not_mask)
  also have "\<dots> = of_nat (unat (drop_bit 16 (sz + mask 16))) * PAGE_SIZE"
    by (simp add: push_bit_eq_mult PAGE_SIZE_def)
  finally show ?thesis by blast
qed

lemma custom_malloc_bump:
  assumes "custom_malloc n m = (p, m')"
  shows "next_free m' = next_free m \<or> (\<exists>k. next_free m' =
    (if next_free m = 0 then base_address m else next_free m) + of_nat k * PAGE_SIZE)"
  using assms align_pages [of n] by (auto simp: custom_malloc_def Let_def split: if_splits)

lemma modes_differ: "(-1 :: cint) \<noteq> 0" "(-1 :: cint) \<noteq> 1" "(0 :: cint) \<noteq> 1" "(1 :: cint) \<noteq> -1"
  by simp_all

lemma shm_step_inv: "shm_step env s s' \<Longrightarrow> shm_inv (fst s) \<Longrightarrow> shm_inv (fst s')"
proof (induction rule: shm_step.induct)
  case (al n st p st' w)
  then show ?case
    by (auto simp: tf_buffer_alloc_def shm_inv_def split: if_splits prod.splits dest: custom_malloc_frame)
qed (auto simp: tf_compute_init_def tf_memory_init_def tf_shmem_teardown_def tf_buffer_free_def
       custom_free_def shm_inv_def init_custom_mm_def split: if_splits)

lemma bump_frame:
  "bump_inv ps st \<Longrightarrow> next_free (alloc st') = next_free (alloc st) \<Longrightarrow> set ps \<subseteq> set ps' \<Longrightarrow>
   (memory_node st' = 1 \<Longrightarrow> ps' \<noteq> [] \<and> last ps' = pool_ea st') \<Longrightarrow> bump_inv ps' st'"
  unfolding bump_inv_def by auto

lemma bump_step:
  assumes "shm_step env s s'" "bump_inv ps (fst s)" "shm_inv (fst s)"
  shows "bump_inv (if memory_node (fst s) \<noteq> 1 \<and> memory_node (fst s') = 1 then ps @ [pool_ea (fst s')] else ps) (fst s')"
  using assms
proof (induction rule: shm_step.induct)
  case (al n st p st' w)
  show ?case
  proof (cases "memory_node st = 1")
    case False
    then show ?thesis using al
      by (auto simp: tf_buffer_alloc_def is_initialized_def shm_inv_def split: if_splits prod.splits)
  next
    case True
    obtain q m where m: "custom_malloc n (alloc st) = (q, m)" by fastforce
    then have st': "st' = st\<lparr>alloc := m\<rparr>" using al.hyps True by (simp add: tf_buffer_alloc_def is_initialized_def)
    have base: "base_address (alloc st) = pool_ea st" "pool_ea st \<in> set ps"
      using al.prems True last_in_set [of ps] by (auto simp: shm_inv_def bump_inv_def)
    have "next_free m = 0 \<or> (\<exists>base \<in> set ps. \<exists>k. next_free m = base + of_nat k * PAGE_SIZE)"
      using custom_malloc_bump [OF m]
    proof
      assume "next_free m = next_free (alloc st)"
      then show ?thesis using al.prems(1) by (simp add: bump_inv_def)
    next
      assume "\<exists>k. next_free m =
        (if next_free (alloc st) = 0 then base_address (alloc st) else next_free (alloc st)) + of_nat k * PAGE_SIZE"
      then obtain k where k: "next_free m =
        (if next_free (alloc st) = 0 then pool_ea st else next_free (alloc st)) + of_nat k * PAGE_SIZE"
        unfolding base(1) by blast
      show ?thesis
      proof (cases "next_free (alloc st) = 0")
        case True
        with k base(2) show ?thesis by auto
      next
        case False
        then obtain b j where "b \<in> set ps" "next_free (alloc st) = b + of_nat j * PAGE_SIZE"
          using al.prems(1) by (auto simp: bump_inv_def)
        with k False have "next_free m = b + of_nat (j + k) * PAGE_SIZE" by (simp add: algebra_simps)
        with \<open>b \<in> set ps\<close> show ?thesis by blast
      qed
    qed
    then show ?thesis using al.prems(1) True st' by (simp add: bump_inv_def)
  qed
next
  case (ci eaddr psz st w rc st' w')
  then have "next_free (alloc st') = next_free (alloc st)" "memory_node st' = 1 \<Longrightarrow> st' = st"
    by (auto simp: tf_compute_init_def split: if_splits)
  moreover have "memory_node st = 1 \<Longrightarrow> ps \<noteq> [] \<and> last ps = pool_ea st" "bump_inv ps st"
    using ci.prems(1) by (simp_all add: bump_inv_def)
  ultimately show ?case by - (rule bump_frame [of ps st], auto)
next
  case (mi psz st w rc st' w')
  then have "next_free (alloc st') = next_free (alloc st)" "memory_node st = 1 \<Longrightarrow> st' = st"
    by (auto simp: tf_memory_init_def init_custom_mm_def is_initialized_def split: if_splits)
  moreover from this have "memory_node st' = 1 \<Longrightarrow> memory_node st = 1 \<Longrightarrow> last ps = pool_ea st' \<and> ps \<noteq> []"
    using mi.prems(1) by (simp add: bump_inv_def)
  ultimately show ?case using mi.prems(1) by - (rule bump_frame [of ps st], auto)
next
  case (td st w rc st' w')
  then have "next_free (alloc st') = next_free (alloc st)" "memory_node st' = 1 \<Longrightarrow> st' = st"
    by (auto simp: tf_shmem_teardown_def split: if_splits)
  moreover have "memory_node st = 1 \<Longrightarrow> ps \<noteq> [] \<and> last ps = pool_ea st" "bump_inv ps st"
    using td.prems(1) by (simp_all add: bump_inv_def)
  ultimately show ?case by - (rule bump_frame [of ps st], auto)
next
  case (fr st w p)
  have "tf_buffer_free p st = st" by (simp add: tf_buffer_free_def custom_free_def)
  then show ?case using fr.prems(1) by simp
qed simp_all

lemma shm_reachable_inv: "shm_reachable env w0 ps s \<Longrightarrow> shm_inv (fst s) \<and> bump_inv ps (fst s)"
proof (induction rule: shm_reachable.induct)
  case init
  show ?case by (simp add: init_shm_def shm_inv_def bump_inv_def init_mm_def)
next
  case (step ps s s')
  then show ?case using shm_step_inv bump_step by blast
qed

section \<open>Properties\<close>

text \<open>
  the operations respect the mode: buffers are only handed out on a memory node, and
  off a compute node mapping and unmapping fail without a call to the kernel; an
  initialised library refuses a second initialisation, an uninitialised one has nothing to
  tear down.
\<close>

theorem shm_modes:
  "(memory_node st \<noteq> 1 \<and> shm_inv st \<longrightarrow> tf_buffer_alloc n st = (0, st) \<and> tf_get_pool_ea st = 0) \<and>
   (memory_node st \<noteq> 0 \<longrightarrow> tf_buffer_map env e n st w = (0, w) \<and> tf_buffer_unmap env p n st w = (-1, w)) \<and>
   (is_initialized st \<longrightarrow> tf_compute_init env e n st w = Some (-2, st, w) \<and>
      tf_memory_init env n st w = Some (-2, st, w)) \<and>
   (\<not> is_initialized st \<longrightarrow> tf_shmem_teardown env st w = Some (0, st, w))"
  by (auto simp: tf_buffer_alloc_def tf_get_pool_ea_def tf_buffer_map_def tf_buffer_unmap_def
      tf_compute_init_def tf_memory_init_def tf_shmem_teardown_def is_initialized_def shm_inv_def)

lemma shm_modes_witness:
  "tf_buffer_alloc 8 init_shm = (0, init_shm) \<and>
   tf_shmem_teardown (demo_env True) init_shm init_world = Some (0, init_shm, init_world)"
proof -
  have "memory_node init_shm \<noteq> 1 \<and> shm_inv init_shm" "\<not> is_initialized init_shm"
    by (simp_all add: init_shm_def shm_inv_def is_initialized_def)
  then show ?thesis using shm_modes [of init_shm 8 "demo_env True" 0 init_world 0] by blast
qed

section \<open>The life of a memory pool\<close>

text \<open>The literal \<^verbatim>\<open>"0x1"\<close> as the registry sees it.\<close>

definition cid_0x1 :: "env \<Rightarrow> bytes" where
  "cid_0x1 env = lit ''0x1'' @ rodata env ''0x1''"

lemma literal_0x1: "literal env ''0x1'' = Some (cid_0x1 env)"
  by (simp add: literal_def cid_0x1_def)

lemma tf_memory_init_ok:
  assumes "memory_node st = -1" "tf_memory_init env psz st w = Some (ATTACH_OK, st', w')"
  shows "\<exists>e. attach_memory env (Some (cid_0x1 env)) (literal env AFU_NAME) (Port MEMORY_PORT PNull) psz e w =
      Some ((ATTACH_OK, pool_ea st'), w') \<and>
    st' = st\<lparr>pool_ea := pool_ea st', pool_size := psz,
             alloc := init_custom_mm (pool_ea st') psz (alloc st), memory_node := 1\<rparr>"
proof -
  have fresh: "\<not> is_initialized st" using assms(1) by (simp add: is_initialized_def)
  obtain ret ptr v where a: "attach_memory env (Some (cid_0x1 env)) (literal env AFU_NAME)
      (Port MEMORY_PORT PNull) psz (junk_word env (trace w) 0) w = Some ((ret, ptr), v)"
    using assms(2) fresh by (auto simp: tf_memory_init_def literal_0x1)
  have "ret = ATTACH_OK \<and> v = w' \<and> st' = st\<lparr>pool_ea := ptr, pool_size := psz,
      alloc := init_custom_mm ptr psz (alloc st), memory_node := 1\<rparr>"
    using assms(2) fresh by (simp add: tf_memory_init_def literal_0x1 a split: if_splits)
  then show ?thesis using a by (intro exI [of _ "junk_word env (trace w) 0"]) simp
qed

lemma memory_init_teardown:
  assumes "reg_inv w" "registry w (cid_key (cid_0x1 env)) = None" "memory_node st = -1"
    and "tf_memory_init env psz st w = Some (ATTACH_OK, st1, w1)"
    and "memory_node st2 = 1"
  shows "\<exists>w2. tf_shmem_teardown env st2 w1 =
       Some (0, st2\<lparr>pool_ea := 0, pool_size := 0, memory_node := -1\<rparr>, w2) \<and>
     reg_inv w2 \<and> registry w2 (cid_key (cid_0x1 env)) = None \<and> live w2 = live w \<and>
     (pool_ea st1 \<noteq> 0 \<longrightarrow> pool_ea st1 \<in> set (live w1) \<and> pool_ea st1 \<notin> set (live w2))"
proof -
  obtain e where e: "attach_memory env (Some (cid_0x1 env)) (literal env AFU_NAME) (Port MEMORY_PORT PNull)
      psz e w = Some ((ATTACH_OK, pool_ea st1), w1)"
    using tf_memory_init_ok [OF assms(3,4)] by blast
  obtain w2 where w2: "detach_memory env (Some (cid_0x1 env)) w1 = Some (DETACH_OK, w2)" "reg_inv w2"
      "registry w2 = registry w" "live w2 = live w" "pool_ea st1 \<noteq> 0 \<longrightarrow> pool_ea st1 \<in> set (live w1)"
    using attach_then_detach [OF assms(1,2) e] by blast
  obtain as where as: "reg_list w as" using assms(1) by (auto simp: reg_inv_def)
  have fresh: "pool_ea st1 \<notin> set (live w)" using attach_memory_ok [OF as e] by blast
  have "tf_shmem_teardown env st2 w1 =
      Some (0, st2\<lparr>pool_ea := 0, pool_size := 0, memory_node := -1\<rparr>, w2)"
    using assms(5) w2(1) by (simp add: tf_shmem_teardown_def is_initialized_def literal_0x1)
  then show ?thesis using w2(2-5) fresh assms(2) by (intro exI [of _ w2]) simp
qed

text \<open>
  C30: a memory pool that was set up can be torn down whatever buffers were carved out of it
  in between: the call succeeds, gives the pool back to the system, removes the circuit and
  leaves the library uninitialised, ready for another initialisation.
\<close>

theorem memory_pool_lifecycle:
  assumes "reg_inv w" "registry w (cid_key (cid_0x1 env)) = None" "memory_node st = -1"
    and "tf_memory_init env psz st w = Some (ATTACH_OK, st1, w1)"
    and "tf_buffer_alloc n st1 = (p, st2)"
  shows "\<exists>st3 w2. tf_shmem_teardown env (tf_buffer_free p st2) w1 = Some (0, st3, w2) \<and>
     memory_node st3 = -1 \<and> reg_inv w2 \<and> registry w2 (cid_key (cid_0x1 env)) = None \<and> live w2 = live w"
proof -
  have "memory_node st1 = 1" using tf_memory_init_ok [OF assms(3,4)] by (auto dest: arg_cong [where f = memory_node])
  then have "memory_node (tf_buffer_free p st2) = 1"
    using assms(5) by (auto simp: tf_buffer_alloc_def tf_buffer_free_def split: if_splits prod.splits)
  from memory_init_teardown [OF assms(1-4) this] show ?thesis by fastforce
qed

text \<open>An example run of the \<^verbatim>\<open>MOCK\<close> build in which the second pool lies elsewhere than the first.\<close>

definition pool_env :: env where
  "pool_env = (demo_env True)\<lparr>ext := (\<lambda>tr c. case c of
      Posix_memalign _ _ \<Rightarrow> (0, if length tr = 1 then 0x10000 else 0x500000)
    | _ \<Rightarrow> (0, 4096))\<rparr>"

lemma pool_env_simps:
  "mock pool_env" "junk pool_env tr k = 0" "rodata pool_env s = replicate 300 0"
  "ext pool_env tr (Malloc n) = (0, 4096)"
  "ext pool_env tr (Posix_memalign al sz) = (0, if length tr = 1 then 0x10000 else 0x500000)"
  by (simp_all add: pool_env_def)

definition pool_name :: bytes where
  "pool_name = the (strncpy_src (lit AFU_NAME @ replicate 300 0) AFUNAME_SIZE)"

lemma pool_name: "strncpy_src (lit AFU_NAME @ replicate 300 0) AFUNAME_SIZE = Some pool_name"
  using strncpy_src_defined [of AFUNAME_SIZE "lit AFU_NAME @ replicate 300 0"]
  by (auto simp: pool_name_def lit_def)

definition pool_conn :: "call list \<Rightarrow> u64 \<Rightarrow> connection" where
  "pool_conn tr p = \<lparr> circuit_id = 48 # 120 # 49 # 0 # replicate 32 0 @ [0], afu_name = pool_name, csize = 0x100000,
     ea = p, cnext = 0, no_hotplug = 0, afu = junk_word pool_env tr 328, stat_tid = 0,
     global = junk_word pool_env tr 344, pp_mmio = junk_word pool_env tr 352 \<rparr>"

definition pool_world :: "call list \<Rightarrow> u64 \<Rightarrow> world" where
  "pool_world tr p = init_world\<lparr>trace := tr @ [Malloc 328, Posix_memalign CACHE_ALIGNMENT 0],
     clist := 4096, live := [p], heap := [4096 \<mapsto> pool_conn tr p]\<rparr>"

lemma fresh_trace: "init_world\<lparr>trace := []\<rparr> = init_world"
  by (simp add: init_world_def)

lemma pool_cid: "cid_0x1 pool_env = 48 # 120 # 49 # 0 # replicate 300 0"
  by (simp add: cid_0x1_def pool_env_simps lit_def cstr_def)


lemma pool_cid_match:
  "strncmp_eq (circuit_id (pool_conn tr p)) (cid_0x1 pool_env) CIRCUIT_ID_SIZE = Some True"
  unfolding pool_cid by (simp add: pool_conn_def CIRCUIT_ID_SIZE_def strncmp_eq_iff)

lemma pool_attach:
  "attach_memory pool_env (Some (cid_0x1 pool_env)) (literal pool_env AFU_NAME) ports 0x100000 e
     (init_world\<lparr>trace := tr\<rparr>) =
   Some ((ATTACH_OK, if tr = [] then 0x10000 else 0x500000),
     pool_world tr (if tr = [] then 0x10000 else 0x500000))"
  by (simp add: attach_memory_def register_conn_def new_conn_def literal_def pool_env_simps pool_name
      pool_cid memalign_def put_node_def add_conn_def mem_read_def CIRCUIT_ID_SIZE_def Let_def sys_def
      pool_world_def pool_conn_def init_world_def)

lemma pool_detach:
  assumes "p \<noteq> 0"
  shows "detach_memory pool_env (Some (cid_0x1 pool_env)) (pool_world tr p) =
     Some (DETACH_OK, init_world\<lparr>trace := trace (pool_world tr p) @ [Free p, Free 4096]\<rparr>)"
proof -
  have c: "ea (pool_conn tr p) = p" "cnext (pool_conn tr p) = 0" by (simp_all add: pool_conn_def)
  have get: "get_conn (Some (cid_0x1 pool_env)) (pool_world tr p) = Some 4096"
    by (simp add: get_conn_def pool_world_def get_conn_loop.simps [of _ _ 4096] pool_cid_match)
  show ?thesis using assms get
    by (simp add: detach_memory_def pool_world_def c free_block_def del_conn_def
        del_conn_loop.simps [of _ _ 4096] pool_cid_match drop_conn_def unlink_conn_def free_conn_def
        pool_env_simps init_world_def)
qed

lemma pool_init:
  assumes "memory_node st = -1"
  shows "tf_memory_init pool_env 0x100000 st (init_world\<lparr>trace := tr\<rparr>) =
    Some (ATTACH_OK, st\<lparr>pool_ea := if tr = [] then 0x10000 else 0x500000, pool_size := 0x100000,
       alloc := init_custom_mm (if tr = [] then 0x10000 else 0x500000) 0x100000 (alloc st), memory_node := 1\<rparr>,
     pool_world tr (if tr = [] then 0x10000 else 0x500000))"
  using assms unfolding tf_memory_init_def by (simp add: is_initialized_def literal_0x1 pool_attach)

lemma pool_teardown:
  assumes "p \<noteq> 0" "memory_node st = 1"
  shows "tf_shmem_teardown pool_env st (pool_world tr p) =
    Some (0, st\<lparr>pool_ea := 0, pool_size := 0, memory_node := -1\<rparr>,
      init_world\<lparr>trace := trace (pool_world tr p) @ [Free p, Free 4096]\<rparr>)"
  using assms by (simp add: tf_shmem_teardown_def is_initialized_def literal_0x1 pool_detach)

text \<open>
  C35: in every reachable state of the library the mode is one of three and the pool is empty
  unless initialised; on a memory node the base and the size of the allocator are those of the
  pool.  Its bump pointer is unset or lies a number of whole pages above the base of a pool,
  which is the present one if the library was a memory node only once; after a tear-down it
  may be an earlier one (\<open>stale_pool_reused\<close>).
\<close>

theorem shm_invariant:
  assumes "shm_reachable env w0 ps (st, w)"
  shows "shm_inv st \<and>
     (next_free (alloc st) = 0 \<or> (\<exists>base \<in> set ps. \<exists>k. next_free (alloc st) = base + of_nat k * PAGE_SIZE)) \<and>
     (memory_node st = 1 \<longrightarrow> last ps = pool_ea st \<and>
       (length ps = 1 \<longrightarrow> next_free (alloc st) = 0 \<or>
          (\<exists>k. next_free (alloc st) = base_address (alloc st) + of_nat k * PAGE_SIZE)))"
proof -
  have inv: "shm_inv st" "bump_inv ps st" using shm_reachable_inv [OF assms] by simp_all
  have "set ps = {base_address (alloc st)}" if "memory_node st = 1" "length ps = 1"
    using inv that by (cases ps) (auto simp: shm_inv_def bump_inv_def)
  then show ?thesis using inv unfolding bump_inv_def by auto
qed

lemma shm_invariant_witness:
  "\<exists>st w k. shm_reachable pool_env init_world [0x10000] (st, w) \<and> memory_node st = 1 \<and>
     next_free (alloc st) = 0x20000 \<and> next_free (alloc st) = 0x10000 + of_nat k * PAGE_SIZE"
proof -
  define st1 where "st1 = \<lparr>pool_ea = 0x10000, pool_size = 0x100000, memory_node = 1,
    alloc = init_custom_mm 0x10000 0x100000 init_mm\<rparr>"
  have "tf_memory_init pool_env 0x100000 init_shm init_world = Some (ATTACH_OK, st1, pool_world [] 0x10000)"
    using pool_init [of init_shm "[]", unfolded fresh_trace] by (simp add: init_shm_def st1_def)
  from shm_reachable.step [OF shm_reachable.init shm_step.mi [OF this]]
  have r1: "shm_reachable pool_env init_world [0x10000] (st1, pool_world [] 0x10000)"
    by (simp add: init_shm_def st1_def)
  obtain st2 where st2: "tf_buffer_alloc 100 st1 = (0x10000, st2)" "memory_node st2 = 1"
      "next_free (alloc st2) = 0x20000" "base_address (alloc st2) = 0x10000"
    by (auto simp: st1_def tf_buffer_alloc_def is_initialized_def custom_malloc_def init_custom_mm_def
        init_mm_def Let_def align_def PAGE_SIZE_def split: prod.splits)
  from shm_reachable.step [OF r1 shm_step.al [OF st2(1)]] st2(2)
  have r2: "shm_reachable pool_env init_world [0x10000] (st2, pool_world [] 0x10000)"
    by (simp add: st1_def)
  from shm_invariant [OF r2] st2(2-4) obtain k where "next_free (alloc st2) = 0x10000 + of_nat k * PAGE_SIZE"
    by auto
  with r2 st2(2,3) show ?thesis by blast
qed

text \<open>
  finalising a memory node never resets the allocator.  After a tear-down and a second
  \<^verbatim>\<open>tf_memory_init\<close> the first buffer handed out continues behind the last buffer of the
  first pool, wherever the second pool lies: the program gets a pointer into memory that
  was given back.
\<close>

theorem stale_pool_reused:
  assumes "shm_inv st" "memory_node st = 1" "next_free (alloc st) \<noteq> 0"
    and "tf_shmem_teardown env st w = Some (0, st1, w1)"
    and "tf_memory_init env psz st1 w1 = Some (ATTACH_OK, st2, w2)" "n \<noteq> 0"
  shows "fst (tf_buffer_alloc n st2) = next_free (alloc st)"
proof -
  have st1: "st1 = st\<lparr>pool_ea := 0, pool_size := 0, memory_node := -1\<rparr>"
    using assms(2,4) by (auto simp: tf_shmem_teardown_def is_initialized_def split: if_splits)
  then have "memory_node st1 = -1" by simp
  from tf_memory_init_ok [OF this assms(5)] obtain p where
    "st2 = st1\<lparr>pool_ea := p, pool_size := psz, alloc := init_custom_mm p psz (alloc st1), memory_node := 1\<rparr>"
    by blast
  then show ?thesis using st1 assms(3,6)
    by (simp add: tf_buffer_alloc_def is_initialized_def init_custom_mm_def custom_malloc_def Let_def)
qed

lemma stale_pool_reused_witness:
  "\<exists>st1 w1 st2 w2 st3 w3 st4 w4.
     tf_memory_init pool_env 0x100000 init_shm init_world = Some (ATTACH_OK, st1, w1) \<and>
     tf_buffer_alloc 100 st1 = (0x10000, st2) \<and>
     tf_shmem_teardown pool_env st2 w1 = Some (0, st3, w3) \<and>
     tf_memory_init pool_env 0x100000 st3 w3 = Some (ATTACH_OK, st4, w4) \<and>
     pool_ea st4 = 0x500000 \<and> fst (tf_buffer_alloc 100 st4) = 0x20000"
proof -
  define st1 where "st1 = \<lparr>pool_ea = 0x10000, pool_size = 0x100000, memory_node = 1,
    alloc = init_custom_mm 0x10000 0x100000 init_mm\<rparr>"
  have st1: "tf_memory_init pool_env 0x100000 init_shm init_world =
      Some (ATTACH_OK, st1, pool_world [] 0x10000)"
    using pool_init [of init_shm "[]", unfolded fresh_trace] by (simp add: init_shm_def st1_def)
  have st1': "memory_node st1 = 1" "shm_inv st1" "alloc st1 = init_custom_mm 0x10000 0x100000 init_mm"
    by (simp_all add: st1_def shm_inv_def init_custom_mm_def)
  obtain st2 where st2: "tf_buffer_alloc 100 st1 = (0x10000, st2)" "memory_node st2 = 1" "shm_inv st2"
      "next_free (alloc st2) = 0x20000"
    using st1' by (auto simp: tf_buffer_alloc_def is_initialized_def custom_malloc_def init_custom_mm_def
        init_mm_def shm_inv_def Let_def align_def PAGE_SIZE_def split: prod.splits)
  obtain st3 w3 where st3: "tf_shmem_teardown pool_env st2 (pool_world [] 0x10000) = Some (0, st3, w3)"
      "memory_node st3 = -1" "w3 = init_world\<lparr>trace := trace (pool_world [] 0x10000) @ [Free 0x10000, Free 4096]\<rparr>"
    using pool_teardown [of "0x10000" st2 "[]"] st2(2) by simp
  obtain st4 w4 where st4: "tf_memory_init pool_env 0x100000 st3 w3 = Some (ATTACH_OK, st4, w4)"
      "pool_ea st4 = 0x500000"
    using pool_init [OF st3(2)] unfolding st3(3) by simp
  have "fst (tf_buffer_alloc 100 st4) = 0x20000"
    using stale_pool_reused [OF st2(3,2) _ st3(1) st4(1), where n = 100] st2(4) by simp
  then show ?thesis using st1 st2(1) st3(1) st4 by blast
qed

lemma memory_pool_lifecycle_witness:
  "\<exists>st1 w1 st3 w2. tf_memory_init pool_env 0x100000 init_shm init_world = Some (ATTACH_OK, st1, w1) \<and>
     tf_shmem_teardown pool_env (tf_buffer_free (fst (tf_buffer_alloc 8 st1)) (snd (tf_buffer_alloc 8 st1))) w1 =
       Some (0, st3, w2) \<and> live w2 = []"
proof -
  obtain st1 w1 where st1: "tf_memory_init pool_env 0x100000 init_shm init_world = Some (ATTACH_OK, st1, w1)"
    using pool_init [of init_shm "[]", unfolded fresh_trace] by (simp add: init_shm_def)
  have "reg_list init_world []" by (simp add: reg_list_def)
  then have "registry init_world (cid_key (cid_0x1 pool_env)) = None" by (simp add: registry_map_of)
  from memory_pool_lifecycle [OF reg_inv_init this _ st1 prod.collapse [symmetric], where n = 8] st1
  show ?thesis by (simp add: init_shm_def) blast
qed

lemma map_trace:
  assumes "tf_buffer_map env eaddr n st w = (addr, w')" "addr \<noteq> 0"
  shows "\<exists>fd. memory_node st = 0 \<and> eaddr \<noteq> 0 \<and>
     trace w' = trace w @ [Open_rdwr ''/dev/tfshmem'', Mmap n (eaddr - pool_ea st), Close fd, Mlock addr n] \<and>
     addr = snd (ext env (trace w @ [Open_rdwr ''/dev/tfshmem'']) (Mmap n (eaddr - pool_ea st)))"
proof (cases "sint (fst (ext env (trace w) (Open_rdwr ''/dev/tfshmem''))) < 0")
  case True
  then show ?thesis using assms
    by (auto simp: tf_buffer_map_def buf_map_mmap_def Let_def split: if_splits)
next
  case False
  then show ?thesis using assms
    by (auto simp: tf_buffer_map_def buf_map_mmap_def sys_def Let_def split: if_splits prod.splits)
qed

text \<open>
  a buffer mapped on the compute node is the file range that starts at the distance of
  its address from the base of the pool: the device is opened, that range is mapped, the
  descriptor is closed and the mapping is locked in memory, in this order and nothing else.
\<close>

theorem buffer_map_offset:
  assumes "tf_buffer_map env eaddr n st w = (addr, w')" "addr \<noteq> 0"
  shows "\<exists>fd. memory_node st = 0 \<and> eaddr \<noteq> 0 \<and>
     trace w' = trace w @ [Open_rdwr ''/dev/tfshmem'', Mmap n (eaddr - pool_ea st), Close fd, Mlock addr n] \<and>
     addr = snd (ext env (trace w @ [Open_rdwr ''/dev/tfshmem'']) (Mmap n (eaddr - pool_ea st)))"
  using assms by (rule map_trace)

lemma buffer_map_offset_witness:
  "\<exists>fd w'. trace w' = [Open_rdwr ''/dev/tfshmem'', Mmap 100 0x20000, Close fd, Mlock 0x2000 100] \<and>
     tf_buffer_map (demo_env True) 0x70000 100
       (init_shm\<lparr>memory_node := 0, pool_ea := 0x50000, pool_size := 0x100000\<rparr>) init_world = (0x2000, w')"
proof -
  let ?st = "init_shm\<lparr>memory_node := 0, pool_ea := 0x50000, pool_size := 0x100000\<rparr>"
  have "fst (tf_buffer_map (demo_env True) 0x70000 100 ?st init_world) = 0x2000"
    by (simp add: tf_buffer_map_def is_initialized_def init_shm_def buf_map_mmap_def sys_def Let_def)
  then obtain w' where w': "tf_buffer_map (demo_env True) 0x70000 100 ?st init_world = (0x2000, w')"
    by (metis prod.collapse)
  from buffer_map_offset [OF this] w' show ?thesis by simp
qed

end
