(* ===== verification/TFShTests.thy ===== *)
theory TFShTests imports TFShmem begin

text \<open>
  \<^verbatim>\<open>libtfshmem/test/test_compute.c\<close> and \<^verbatim>\<open>test_memory.c\<close>: the two programs that exercise
  the shared-memory library, one per node.  The compute node fills two buffers, prints their
  sums and flushes its cache; the memory node prints the sums of what it finds in memory.

  A buffer of unsigned integers is a function from the index to a 32-bit word.  What the
  user types is an argument of the program, as is the content the buffers start with.  The
  cache is not modelled: a program yields the lines it flushed, and the theorems about both
  programs hold for every content of the memory that agrees on flushed lines.
\<close>

section \<open>Flushing a block\<close>

definition CACHELINE_SIZE :: u64 where "CACHELINE_SIZE = 0x80"
definition CACHELINE_MASK :: u64 where "CACHELINE_MASK = CACHELINE_SIZE - 1"

datatype flush = FLUSH_LINE u64 | FLUSH_LINE_SYNC u64

definition flush_line :: "bool \<Rightarrow> u64 \<Rightarrow> flush" where
  "flush_line syn a = (if syn then FLUSH_LINE_SYNC a else FLUSH_LINE a)"

partial_function (option) flush_loop :: "bool \<Rightarrow> u64 \<Rightarrow> u64 \<Rightarrow> flush list option" where
  "flush_loop syn start_addr end_addr =
     (if start_addr < end_addr then do {
        rest \<leftarrow> flush_loop syn (start_addr + CACHELINE_SIZE) end_addr;
        Some (flush_line syn start_addr # rest) }
      else Some [])"

definition flush_memory_block :: "u64 \<Rightarrow> u64 \<Rightarrow> bool \<Rightarrow> flush list option" where
  "flush_memory_block addr sz syn =
     (let start_addr = addr; end_addr = start_addr + sz in
      if start_addr AND CACHELINE_MASK \<noteq> 0 then do {
        rest \<leftarrow> flush_loop syn (start_addr + (CACHELINE_SIZE - (start_addr AND CACHELINE_MASK))) end_addr;
        Some (flush_line syn start_addr # rest) }
      else flush_loop syn start_addr end_addr)"

section \<open>Filling and adding up a buffer\<close>

type_synonym buffer = "nat \<Rightarrow> 32 word"

text \<open>The loop over the remaining \<open>n\<close> indices from \<open>i\<close>; \<open>v i\<close> is the value of the index.\<close>

fun fill_loop :: "(nat \<Rightarrow> u64) \<Rightarrow> nat \<Rightarrow> nat \<Rightarrow> buffer \<Rightarrow> u64 \<Rightarrow> buffer \<times> u64" where
  "fill_loop v 0 i b s = (b, s)"
| "fill_loop v (Suc n) i b s = fill_loop v n (Suc i) (b(i := ucast (v i))) (s + v i)"

fun sum_loop :: "nat \<Rightarrow> nat \<Rightarrow> buffer \<Rightarrow> u64 \<times> u64 \<Rightarrow> u64 \<times> u64" where
  "sum_loop 0 i b (s, z) = (s, z)"
| "sum_loop (Suc n) i b (s, z) =
     (let val = ucast (b i) in sum_loop n (Suc i) b (if val = 0 then (s, z + 1) else (s + val, z)))"

section \<open>The program of the compute node\<close>

definition POOL_SIZE :: u64 where "POOL_SIZE = 100 * 1024 * 1024 * 1024"
definition buf_size :: u64 where "buf_size = 100 * 1024 * 1024"

text \<open>The number of unsigned integers in a block.\<close>

definition words :: "u64 \<Rightarrow> nat" where
  "words sz = unat (sz div 4)"

record compute_run =
  c_rc :: cint
  c_sums :: "u64 list"
  c_maps :: "u64 list"                 \<comment> \<open>where the buffers were mapped\<close>
  c_bufs :: "buffer list"              \<comment> \<open>what was written to them\<close>
  c_flushed :: "flush list list"

definition test_compute_main ::
    "env \<Rightarrow> u64 \<Rightarrow> u64 \<Rightarrow> u64 \<Rightarrow> buffer \<Rightarrow> buffer \<Rightarrow> shm \<Rightarrow> world \<Rightarrow> (compute_run \<times> shm \<times> world) option" where
  "test_compute_main env ea0 ea1 ea2 b1 b2 st w = do {
     (rc, st1, w1) \<leftarrow> tf_compute_init env ea0 POOL_SIZE st w;
     if rc = -1 then
       Some (\<lparr> c_rc = -1, c_sums = [], c_maps = [], c_bufs = [], c_flushed = [] \<rparr>, st1, w1)
     else do {
       let (p1, w2) = tf_buffer_map env ea1 buf_size st1 w1;
       if p1 = 0 then
         Some (\<lparr> c_rc = -1, c_sums = [], c_maps = [], c_bufs = [], c_flushed = [] \<rparr>, st1, w2)
       else do {
         let (b1', sum1) = fill_loop of_nat (words buf_size) 0 b1 0;
         fs1 \<leftarrow> flush_memory_block p1 buf_size False;
         let (_, w3) = tf_buffer_unmap env p1 buf_size st1 w2;
         let (p2, w4) = tf_buffer_map env ea2 (2 * buf_size) st1 w3;
         if p2 = 0 then
           Some (\<lparr> c_rc = -1, c_sums = [sum1], c_maps = [p1], c_bufs = [b1'], c_flushed = [fs1] \<rparr>, st1, w4)
         else do {
           let (b2', sum2) = fill_loop (\<lambda>i. (2 * buf_size) div 4 - of_nat i) (words (2 * buf_size)) 0 b2 0;
           fs2 \<leftarrow> flush_memory_block p2 buf_size True;
           let (_, w5) = tf_buffer_unmap env p2 (2 * buf_size) st1 w4;
           (_, st2, w6) \<leftarrow> tf_shmem_teardown env st1 w5;
           Some (\<lparr> c_rc = 0, c_sums = [sum1, sum2], c_maps = [p1, p2], c_bufs = [b1', b2'],
                   c_flushed = [fs1, fs2] \<rparr>, st2, w6) } } } }"

section \<open>The program of the memory node\<close>

record memory_run =
  m_rc :: cint
  m_pool :: u64
  m_bufs :: "u64 list"
  m_sums :: "(u64 \<times> u64) list"         \<comment> \<open>the sums and the number of zeroes\<close>

text \<open>
  \<open>b1\<close> and \<open>b2\<close> are the contents of the two buffers when the user presses a key.  The
  pointer of the second buffer is not tested.
\<close>

definition test_memory_main ::
    "env \<Rightarrow> buffer \<Rightarrow> buffer \<Rightarrow> shm \<Rightarrow> world \<Rightarrow> (memory_run \<times> shm \<times> world) option" where
  "test_memory_main env b1 b2 st w = do {
     (rc, st1, w1) \<leftarrow> tf_memory_init env POOL_SIZE st w;
     if rc = -1 then Some (\<lparr> m_rc = -1, m_pool = 0, m_bufs = [], m_sums = [] \<rparr>, st1, w1)
     else do {
       let eaddr = tf_get_pool_ea st1;
       let (buf_ptr, st2) = tf_buffer_alloc buf_size st1;
       if buf_ptr = 0 then Some (\<lparr> m_rc = -1, m_pool = eaddr, m_bufs = [], m_sums = [] \<rparr>, st2, w1)
       else do {
         let (buf2_ptr, st3) = tf_buffer_alloc (2 * buf_size) st2;
         if buf_ptr = 0 then
           Some (\<lparr> m_rc = -1, m_pool = eaddr, m_bufs = [buf_ptr], m_sums = [] \<rparr>, st3, w1)
         else if buf2_ptr = 0 then None
         else
           Some (\<lparr> m_rc = 0, m_pool = eaddr, m_bufs = [buf_ptr, buf2_ptr],
                   m_sums = [sum_loop (words buf_size) 0 b1 (0, 0),
                             sum_loop (words (2 * buf_size)) 0 b2 (0, 0)] \<rparr>, st3, w1) } } }"

section \<open>What the loops compute\<close>

lemma fill_loop_eq:
  "fill_loop v n i b s =
     (\<lambda>k. if i \<le> k \<and> k < i + n then ucast (v k) else b k, s + (\<Sum>k = i..<i + n. v k))"
proof (induction n arbitrary: i b s)
  case (Suc n)
  have "(\<Sum>k = i..<i + Suc n. v k) = v i + (\<Sum>k = Suc i..<Suc i + n. v k)"
    by (simp add: sum.atLeast_Suc_lessThan)
  then show ?case by (auto simp: Suc fun_eq_iff)
qed (auto simp: fun_eq_iff)

lemma ucast_zero: "(ucast (x :: 32 word) :: u64) = 0 \<longleftrightarrow> x = 0"
proof
  assume "(ucast x :: u64) = 0"
  then have "\<not> bit (ucast x :: u64) n" for n by simp
  then have "\<not> bit x n" for n using bit_imp_le_length [of x n] by (auto simp: bit_simps)
  then show "x = 0" by (intro bit_word_eqI) simp
qed simp

lemma sum_loop_eq:
  "sum_loop n i b (s, z) =
     (s + (\<Sum>k = i..<i + n. ucast (b k)), z + of_nat (card {k. i \<le> k \<and> k < i + n \<and> b k = 0}))"
proof (induction n arbitrary: i s z)
  case (Suc n)
  let ?Z = "{k. Suc i \<le> k \<and> k < Suc i + n \<and> b k = 0}"
  have split: "(\<Sum>k = i..<i + Suc n. ucast (b k) :: u64) = ucast (b i) + (\<Sum>k = Suc i..<Suc i + n. ucast (b k))"
    by (simp add: sum.atLeast_Suc_lessThan)
  have zeroes: "{k. i \<le> k \<and> k < i + Suc n \<and> b k = 0} = (if b i = 0 then insert i ?Z else ?Z)"
    by (auto simp: Suc_le_eq) (metis le_neq_implies_less)+
  have "finite ?Z" by (rule finite_subset [of _ "{..<Suc i + n}"]) auto
  then have card: "card {k. i \<le> k \<and> k < i + Suc n \<and> b k = 0} = (if b i = 0 then Suc (card ?Z) else card ?Z)"
    unfolding zeroes by simp
  have nz: "(ucast (b i) :: u64) = 0 \<longleftrightarrow> b i = 0"
    by (rule ucast_zero)
  show ?case
    unfolding sum_loop.simps Let_def nz split card by (simp add: Suc)
next
  case (0 i s z)
  have e: "{k. i \<le> k \<and> k < i \<and> b k = 0} = {}" by auto
  show ?case by (simp add: e)
qed

section \<open>What a flush covers\<close>

text \<open>The line an address lies in, and the line a flush is for.\<close>

definition line_of :: "u64 \<Rightarrow> nat" where
  "line_of a = unat a div 128"

fun flushed_line :: "flush \<Rightarrow> nat" where
  "flushed_line (FLUSH_LINE a) = line_of a"
| "flushed_line (FLUSH_LINE_SYNC a) = line_of a"

lemma flushed_line [simp]: "flushed_line (flush_line syn a) = line_of a"
  by (simp add: flush_line_def)

lemma flush_loop_lines:
  assumes "unat s = 128 * k" "unat e \<le> 2 ^ 64 - 128"
  shows "\<exists>fs. flush_loop syn s e = Some fs \<and> map flushed_line fs = [k..<(unat e + 127) div 128]"
  using assms
proof (induction "(unat e + 127) div 128 - k" arbitrary: s k)
  case 0
  then have "unat e \<le> 128 * k" by simp
  then have "\<not> s < e" using 0 by (simp add: word_less_nat_alt)
  then show ?case using 0 by (simp add: flush_loop.simps)
next
  case (Suc n)
  then have lt: "128 * k < unat e" by linarith
  then have "s < e" using Suc.prems by (simp add: word_less_nat_alt)
  have nxt: "unat (s + CACHELINE_SIZE) = 128 * Suc k"
    using lt Suc.prems by (subst unat_plus_simple [THEN iffD1])
      (simp_all add: CACHELINE_SIZE_def no_olen_add_nat)
  have "n = (unat e + 127) div 128 - Suc k" using Suc.hyps(2) by simp
  from Suc.hyps(1) [OF this nxt Suc.prems(2)] obtain fs where
    fs: "flush_loop syn (s + CACHELINE_SIZE) e = Some fs"
        "map flushed_line fs = [Suc k..<(unat e + 127) div 128]" by blast
  have "[k..<(unat e + 127) div 128] = k # [Suc k..<(unat e + 127) div 128]"
    using Suc.hyps(2) by (intro upt_conv_Cons) simp
  then show ?case using fs \<open>s < e\<close> Suc.prems(1)
    by (simp add: flush_loop.simps [of syn s] line_of_def)
qed

lemma mask_mod: "unat (a AND CACHELINE_MASK) = unat a mod 128"
proof -
  have "CACHELINE_MASK = mask 7" by (simp add: CACHELINE_MASK_def CACHELINE_SIZE_def mask_eq_exp_minus_1)
  then have "a AND CACHELINE_MASK = take_bit 7 a" by (simp only: take_bit_eq_mask)
  then have "unat (a AND CACHELINE_MASK) = take_bit 7 (unat a)" by (simp only: unsigned_take_bit_eq)
  then show ?thesis by (simp add: take_bit_eq_mod)
qed

lemma flush_block_eq:
  assumes "unat addr + unat sz \<le> 2 ^ 64 - 128" "0 < sz"
  shows "\<exists>fs. flush_memory_block addr sz syn = Some fs \<and>
    map flushed_line fs = [line_of addr..<(unat addr + unat sz + 127) div 128]"
proof -
  have e: "unat (addr + sz) = unat addr + unat sz"
    using assms(1) by (intro unat_add_lem [THEN iffD1]) simp
  have sz: "0 < unat sz" using assms(2) by (simp add: word_less_nat_alt)
  show ?thesis
  proof (cases "unat addr mod 128 = 0")
    case True
    then have "addr AND CACHELINE_MASK = 0" using mask_mod [of addr] by (simp add: unat_eq_zero)
    moreover have "unat addr = 128 * (unat addr div 128)" using True mult_div_mod_eq [of 128 "unat addr"] by simp
    ultimately show ?thesis
      using flush_loop_lines [of addr "unat addr div 128" "addr + sz" syn] assms(1) e
      by (simp add: flush_memory_block_def line_of_def)
  next
    case False
    then have nz: "addr AND CACHELINE_MASK \<noteq> 0" using mask_mod [of addr] by auto
    let ?s = "addr + (CACHELINE_SIZE - (addr AND CACHELINE_MASK))"
    have "unat (CACHELINE_SIZE - (addr AND CACHELINE_MASK)) = 128 - unat addr mod 128"
      by (subst unat_sub) (simp_all add: word_le_nat_alt mask_mod CACHELINE_SIZE_def)
    moreover have "unat addr div 128 * 128 + unat addr mod 128 = unat addr" by (rule div_mult_mod_eq)
    ultimately have s: "unat ?s = 128 * Suc (line_of addr)"
      using assms(1) sz by (subst unat_add_lem [THEN iffD1]; simp add: line_of_def; linarith)
    from flush_loop_lines [OF s, of "addr + sz" syn] assms(1) e obtain fs where
      fs: "flush_loop syn ?s (addr + sz) = Some fs"
          "map flushed_line fs = [Suc (line_of addr)..<(unat addr + unat sz + 127) div 128]" by auto
    have "line_of addr < (unat addr + unat sz + 127) div 128"
      using sz unfolding line_of_def by linarith
    then have "[line_of addr..<(unat addr + unat sz + 127) div 128] =
        line_of addr # [Suc (line_of addr)..<(unat addr + unat sz + 127) div 128]"
      by (rule upt_conv_Cons)
    then show ?thesis using fs nz by (simp add: flush_memory_block_def)
  qed
qed

section \<open>The two programs together\<close>

text \<open>The sums of the two loops of the compute node, and how the memory node sees them.\<close>

definition sum1 :: u64 where "sum1 = (\<Sum>i = 0..<words buf_size. of_nat i)"
definition sum2 :: u64 where "sum2 = (\<Sum>i = 0..<words (2 * buf_size). of_nat (words (2 * buf_size) - i))"

definition filled1 :: "buffer \<Rightarrow> buffer" where
  "filled1 b = (\<lambda>i. if i < words buf_size then of_nat i else b i)"

definition filled2 :: "buffer \<Rightarrow> buffer" where
  "filled2 b = (\<lambda>i. if i < words (2 * buf_size) then of_nat (words (2 * buf_size) - i) else b i)"

lemma words_buf [simp]: "words buf_size = 26214400" "words (2 * buf_size) = 52428800"
  by (simp_all add: words_def buf_size_def)

lemma buf_size_val: "unat buf_size = 104857600" "unat (2 * buf_size) = 209715200"
  by (simp_all add: buf_size_def)

lemma down: "i < 52428800 \<Longrightarrow> (2 * buf_size) div 4 - of_nat i = (of_nat (52428800 - i) :: u64)"
  by (simp add: buf_size_def of_nat_diff)

lemma ucast_of_nat: "(ucast (of_nat x :: u64) :: 32 word) = of_nat x"
  by (rule bit_word_eqI) (simp add: bit_simps)

lemma fill1: "fill_loop of_nat (words buf_size) 0 b 0 = (filled1 b, sum1)"
  unfolding fill_loop_eq sum1_def filled1_def by (auto simp: fun_eq_iff ucast_of_nat)

lemma fill2: "fill_loop (\<lambda>i. (2 * buf_size) div 4 - of_nat i) (words (2 * buf_size)) 0 b 0 = (filled2 b, sum2)"
  unfolding fill_loop_eq sum2_def filled2_def by (auto simp: fun_eq_iff down ucast_of_nat simp del: of_nat_diff intro!: sum.cong)

lemma sum_up: "(\<Sum>i = 0..<n. of_nat i :: u64) = of_nat (n * (n - 1) div 2)"
  unfolding of_nat_sum [symmetric] using Sum_Ico_nat [of 0 n] by simp

lemma sum_down: "m \<le> n \<Longrightarrow> (\<Sum>i = 0..<m. n - i) = m * (2 * n - m + 1) div (2 :: nat)"
proof -
  have "2 * (\<Sum>i = 0..<m. n - i) = m * (2 * n - m + 1)" if "m \<le> n" for m
    using that
  proof (induction m)
    case (Suc m)
    then obtain d where "n = Suc m + d" by (auto simp: le_iff_add)
    then show ?case using Suc by (simp add: algebra_simps)
  qed simp
  then show "m \<le> n \<Longrightarrow> ?thesis" by (metis nonzero_mult_div_cancel_left zero_neq_numeral)
qed

lemma sums: "sum1 = 343597370572800" "sum2 = 1374389560934400"
proof -
  show "sum1 = 343597370572800" unfolding sum1_def words_buf sum_up by simp
  show "sum2 = 1374389560934400"
    unfolding sum2_def words_buf of_nat_sum [symmetric] by (subst sum_down) simp_all
qed

text \<open>What the memory node adds up in a range of a buffer, and the zeroes it counts there.\<close>

definition seen :: "nat \<Rightarrow> nat \<Rightarrow> buffer \<Rightarrow> u64 \<times> u64" where
  "seen i j b = ((\<Sum>k = i..<j. ucast (b k)), of_nat (card {k. i \<le> k \<and> k < j \<and> b k = 0}))"

lemma seen_cong: "(\<And>k. i \<le> k \<Longrightarrow> k < j \<Longrightarrow> b k = b' k) \<Longrightarrow> seen i j b = seen i j b'"
proof -
  assume eq: "\<And>k. i \<le> k \<Longrightarrow> k < j \<Longrightarrow> b k = b' k"
  have "{k. i \<le> k \<and> k < j \<and> b k = 0} = {k. i \<le> k \<and> k < j \<and> b' k = 0}" using eq by auto
  then show ?thesis using eq unfolding seen_def by (auto intro!: sum.cong)
qed

lemma seen_split:
  assumes "i \<le> j" "j \<le> k"
  shows "seen i k b = (fst (seen i j b) + fst (seen j k b), snd (seen i j b) + snd (seen j k b))"
proof -
  let ?Z = "\<lambda>i j. {k. i \<le> k \<and> k < j \<and> b k = 0}"
  have "?Z i k = ?Z i j \<union> ?Z j k" using assms by auto
  moreover have "finite (?Z i j)" "finite (?Z j k)"
    by (rule finite_subset [of _ "{..<k}"]; use assms in auto)+
  moreover have "?Z i j \<inter> ?Z j k = {}" by auto
  ultimately have "card (?Z i k) = card (?Z i j) + card (?Z j k)" by (simp add: card_Un_disjoint)
  moreover have "(\<Sum>l = i..<j. ucast (b l) :: u64) + (\<Sum>l = j..<k. ucast (b l)) = (\<Sum>l = i..<k. ucast (b l))"
    by (rule sum.atLeastLessThan_concat [OF assms])
  ultimately show ?thesis by (simp add: seen_def)
qed

lemma sum_loop_seen: "sum_loop n 0 b (0, 0) = seen 0 n b"
  by (simp add: sum_loop_eq seen_def)

lemma seen_of_nat:
  assumes "\<And>k. i \<le> k \<Longrightarrow> k < j \<Longrightarrow> b k = of_nat (v k) \<and> v k < 2 ^ 32"
  shows "seen i j b = (of_nat (\<Sum>k = i..<j. v k), of_nat (card {k. i \<le> k \<and> k < j \<and> v k = 0}))"
proof -
  have "(ucast (of_nat n :: 32 word) :: u64) = of_nat n" if "n < 2 ^ 32" for n
    using that by (simp add: unsigned_of_nat take_bit_nat_eq_self)
  then have s: "(\<Sum>k = i..<j. ucast (b k) :: u64) = (\<Sum>k = i..<j. of_nat (v k))"
    using assms by (intro sum.cong) auto
  have "(of_nat n :: 32 word) = 0 \<longleftrightarrow> n = 0" if "n < 2 ^ 32" for n
    using that by (simp add: word_of_nat_eq_0_iff) (auto dest: dvd_imp_le)
  then have "{k. i \<le> k \<and> k < j \<and> b k = 0} = {k. i \<le> k \<and> k < j \<and> v k = 0}"
    using assms by auto
  then show ?thesis by (simp add: seen_def s)
qed

lemma seen_filled:
  "seen 0 (words buf_size) (filled1 b) = (sum1, 1)"
  "seen 0 (words (2 * buf_size)) (filled2 b) = (sum2, 0)"
  "seen 0 (words buf_size) (filled2 b) = (1030792164147200, 0)"
proof -
  have one: "{k. k < (26214400 :: nat) \<and> k = 0} = {0}" by auto
  show "seen 0 (words buf_size) (filled1 b) = (sum1, 1)"
    by (subst seen_of_nat [where v = "\<lambda>k. k"]) (simp_all add: filled1_def sum1_def one)
  have none: "{k. k < m \<and> (52428800 :: nat) - k = 0} = {}" if "m \<le> 52428800" for m
    using that by auto
  show "seen 0 (words (2 * buf_size)) (filled2 b) = (sum2, 0)"
    by (subst seen_of_nat [where v = "\<lambda>k. 52428800 - k"])
       (simp_all add: filled2_def sum2_def none del: of_nat_diff diff_is_0_eq)
  show "seen 0 (words buf_size) (filled2 b) = (1030792164147200, 0)"
    by (subst seen_of_nat [where v = "\<lambda>k. 52428800 - k"])
       (simp_all add: filled2_def none sum_down del: of_nat_diff diff_is_0_eq of_nat_sum)
qed

text \<open>A run of the compute node that ends well.\<close>

lemma compute_run_ok:
  assumes "test_compute_main env ea0 ea1 ea2 b1 b2 st w = Some (c, st', w')" "c_rc c = 0"
  obtains p1 p2 fs1 fs2 where
    "c_maps c = [p1, p2]" "c_sums c = [sum1, sum2]" "c_bufs c = [filled1 b1, filled2 b2]"
    "c_flushed c = [fs1, fs2]" "flush_memory_block p1 buf_size False = Some fs1"
    "flush_memory_block p2 buf_size True = Some fs2"
  using assms unfolding test_compute_main_def fill1 fill2
  by (auto simp: Let_def case_prod_beta split: if_splits)

lemma memory_run_ok:
  assumes "test_memory_main env m1 m2 st w = Some (r, st', w')" "m_rc r = 0"
  shows "m_sums r = [seen 0 (words buf_size) m1, seen 0 (words (2 * buf_size)) m2]"
  using assms unfolding test_memory_main_def sum_loop_seen
  by (auto simp: Let_def case_prod_beta split: if_splits)

text \<open>The lines of the words of a block that was flushed.\<close>

lemma word_line:
  assumes "unat p + 4 * n \<le> 2 ^ 64" "k < n"
  shows "line_of (p + 4 * of_nat k) = (unat p + 4 * k) div 128"
proof -
  have "unat (4 * of_nat k :: u64) = 4 * k"
    using assms by (simp add: unat_word_ariths unsigned_of_nat take_bit_nat_eq_self)
  then have "unat (p + 4 * of_nat k) = unat p + 4 * k"
    using assms by (subst unat_add_lem [THEN iffD1]) simp_all
  then show ?thesis by (simp add: line_of_def)
qed

lemma flushed_words:
  assumes "flush_memory_block p buf_size syn = Some fs" "unat p + unat buf_size \<le> 2 ^ 64 - 128"
    and "k < words buf_size"
  shows "line_of (p + 4 * of_nat k) \<in> flushed_line ` set fs"
proof -
  obtain fs' where fs: "flush_memory_block p buf_size syn = Some fs'"
      "map flushed_line fs' = [line_of p..<(unat p + unat buf_size + 127) div 128]"
    using flush_block_eq [OF assms(2), of syn] by (auto simp: buf_size_def)
  have "line_of (p + 4 * of_nat k) = (unat p + 4 * k) div 128"
    using assms(2,3) by (intro word_line [where n = "words buf_size"]) (simp_all add: buf_size_val)
  moreover have "(unat p + 4 * k) div 128 \<in> {line_of p..<(unat p + unat buf_size + 127) div 128}"
    using assms(3) unfolding line_of_def by (simp add: buf_size_val) linarith
  ultimately show ?thesis using fs assms(1) by (simp flip: set_map)
qed

lemma unflushed_words:
  assumes "flush_memory_block p buf_size syn = Some fs" "unat p mod 128 = 0"
    and "unat p + unat (2 * buf_size) \<le> 2 ^ 64 - 128" "words buf_size \<le> k" "k < words (2 * buf_size)"
  shows "line_of (p + 4 * of_nat k) \<notin> flushed_line ` set fs"
proof -
  have b: "unat p + unat buf_size \<le> 2 ^ 64 - 128" using assms(3) by (simp add: buf_size_def)
  obtain fs' where fs: "flush_memory_block p buf_size syn = Some fs'"
      "map flushed_line fs' = [line_of p..<(unat p + unat buf_size + 127) div 128]"
    using flush_block_eq [OF b, of syn] by (auto simp: buf_size_def)
  have "line_of (p + 4 * of_nat k) = (unat p + 4 * k) div 128"
    using assms(3,5) by (intro word_line [where n = "words (2 * buf_size)"]) (simp_all add: buf_size_val)
  moreover have "(unat p + unat buf_size + 127) div 128 \<le> (unat p + 4 * k) div 128"
  proof -
    obtain q where "unat p = 128 * q" using assms(2) by (metis mod_0_imp_dvd dvdE)
    then show ?thesis using assms(4) by (simp add: buf_size_val)
  qed
  ultimately show ?thesis using fs assms(1) by (simp flip: set_map)
qed

section \<open>A run of both programs\<close>

definition test_conn :: connection where
  "test_conn = \<lparr> circuit_id = 48 # 120 # 49 # 0 # replicate 32 0 @ [0], afu_name = pool_name,
     csize = POOL_SIZE, ea = junk_word pool_env [] 304, cnext = 0, no_hotplug = 1, afu = junk_word pool_env [] 328, stat_tid = 0,
     global = junk_word pool_env [] 344, pp_mmio = junk_word pool_env [] 352 \<rparr>"

definition test_world :: "call list \<Rightarrow> world" where
  "test_world tr = init_world\<lparr>trace := tr, clist := 4096, heap := [4096 \<mapsto> test_conn]\<rparr>"

lemma test_attach:
  "attach_compute pool_env (Some (cid_0x1 pool_env)) (literal pool_env AFU_NAME) (Port p PNull) e POOL_SIZE 1
     init_world = Some (ATTACH_OK, test_world [Malloc 328])"
  by (simp add: attach_compute_def register_conn_def new_conn_def literal_def pool_env_simps pool_name
      pool_cid put_node_def add_conn_def mem_read_def CIRCUIT_ID_SIZE_def Let_def sys_def
      test_world_def test_conn_def init_world_def)

lemma test_init:
  "tf_compute_init pool_env e POOL_SIZE init_shm init_world =
     Some (ATTACH_OK, init_shm\<lparr>pool_ea := e, pool_size := POOL_SIZE, memory_node := 0\<rparr>,
       test_world [Malloc 328, Sleep 5])"
  unfolding tf_compute_init_def
  by (simp add: is_initialized_def init_shm_def literal_0x1 test_attach sys_def test_world_def)

lemma test_teardown:
  assumes "memory_node st = 0"
  shows "\<exists>w'. tf_shmem_teardown pool_env st (test_world tr) =
    Some (0, st\<lparr>pool_ea := 0, pool_size := 0, memory_node := -1\<rparr>, w')"
proof -
  have c: "circuit_id test_conn = circuit_id (pool_conn [] 0)" "cnext test_conn = 0"
    by (simp_all add: test_conn_def pool_conn_def)
  have m: "strncmp_eq (circuit_id test_conn) (cid_0x1 pool_env) CIRCUIT_ID_SIZE = Some True"
    unfolding c(1) by (rule pool_cid_match)
  have get: "get_conn (Some (cid_0x1 pool_env)) (test_world tr) = Some 4096"
    by (simp add: get_conn_def test_world_def get_conn_loop.simps [of _ _ 4096] m)
  have "\<exists>w'. detach_compute pool_env (Some (cid_0x1 pool_env)) (test_world tr) = Some (DETACH_OK, w')"
    using get [unfolded test_world_def] by (simp add: detach_compute_def test_world_def c(2) del_conn_def
        del_conn_loop.simps [of _ _ 4096] m drop_conn_def unlink_conn_def free_conn_def pool_env_simps)
  then show ?thesis using assms by (auto simp: tf_shmem_teardown_def is_initialized_def literal_0x1)
qed

lemma test_map:
  assumes "memory_node st = 0" "e \<noteq> 0"
  shows "\<exists>tr'. tf_buffer_map pool_env e n st (test_world tr) = (4096, test_world tr')"
  using assms by (auto simp: tf_buffer_map_def buf_map_mmap_def sys_def pool_env_def is_initialized_def
      test_world_def init_world_def Let_def)

lemma test_unmap:
  assumes "memory_node st = 0"
  shows "\<exists>tr'. tf_buffer_unmap pool_env p n st (test_world tr) = (0, test_world tr')"
  using assms by (auto simp: tf_buffer_unmap_def sys_def pool_env_def is_initialized_def test_world_def
      init_world_def)

lemma compute_demo:
  "\<exists>c st' w'. test_compute_main pool_env 0x10000 0x10000 0x6410000 b1 b2 init_shm init_world =
     Some (c, st', w') \<and> c_rc c = 0 \<and> c_maps c = [4096, 4096]"
proof -
  let ?st = "init_shm\<lparr>pool_ea := 0x10000, pool_size := POOL_SIZE, memory_node := 0\<rparr>"
  have st: "memory_node ?st = 0" by simp
  obtain t1 where t1: "tf_buffer_map pool_env 0x10000 buf_size ?st (test_world [Malloc 328, Sleep 5]) =
      (4096, test_world t1)" using test_map [OF st, of "0x10000"] by force
  obtain t2 where t2: "tf_buffer_unmap pool_env 4096 buf_size ?st (test_world t1) = (0, test_world t2)"
    using test_unmap [OF st] by blast
  obtain t3 where t3: "tf_buffer_map pool_env 0x6410000 (2 * buf_size) ?st (test_world t2) =
      (4096, test_world t3)" using test_map [OF st, of "0x6410000"] by force
  obtain t4 where t4: "tf_buffer_unmap pool_env 4096 (2 * buf_size) ?st (test_world t3) = (0, test_world t4)"
    using test_unmap [OF st] by blast
  obtain w' where w': "tf_shmem_teardown pool_env ?st (test_world t4) =
      Some (0, ?st\<lparr>pool_ea := 0, pool_size := 0, memory_node := -1\<rparr>, w')"
    using test_teardown [OF st] by blast
  have "unat (4096 :: u64) + unat buf_size \<le> 2 ^ 64 - 128" "0 < buf_size"
    by (simp_all add: buf_size_def)
  then obtain fs1 fs2 where "flush_memory_block 4096 buf_size False = Some fs1"
      "flush_memory_block 4096 buf_size True = Some fs2" using flush_block_eq by blast
  then show ?thesis
    unfolding test_compute_main_def test_init fill1 fill2 using t1 t2 t3 t4 w'
    by (simp add: Let_def err_defs)
qed

lemma memory_demo:
  "\<exists>r st' w'. test_memory_main pool_env m1 m2 init_shm init_world = Some (r, st', w') \<and> m_rc r = 0"
proof -
  obtain w1 where "attach_memory pool_env (Some (cid_0x1 pool_env)) (literal pool_env AFU_NAME)
      (Port MEMORY_PORT PNull) POOL_SIZE e init_world = Some ((ATTACH_OK, 0x10000), w1)" for e
    by (simp add: attach_memory_def register_conn_def new_conn_def literal_def pool_env_simps pool_name
      pool_cid memalign_def put_node_def add_conn_def mem_read_def CIRCUIT_ID_SIZE_def Let_def sys_def
      init_world_def)
  then show ?thesis
    by (simp add: test_memory_main_def tf_memory_init_def init_shm_def is_initialized_def literal_0x1
        err_defs tf_buffer_alloc_def custom_malloc_def init_custom_mm_def init_mm_def Let_def buf_size_def
        align_def PAGE_SIZE_def)
qed

section \<open>Properties\<close>

text \<open>
  C39: flushing a block flushes every cache line that holds a byte of it, once, in ascending
  order, and no other line, wherever in its first and last line the block starts and ends.
\<close>

theorem flush_block_lines:
  assumes "unat addr + unat sz \<le> 2 ^ 64 - 128" "0 < sz"
  shows "\<exists>fs. flush_memory_block addr sz syn = Some fs \<and>
    sorted_wrt (<) (map flushed_line fs) \<and>
    flushed_line ` set fs = (\<lambda>a. a div 128) ` {unat addr..<unat addr + unat sz}"
proof -
  obtain fs where fs: "flush_memory_block addr sz syn = Some fs"
      "map flushed_line fs = [line_of addr..<(unat addr + unat sz + 127) div 128]"
    using flush_block_eq [OF assms] by blast
  have "(\<lambda>a. a div 128) ` {unat addr..<unat addr + unat sz} =
      {line_of addr..<(unat addr + unat sz + 127) div 128}"
  proof (intro set_eqI iffI)
    fix l assume l: "l \<in> {line_of addr..<(unat addr + unat sz + 127) div 128}"
    have "0 < unat sz" using assms(2) by (simp add: word_less_nat_alt)
    then have "max (unat addr) (l * 128) \<in> {unat addr..<unat addr + unat sz}"
      using l by (auto simp: line_of_def)
    moreover have "max (unat addr) (l * 128) div 128 = l"
      using l by (auto simp: line_of_def max_def)
    ultimately show "l \<in> (\<lambda>a. a div 128) ` {unat addr..<unat addr + unat sz}"
      by (metis (no_types, lifting) image_eqI)
  qed (auto simp: line_of_def div_le_mono less_eq_div_iff_mult_less_eq Suc_le_eq [symmetric])
  then show ?thesis using fs by (simp flip: set_map)
qed

lemma flush_block_lines_witness:
  "\<exists>fs. flush_memory_block 100 200 True = Some fs \<and> sorted_wrt (<) (map flushed_line fs) \<and>
     flushed_line ` set fs = {0, 1, 2}"
proof -
  have "(\<lambda>a. a div 128) ` {100..<300 :: nat} = {0, 1, 2}"
  proof (intro set_eqI iffI)
    fix l :: nat assume "l \<in> {0, 1, 2}"
    then have "l \<in> {100 div 128, 200 div 128, 299 div 128}" by simp
    moreover have "{100, 200, 299} \<subseteq> {100..<300 :: nat}" by simp
    ultimately show "l \<in> (\<lambda>a. a div 128) ` {100..<300 :: nat}" by blast
  next
    fix l :: nat assume "l \<in> (\<lambda>a. a div 128) ` {100..<300 :: nat}"
    then obtain a where "a < 300" "l = a div 128" by auto
    then have "l < 3" by simp
    then show "l \<in> {0, 1, 2}" by (simp add: less_Suc_eq numeral_3_eq_3 numeral_2_eq_2)
  qed
  moreover have "unat (100 :: u64) + unat (200 :: u64) \<le> 2 ^ 64 - 128" by simp
  moreover have "unat (100 :: u64) = 100" "unat (100 :: u64) + unat (200 :: u64) = 300" by simp_all
  ultimately show ?thesis using flush_block_lines [of 100 200 True] by (simp only: simp_thms word_gt_0 zero_neq_numeral) simp
qed

text \<open>
  C22: both test programs end well and the memory node finds what was flushed: then it prints for
  the first buffer the sum of the compute node and one zero.  Of the second buffer only the
  first half is bound to arrive; the rest of the sum is what the memory held there.
\<close>

theorem shared_memory_test:
  assumes compute: "test_compute_main env ea0 ea1 ea2 b1 b2 st w = Some (c, st', w')" "c_rc c = 0"
    and memory: "test_memory_main env' m1 m2 s v = Some (r, s', v')" "m_rc r = 0"
    and maps: "c_maps c = [p1, p2]" "unat p1 + unat buf_size \<le> 2 ^ 64 - 128"
      "unat p2 + unat buf_size \<le> 2 ^ 64 - 128"
    and arrived: "\<forall>k < words buf_size. line_of (p1 + 4 * of_nat k) \<in> flushed_line ` set (c_flushed c ! 0) \<longrightarrow>
        m1 k = (c_bufs c ! 0) k"
      "\<forall>k < words (2 * buf_size). line_of (p2 + 4 * of_nat k) \<in> flushed_line ` set (c_flushed c ! 1) \<longrightarrow>
        m2 k = (c_bufs c ! 1) k"
  shows "c_sums c = [343597370572800, 1374389560934400] \<and>
    (let rest = seen (words buf_size) (words (2 * buf_size)) m2 in
     m_sums r = [(c_sums c ! 0, 1), (1030792164147200 + fst rest, snd rest)])"
proof -
  obtain fs1 fs2 where c: "c_sums c = [sum1, sum2]" "c_bufs c = [filled1 b1, filled2 b2]"
      "c_flushed c = [fs1, fs2]" "flush_memory_block p1 buf_size False = Some fs1"
      "flush_memory_block p2 buf_size True = Some fs2"
    using compute_run_ok [OF compute] maps(1) by (metis list.inject)
  have "m1 k = filled1 b1 k" if "k < words buf_size" for k
    using arrived(1) flushed_words [OF c(4) maps(2) that] that by (simp add: c)
  then have one: "seen 0 (words buf_size) m1 = (sum1, 1)"
    using seen_cong [of 0 "words buf_size" m1 "filled1 b1"] seen_filled(1) by simp
  have "m2 k = filled2 b2 k" if "k < words buf_size" for k
    using arrived(2) flushed_words [OF c(5) maps(3) that] that by (simp add: c)
  then have "seen 0 (words buf_size) m2 = (1030792164147200, 0)"
    using seen_cong [of 0 "words buf_size" m2 "filled2 b2"] seen_filled(3) by simp
  with one show ?thesis
    using seen_split [of 0 "words buf_size" "words (2 * buf_size)" m2]
    by (simp add: memory_run_ok [OF memory] c(1) sums Let_def del: words_buf) (simp add: words_buf)
qed

text \<open>
  the compute node flushes only half of its second buffer: with a mapping at the start of a
  line and memory that was zero, the memory node then prints three quarters of the sum and
  counts a zero for every word of the second half.
\<close>

theorem second_buffer_half_flushed:
  assumes compute: "test_compute_main env ea0 ea1 ea2 b1 b2 st w = Some (c, st', w')" "c_rc c = 0"
    and memory: "test_memory_main env' m1 m2 s v = Some (r, s', v')" "m_rc r = 0"
    and maps: "c_maps c = [p1, p2]" "unat p2 + unat (2 * buf_size) \<le> 2 ^ 64 - 128" "unat p2 mod 128 = 0"
    and arrived: "m2 = (\<lambda>k. if line_of (p2 + 4 * of_nat k) \<in> flushed_line ` set (c_flushed c ! 1)
        then (c_bufs c ! 1) k else 0)"
  shows "c_sums c ! 1 = 1374389560934400 \<and> m_sums r ! 1 = (1030792164147200, 26214400)"
proof -
  obtain fs1 fs2 where c: "c_sums c = [sum1, sum2]" "c_bufs c = [filled1 b1, filled2 b2]"
      "c_flushed c = [fs1, fs2]" "flush_memory_block p2 buf_size True = Some fs2"
    using compute_run_ok [OF compute] maps(1) by (metis list.inject)
  have bound: "unat p2 + unat buf_size \<le> 2 ^ 64 - 128" using maps(2) by (simp add: buf_size_val)
  have "m2 k = filled2 b2 k" if "k < words buf_size" for k
    using flushed_words [OF c(4) bound that] by (simp add: arrived c)
  then have one: "seen 0 (words buf_size) m2 = (1030792164147200, 0)"
    using seen_cong [of 0 "words buf_size" m2 "filled2 b2"] seen_filled(3) by simp
  have "m2 k = 0" if "words buf_size \<le> k" "k < words (2 * buf_size)" for k
    using unflushed_words [OF c(4) maps(3,2) that] by (simp add: arrived c)
  then have "seen (words buf_size) (words (2 * buf_size)) m2 =
      seen (words buf_size) (words (2 * buf_size)) (\<lambda>_. 0)" by (intro seen_cong) simp
  also have "\<dots> = (0, 26214400)"
  proof -
    have "{k. 26214400 \<le> k \<and> k < (52428800 :: nat)} = {26214400..<52428800}" by auto
    then show ?thesis by (simp add: seen_def)
  qed
  finally show ?thesis
    using seen_split [of 0 "words buf_size" "words (2 * buf_size)" m2] one
    by (simp add: memory_run_ok [OF memory] c(1) sums)
qed

lemma shared_memory_test_witness:
  "\<exists>c r m1 m2 st' w' s' v'.
     test_compute_main pool_env 0x10000 0x10000 0x6410000 (\<lambda>_. 0) (\<lambda>_. 0) init_shm init_world = Some (c, st', w') \<and>
     test_memory_main pool_env m1 m2 init_shm init_world = Some (r, s', v') \<and>
     m_sums r ! 0 = (343597370572800, 1)"
proof -
  obtain c st' w' where c: "test_compute_main pool_env 0x10000 0x10000 0x6410000 (\<lambda>_. 0) (\<lambda>_. 0) init_shm
      init_world = Some (c, st', w')" "c_rc c = 0" "c_maps c = [4096, 4096]" using compute_demo by blast
  obtain r s' v' where r: "test_memory_main pool_env (c_bufs c ! 0) (c_bufs c ! 1) init_shm init_world =
      Some (r, s', v')" "m_rc r = 0" using memory_demo by blast
  have "unat (4096 :: u64) + unat buf_size \<le> 2 ^ 64 - 128" by (simp add: buf_size_def)
  from shared_memory_test [OF c(1,2) r c(3) this this] have "m_sums r ! 0 = (343597370572800, 1)"
    by (auto simp: Let_def)
  then show ?thesis using c(1) r(1) by blast
qed

lemma second_buffer_half_flushed_witness:
  "\<exists>c r m2 st' w' s' v'.
     test_compute_main pool_env 0x10000 0x10000 0x6410000 (\<lambda>_. 0) (\<lambda>_. 0) init_shm init_world = Some (c, st', w') \<and>
     test_memory_main pool_env (\<lambda>_. 0) m2 init_shm init_world = Some (r, s', v') \<and>
     m_sums r ! 1 = (1030792164147200, 26214400)"
proof -
  obtain c st' w' where c: "test_compute_main pool_env 0x10000 0x10000 0x6410000 (\<lambda>_. 0) (\<lambda>_. 0) init_shm
      init_world = Some (c, st', w')" "c_rc c = 0" "c_maps c = [4096, 4096]" using compute_demo by blast
  define m2 :: buffer where "m2 = (\<lambda>k. if line_of (4096 + 4 * of_nat k) \<in> flushed_line ` set (c_flushed c ! 1)
        then (c_bufs c ! 1) k else 0)"
  obtain r s' v' where r: "test_memory_main pool_env (\<lambda>_. 0) m2 init_shm init_world =
      Some (r, s', v')" "m_rc r = 0" using memory_demo by blast
  have "unat (4096 :: u64) + unat (2 * buf_size) \<le> 2 ^ 64 - 128" "unat (4096 :: u64) mod 128 = 0"
    by (simp_all add: buf_size_def)
  from second_buffer_half_flushed [OF c(1,2) r c(3) this m2_def] c(1) r(1) show ?thesis by blast
qed

end
