(* ===== verification/TFKmod.thy ===== *)
theory TFKmod imports TFPrelude begin

text \<open>
  \<^verbatim>\<open>libtfshmem/kernel_module\<close>: the character device \<^verbatim>\<open>/dev/tfshmem\<close> that maps the physical
  window of the OpenCAPI accelerator into a process.  The kernel functions it calls are a
  parameter: \<open>kext\<close> answers a call with a status and a value (a pointer, a device number,
  or what the call leaves in \<^verbatim>\<open>mm_dev.dev\<close>), and may depend on the calls made before.
\<close>

section \<open>The kernel\<close>

datatype kcall =
    Alloc_chrdev_region nat nat string
  | Class_create string
  | Unregister_chrdev_region "32 word" nat
  | Device_create u64 "32 word" string
  | Cdev_init
  | Cdev_add "32 word" nat
  | Device_destroy u64 "32 word"
  | Class_destroy u64
  | Remap_pfn_range u64 u64 u64 u64      \<comment> \<open>address, frame, size, protection\<close>

record kenv =
  kext :: "kcall list \<Rightarrow> kcall \<Rightarrow> cint \<times> u64"
  PAGE_SHIFT :: nat

text \<open>The static variables of the module, and the calls it has made.\<close>

record kmod =
  major :: cint
  first :: "32 word"
  cl :: u64
  dev :: u64
  mm_dev_dev :: "32 word"
  ktrace :: "kcall list"

definition init_kmod :: kmod where
  "init_kmod = \<lparr> major = 0, first = 0, cl = 0, dev = 0, mm_dev_dev = 0, ktrace = [] \<rparr>"

definition kcall :: "kenv \<Rightarrow> kcall \<Rightarrow> kmod \<Rightarrow> (cint \<times> u64) \<times> kmod" where
  "kcall env c k = (kext env (ktrace k) c, k\<lparr>ktrace := ktrace k @ [c]\<rparr>)"

lemma kcall_simps [simp]:
  "fst (kcall env c k) = kext env (ktrace k) c"
  "snd (kcall env c k) = k\<lparr>ktrace := ktrace k @ [c]\<rparr>"
  by (simp_all add: kcall_def)

text \<open>The error pointers: the last page of the address space.\<close>

definition IS_ERR :: "u64 \<Rightarrow> bool" where
  "IS_ERR p \<longleftrightarrow> - 4095 \<le> p"

section \<open>The module\<close>

definition DRIVER_NAME :: string where "DRIVER_NAME = ''tf_shmem''"
definition TFSHMEM_DEVICE_NAME :: string where "TFSHMEM_DEVICE_NAME = ''tfshmem''"
definition TFSHMEM_DEV_COUNT :: nat where "TFSHMEM_DEV_COUNT = 1"
definition OCAPI_PHY_BASE :: u64 where "OCAPI_PHY_BASE = 0x2000000000000"

text \<open>What the callback leaves in the mode it is given, if it is given one; it returns \<^verbatim>\<open>NULL\<close>.\<close>

definition remap_devnode :: "16 word option \<Rightarrow> 16 word option" where
  "remap_devnode mode = (case mode of None \<Rightarrow> None | Some _ \<Rightarrow> Some 0x1B6)"

text \<open>
  \<^verbatim>\<open>alloc_chrdev_region\<close> sets the device number when it succeeds.  The assignment to
  \<^verbatim>\<open>cl->devnode\<close> is undefined on an error pointer.
\<close>

definition tfshmem_driver_register :: "kenv \<Rightarrow> kmod \<Rightarrow> (cint \<times> kmod) option" where
  "tfshmem_driver_register env k =
     (let ((rc, d), k1) = kcall env (Alloc_chrdev_region 0 TFSHMEM_DEV_COUNT DRIVER_NAME) k;
          k1 = k1\<lparr>major := rc, first := (if sint rc < 0 then first k1 else ucast d)\<rparr> in
      if sint rc < 0 then Some (-1, k1)
      else
        let ((_, c), k2) = kcall env (Class_create ''tf'') k1;
            k2 = k2\<lparr>cl := c\<rparr> in
        if c = 0 then Some (-1, snd (kcall env (Unregister_chrdev_region (first k2) TFSHMEM_DEV_COUNT) k2))
        else if IS_ERR c then None
        else Some (0, k2))"

definition tfshmem_device_register :: "kenv \<Rightarrow> string \<Rightarrow> 32 word \<Rightarrow> kmod \<Rightarrow> cint \<times> kmod" where
  "tfshmem_device_register env device_name devno k =
     (let ((_, d), k1) = kcall env (Device_create (cl k) devno device_name) k;
          k1 = k1\<lparr>dev := d\<rparr> in
      if d = 0 then (-1, k1)
      else
        let k2 = (snd (kcall env Cdev_init k1))\<lparr>mm_dev_dev := 0\<rparr>;
            ((rc, n), k3) = kcall env (Cdev_add devno 1) k2;
            k3 = k3\<lparr>mm_dev_dev := ucast n\<rparr> in
        if rc = -1 then (-1, snd (kcall env (Device_destroy (cl k3) devno) k3))
        else (0, k3))"

definition tfshmem_driver_unregister :: "kenv \<Rightarrow> kmod \<Rightarrow> kmod" where
  "tfshmem_driver_unregister env k =
     (let k1 = (if mm_dev_dev k \<noteq> 0 then snd (kcall env (Device_destroy (cl k) (first k)) k) else k);
          k2 = (if cl k1 \<noteq> 0 then snd (kcall env (Class_destroy (cl k1)) k1) else k1)
      in if first k2 \<noteq> 0
         then snd (kcall env (Unregister_chrdev_region (first k2) TFSHMEM_DEV_COUNT) k2) else k2)"

definition tf_shmem_init :: "kenv \<Rightarrow> kmod \<Rightarrow> (cint \<times> kmod) option" where
  "tf_shmem_init env k = do {
     (ret, k1) \<leftarrow> tfshmem_driver_register env k;
     let (ret, k2) = (if ret \<noteq> 0 then (ret, k1)
                      else tfshmem_device_register env TFSHMEM_DEVICE_NAME (first k1) k1);
     Some (ret, if sint ret < 0 then tfshmem_driver_unregister env k2 else k2) }"

definition module_teardown :: "kenv \<Rightarrow> kmod \<Rightarrow> kmod" where
  "module_teardown env k = tfshmem_driver_unregister env k"

definition tfshmem_open :: cint where "tfshmem_open = 0"
definition tfshmem_release :: cint where "tfshmem_release = 0"

record vma =
  vm_start :: u64
  vm_end :: u64
  vm_pgoff :: u64
  vm_page_prot :: u64

definition tfshmem_mmap :: "kenv \<Rightarrow> vma \<Rightarrow> kmod \<Rightarrow> cint \<times> kmod" where
  "tfshmem_mmap env v k =
     (let size = vm_end v - vm_start v;
          pfn = vm_pgoff v + drop_bit (PAGE_SHIFT env) OCAPI_PHY_BASE;
          ((ret, _), k1) = kcall env (Remap_pfn_range (vm_start v) pfn size (vm_page_prot v)) k in
      if sint ret < 0 then (ret, k1) else (0, k1))"

section \<open>Properties\<close>

text \<open>
  loading the module creates the region, the class, the device and the character device
  in this order, and unloading it removes device, class and region in the reverse order; the
  character device is never deleted.
\<close>

theorem load_unload:
  assumes "tf_shmem_init env init_kmod = Some (0, k)" "first k \<noteq> 0" "mm_dev_dev k = first k"
  shows "ktrace (module_teardown env k) =
    [Alloc_chrdev_region 0 1 DRIVER_NAME, Class_create ''tf'',
     Device_create (cl k) (first k) TFSHMEM_DEVICE_NAME, Cdev_init, Cdev_add (first k) 1,
     Device_destroy (cl k) (first k), Class_destroy (cl k), Unregister_chrdev_region (first k) 1]"
  using assms
  by (auto simp: tf_shmem_init_def tfshmem_driver_register_def tfshmem_device_register_def
      module_teardown_def tfshmem_driver_unregister_def init_kmod_def kcall_def TFSHMEM_DEV_COUNT_def
      Let_def split: if_splits prod.splits)

definition demo_kenv :: kenv where
  "demo_kenv = \<lparr> kext = (\<lambda>tr c. (0, case c of Alloc_chrdev_region _ _ _ \<Rightarrow> 0xF000000
      | Cdev_add n _ \<Rightarrow> ucast n | _ \<Rightarrow> 4096)), PAGE_SHIFT = 16 \<rparr>"

lemma load_unload_witness:
  "\<exists>k. tf_shmem_init demo_kenv init_kmod = Some (0, k) \<and> length (ktrace (module_teardown demo_kenv k)) = 8"
proof -
  have "\<exists>k. tf_shmem_init demo_kenv init_kmod = Some (0, k) \<and> first k = 0xF000000 \<and> mm_dev_dev k = 0xF000000"
    by (simp add: tf_shmem_init_def tfshmem_driver_register_def tfshmem_device_register_def init_kmod_def
        kcall_def Let_def demo_kenv_def IS_ERR_def)
  then obtain k where k: "tf_shmem_init demo_kenv init_kmod = Some (0, k)" "first k \<noteq> 0" "mm_dev_dev k = first k"
    by auto
  from load_unload [OF this] k(1) show ?thesis by simp
qed

text \<open>
  when the class cannot be created the region is given back twice, by the error path of
  the registration and by the clean-up of the initialisation; and since the kernel reports
  this failure by an error pointer and not by \<^verbatim>\<open>NULL\<close>, the initialisation then writes
  through that pointer.
\<close>

theorem class_failure:
  assumes "kext env [] (Alloc_chrdev_region 0 1 DRIVER_NAME) = (0, ucast d)" "d \<noteq> (0 :: 32 word)"
    and "kext env [Alloc_chrdev_region 0 1 DRIVER_NAME] (Class_create ''tf'') = (rc, c)"
    and "c = 0 \<or> IS_ERR c"
  shows "tf_shmem_init env init_kmod = (if c \<noteq> 0 then None else
     Some (-1, \<lparr> major = 0, first = d, cl = 0, dev = 0, mm_dev_dev = 0, ktrace =
       [Alloc_chrdev_region 0 1 DRIVER_NAME, Class_create ''tf'',
        Unregister_chrdev_region d 1, Unregister_chrdev_region d 1] \<rparr>))"
proof -
  have "ucast (ucast d :: u64) = d" by (rule bit_word_eqI) (auto simp: bit_simps dest: bit_imp_le_length)
  then show ?thesis using assms
    by (auto simp: tf_shmem_init_def tfshmem_driver_register_def tfshmem_driver_unregister_def
        init_kmod_def kcall_def TFSHMEM_DEV_COUNT_def Let_def IS_ERR_def)
qed

lemma class_failure_witness:
  "tf_shmem_init (demo_kenv\<lparr>kext := \<lambda>tr c. (0, case c of Alloc_chrdev_region _ _ _ \<Rightarrow> 0xF000000 | _ \<Rightarrow> - 12)\<rparr>)
     init_kmod = None"
  using class_failure [of "demo_kenv\<lparr>kext := \<lambda>tr c. (0, case c of Alloc_chrdev_region _ _ _ \<Rightarrow> 0xF000000
     | _ \<Rightarrow> - 12)\<rparr>" "0xF000000" 0 "- 12"]
  by (simp add: IS_ERR_def)

lemma remap_window:
  assumes "PAGE_SHIFT env \<le> 16" "unat (vm_pgoff v) * 2 ^ PAGE_SHIFT env < 2 ^ 63"
  shows "\<exists>pfn. ktrace (snd (tfshmem_mmap env v k)) = ktrace k @
       [Remap_pfn_range (vm_start v) pfn (vm_end v - vm_start v) (vm_page_prot v)] \<and>
     unat pfn * 2 ^ PAGE_SHIFT env = 0x2000000000000 + unat (vm_pgoff v) * 2 ^ PAGE_SHIFT env \<and>
     (fst (tfshmem_mmap env v k) = 0 \<or> sint (fst (tfshmem_mmap env v k)) < 0)"
proof -
  let ?n = "PAGE_SHIFT env" and ?pfn = "vm_pgoff v + drop_bit (PAGE_SHIFT env) OCAPI_PHY_BASE"
  have base: "unat (drop_bit ?n OCAPI_PHY_BASE) = 2 ^ (49 - ?n)"
  proof -
    have "unat OCAPI_PHY_BASE = 2 ^ 49" by (simp add: OCAPI_PHY_BASE_def)
    moreover have "drop_bit ?n (2 ^ 49 :: nat) = 2 ^ (49 - ?n)"
      using assms(1) by (simp add: drop_bit_eq_div power_diff)
    ultimately show ?thesis by (simp only: unat_drop_bit_eq)
  qed
  have "unat (vm_pgoff v) \<le> unat (vm_pgoff v) * 2 ^ ?n" by simp
  then have "unat (vm_pgoff v) < 2 ^ 63" using assms(2) by (rule le_less_trans)
  moreover have "(2 :: nat) ^ (49 - ?n) \<le> 2 ^ 49" by (intro power_increasing) simp_all
  ultimately have "unat (vm_pgoff v) + unat (drop_bit ?n OCAPI_PHY_BASE) < 2 ^ LENGTH(64)"
    unfolding base by simp
  then have "unat ?pfn = unat (vm_pgoff v) + 2 ^ (49 - ?n)"
    unfolding base [symmetric] by (rule unat_add_lem [THEN iffD1])
  moreover have "(2 :: nat) ^ (49 - ?n) * 2 ^ ?n = 0x2000000000000"
    using assms(1) by (simp add: power_add [symmetric])
  ultimately have "unat ?pfn * 2 ^ ?n = 0x2000000000000 + unat (vm_pgoff v) * 2 ^ ?n"
    by (simp add: add_mult_distrib)
  then show ?thesis
    by (intro exI [of _ ?pfn]) (auto simp: tfshmem_mmap_def kcall_def Let_def split: prod.splits)
qed

text \<open>
  a mapping with page offset \<open>p\<close> shows the physical memory that starts \<open>p\<close> pages above
  the base of the OpenCAPI window, over its whole length, in one call; the result is that of
  the kernel.
\<close>

theorem mmap_window:
  assumes "PAGE_SHIFT env \<le> 16" "unat (vm_pgoff v) * 2 ^ PAGE_SHIFT env < 2 ^ 63"
  shows "\<exists>pfn. ktrace (snd (tfshmem_mmap env v k)) = ktrace k @
       [Remap_pfn_range (vm_start v) pfn (vm_end v - vm_start v) (vm_page_prot v)] \<and>
     unat pfn * 2 ^ PAGE_SHIFT env = 0x2000000000000 + unat (vm_pgoff v) * 2 ^ PAGE_SHIFT env \<and>
     (fst (tfshmem_mmap env v k) = 0 \<or> sint (fst (tfshmem_mmap env v k)) < 0)"
  using assms by (rule remap_window)

lemma mmap_window_witness:
  "\<exists>pfn. ktrace (snd (tfshmem_mmap demo_kenv \<lparr> vm_start = 0x7000000, vm_end = 0x7010000, vm_pgoff = 3,
       vm_page_prot = 3 \<rparr> init_kmod)) = [Remap_pfn_range 0x7000000 pfn 0x10000 3] \<and>
     unat pfn * 0x10000 = 0x2000000030000"
proof -
  let ?v = "\<lparr> vm_start = 0x7000000, vm_end = 0x7010000, vm_pgoff = 3, vm_page_prot = 3 \<rparr>"
  have shift: "PAGE_SHIFT demo_kenv = 16" by (simp add: demo_kenv_def)
  have "ktrace init_kmod = []" by (simp add: init_kmod_def)
  then show ?thesis
    using mmap_window [of demo_kenv ?v init_kmod] unfolding shift by auto
qed

end
