(* ===== verification/TFConsole.thy ===== *)
theory TFConsole imports TFClient TFLog begin

text \<open>
  What the command line tool \<^verbatim>\<open>cmd/thymesisf-cli.c\<close> prints: the usage texts and the lines of
  its log, beside the exit codes of TFClient.  The address a lender prints is what a borrower
  has to type, so this is part of the protocol.
\<close>

section \<open>Usage texts\<close>

text \<open>One piece per call of \<^verbatim>\<open>printf\<close> or \<^verbatim>\<open>fprintf\<close>.\<close>

datatype piece = Out string | Err string

type_synonym console = "piece list"

definition helper_memory_attach :: console where
  "helper_memory_attach = [
     Err (''Usage thymesisf-cli attach-memory [options]'' @ newline @ newline),
     Err (''Options (all required):'' @ newline @ newline),
     Err (''    --afu AFU_NAME '' @ newline @ tab @ tab @
       ''Name of the Accelerated Function Unit (example: IBM,RMEM'' @ newline),
     Err (''    --cid CIRCUIT_UUID  '' @ newline @ tab @ tab @ ''Circuit Identifier'' @ newline),
     Err (''    --size MEMORY_SIZE'' @ newline @ tab @ tab @
       '' in bytes (bigger than zero) and multiple of MEMBLOCK_SIZE ('' @
       decimal (unat MEMBLOCK_SIZE) @ '')'' @ newline)]"

definition helper_compute_attach :: console where
  "helper_compute_attach = [
     Err (''Usage thymesisf-cli attach-compute [options]'' @ newline @ newline),
     Err (''Options (all required):'' @ newline @ newline),
     Err (''    --afu AFU_NAME '' @ newline @ tab @ tab @
       ''Name of the Accelerated Function Unit (example: IBM,RMEM'' @ newline),
     Err (''    --cid CIRCUIT_UUID  '' @ newline @ tab @ tab @ ''Circuit Identifier'' @ newline),
     Err (''    --size MEMORY_SIZE'' @ newline @ tab @ tab @ '' in bytes (bigger than zero)'' @ newline),
     Err (''    --ea EFFECTIVE_ADDRESS'' @ newline @ tab @ tab @
       '' effective address printed by the lender'' @ newline),
     Err (''    --no-hotplug'' @ newline @ tab @ tab @
       '' attach memory without hotplugging to Linux'' @ newline)]"

definition helper_memory_detach :: console where
  "helper_memory_detach = [
     Err (''Usage thymesisf-cli detach-memory [options]'' @ newline @ newline),
     Err (''Options (all required):'' @ newline @ newline),
     Err (''    --cid CIRCUIT_UUID  '' @ newline @ tab @ tab @ ''Circuit Identifier'' @ newline)]"

definition helper_compute_detach :: console where
  "helper_compute_detach = [
     Err (''Usage thymesisf-cli detach-compute [options]'' @ newline @ newline),
     Err (''Options (all required):'' @ newline @ newline),
     Err (''    --cid CIRCUIT_UUID  '' @ newline @ tab @ tab @ ''Circuit Identifier'' @ newline)]"

definition common_helper :: console where
  "common_helper = [
     Err (''Usage thymesisf-cli command [options]'' @ newline @ newline),
     Err (''thymesisf-cli is a command line interface to attach and detach disaggregated memory'' @
       newline @ newline),
     Out (''Most used commands:'' @ newline),
     Out (''    attach-memory - allocate memory on lender machine'' @ newline),
     Out (''    attach-compute - attach memory on the borrower machine '' @ newline),
     Out (''    detach-memory - free memory on lender machine'' @ newline),
     Out (''    detach-compute - detach memory on the borrower machine'' @ newline)]"

definition agent_help :: console where
  "agent_help = [
     Err (''Usage thymesisf-agent [options]'' @ newline @ newline),
     Err (''thymesisf-agent is a server responsible for configuring AFUs'' @ newline),
     Err (''on each node participating in a disaggregated memory connection'' @ newline @ newline),
     Err (''Options (all required):'' @ newline @ newline),
     Err (''    -s SOCKET_PATH'' @ newline @ tab @ tab @
       '' linux socket fullpath, used by the server to receive client requests'' @ newline)]"

primrec helper_text :: "helper \<Rightarrow> console" where
  "helper_text Memory_attach_help = helper_memory_attach"
| "helper_text Memory_detach_help = helper_memory_detach"
| "helper_text Compute_attach_help = helper_compute_attach"
| "helper_text Compute_detach_help = helper_compute_detach"
| "helper_text Common_help = common_helper"

section \<open>The handlers with their output\<close>

text \<open>\<^verbatim>\<open>%d\<close> and \<^verbatim>\<open>%ld\<close>.\<close>

definition signed_decimal :: "'a::len word \<Rightarrow> string" where
  "signed_decimal x =
     (if sint x < 0 then ''-'' @ decimal (nat (- sint x)) else decimal (nat (sint x)))"

text \<open>\<^verbatim>\<open>pl->nport\<close>\<close>

fun nport_of :: "iport_list \<Rightarrow> cint option" where
  "nport_of PNull = None"
| "nport_of (Port n nxt) = Some n"

definition bad_size_line :: string where
  "bad_size_line = ''Memory allocation needs to be a multiple of MEMBLOCK_SIZE ('' @
     decimal (unat MEMBLOCK_SIZE) @ '')'' @ newline"

text \<open>\<open>now k\<close> is the time of the \<open>k\<close>-th line of the log.\<close>

definition handle_memory_attach_io ::
    "env \<Rightarrow> (nat \<Rightarrow> tm) \<Rightarrow> cptr \<Rightarrow> cptr \<Rightarrow> iport_list \<Rightarrow> u64 \<Rightarrow> cptr \<Rightarrow> sock \<Rightarrow> world \<Rightarrow>
     (console \<times> cint \<times> sock \<times> world) option" where
  "handle_memory_attach_io env now cid afu_nm pl sz sock_path s w =
     do {
       reject \<leftarrow> memory_attach_guard cid afu_nm pl sz;
       if reject then Some (helper_memory_attach, EXIT_FAILURE, s, w)
       else if \<not> valid_mem_size sz then
         Some (Out (log_info (now 0) bad_size_line) # helper_memory_attach, EXIT_FAILURE, s, w)
       else do {
         c \<leftarrow> cid; c \<leftarrow> print_cstr c;
         a \<leftarrow> afu_nm; a \<leftarrow> print_cstr a;
         n \<leftarrow> nport_of pl;
         let l = Out (log_info (now 0) (''Attaching memory - cid: '' @ c @ '' afu: '' @ a @ '':'' @
                   signed_decimal n @ '' - size: '' @ signed_decimal sz @ newline));
         (mresp, s1, w1) \<leftarrow> send_attach_memory_msg env cid afu_nm pl sz sock_path s w;
         Some (if p_status mresp = 100
           then ([l, Out (log_info (now 1) (''Successfully allocated memory - EA: 0x'' @
                   hex (unat (p_ea mresp)) @ newline))], 0, s1, w1)
           else ([l, Out (log_error (now 1) (''error allocating memory - status: '' @
                   signed_decimal (p_status mresp) @ newline))], 1, s1, w1)) } }"

definition handle_compute_attach_io ::
    "env \<Rightarrow> (nat \<Rightarrow> tm) \<Rightarrow> cptr \<Rightarrow> cptr \<Rightarrow> iport_list \<Rightarrow> u64 \<Rightarrow> u64 \<Rightarrow> cptr \<Rightarrow> cint \<Rightarrow> sock \<Rightarrow> world \<Rightarrow>
     (console \<times> cint \<times> sock \<times> world) option" where
  "handle_compute_attach_io env now cid afu_nm pl sz eaddr sock_path nohp s w =
     do {
       reject \<leftarrow> compute_attach_guard cid afu_nm pl sz eaddr;
       if reject then Some (helper_compute_attach, EXIT_FAILURE, s, w)
       else if \<not> valid_mem_size sz then
         Some (Out (log_info (now 0) bad_size_line) # helper_memory_attach, EXIT_FAILURE, s, w)
       else do {
         let l = Out (log_info (now 0) (''attaching compute - size: '' @ decimal (unat sz) @
                   '' - using effective address: '' @ decimal (unat eaddr) @ newline));
         (cresp, s1, w1) \<leftarrow> send_attach_compute_msg env cid afu_nm pl sz eaddr nohp sock_path s w;
         Some (if p_status cresp = 100
           then ([l, Out (log_info (now 1) (''Successfully attached compute connection'' @ newline))], 0, s1, w1)
           else ([l, Out (log_info (now 1) (''error allocating memory : '' @
                   signed_decimal (p_status cresp) @ newline))], 1, s1, w1)) } }"

definition handle_memory_detach_io ::
    "env \<Rightarrow> (nat \<Rightarrow> tm) \<Rightarrow> cptr \<Rightarrow> cptr \<Rightarrow> sock \<Rightarrow> world \<Rightarrow> (console \<times> cint \<times> sock \<times> world) option" where
  "handle_memory_detach_io env now cid sock_path s w =
     do {
       reject \<leftarrow> (if cid = None then Some True else is_empty cid);
       if reject then Some (helper_memory_detach, 1, s, w)
       else do {
         c \<leftarrow> cid; c \<leftarrow> print_cstr c;
         let l = Out (log_info (now 0) (''Detaching memory - cid: '' @ c @ newline));
         (mresp, s1, w1) \<leftarrow> send_detach_memory_msg env cid sock_path s w;
         Some (if p_status mresp = 200
           then ([l, Out (log_info (now 1) (''Successfully detached memory connection'' @ newline))], 0, s1, w1)
           else ([l, Out (log_error (now 1) (''Error detaching memory connection - status: '' @
                   signed_decimal (p_status mresp) @ newline))], 1, s1, w1)) } }"

definition handle_compute_detach_io ::
    "env \<Rightarrow> (nat \<Rightarrow> tm) \<Rightarrow> cptr \<Rightarrow> cptr \<Rightarrow> sock \<Rightarrow> world \<Rightarrow> (console \<times> cint \<times> sock \<times> world) option" where
  "handle_compute_detach_io env now cid sock_path s w =
     do {
       reject \<leftarrow> (if cid = None then Some True else is_empty cid);
       if reject then Some (helper_compute_detach, 1, s, w)
       else do {
         (mresp, s1, w1) \<leftarrow> send_detach_compute_msg env cid sock_path s w;
         Some (if p_status mresp = 200
           then ([Out (log_info (now 0) (''Successfully detached compute connection'' @ newline))], 0, s1, w1)
           else ([Out (log_error (now 0) (''Error detaching compute connection - status: '' @
                   signed_decimal (p_status mresp) @ newline))], 1, s1, w1)) } }"

definition cli_main_io ::
    "env \<Rightarrow> (nat \<Rightarrow> tm) \<Rightarrow> bytes option \<Rightarrow> cli_opt list \<Rightarrow> sock \<Rightarrow> world \<Rightarrow>
     (console \<times> cint \<times> sock \<times> world) option" where
  "cli_main_io env now command opts s w =
     (case command of
        None \<Rightarrow> Some (common_helper, 1, s, w)
      | Some c \<Rightarrow>
          let a = parse_opts opts init_args;
              pl = add_port PNull AFU_PORT;
              sock_path = literal env SOCK_PATH in
          do {
            c1 \<leftarrow> strcmp_eq (lit ''attach-memory'') c;
            if c1 then handle_memory_attach_io env now (a_cid a) (a_afu a) pl (a_size a) sock_path s w
            else do {
            c2 \<leftarrow> strcmp_eq (lit ''attach-compute'') c;
            if c2 then handle_compute_attach_io env now (a_cid a) (a_afu a) pl (a_size a) (a_ea a) sock_path
                         (a_no_hotplug a) s w
            else do {
            c3 \<leftarrow> strcmp_eq (lit ''detach-memory'') c;
            if c3 then handle_memory_detach_io env now (a_cid a) sock_path s w
            else do {
            c4 \<leftarrow> strcmp_eq (lit ''detach-compute'') c;
            if c4 then handle_compute_detach_io env now (a_cid a) sock_path s w
            else Some (common_helper, 0, s, w) } } } })"

section \<open>Output and exit code\<close>

lemma helpers_speak [simp]:
  "helper_memory_attach \<noteq> []" "helper_compute_attach \<noteq> []" "helper_memory_detach \<noteq> []"
  "helper_compute_detach \<noteq> []" "common_helper \<noteq> []"
  by (simp_all add: helper_memory_attach_def helper_compute_attach_def helper_memory_detach_def
      helper_compute_detach_def common_helper_def)

text \<open>Without the output these are the handlers of TFClient.\<close>

lemma memory_detach_io:
  "handle_memory_detach_io env now cid path s w = Some (out, r) \<Longrightarrow>
   handle_memory_detach env cid path s w = Some r \<and> out \<noteq> []"
  by (auto simp: handle_memory_detach_io_def bind_eq_Some_conv Let_def split: if_split_asm option.split_asm;
      simp add: handle_memory_detach_def)

lemma compute_detach_io:
  "handle_compute_detach_io env now cid path s w = Some (out, r) \<Longrightarrow>
   handle_compute_detach env cid path s w = Some r \<and> out \<noteq> []"
  by (auto simp: handle_compute_detach_io_def bind_eq_Some_conv Let_def split: if_split_asm option.split_asm;
      simp add: handle_compute_detach_def)

lemma memory_attach_io:
  "handle_memory_attach_io env now cid nm pl sz path s w = Some (out, r) \<Longrightarrow>
   handle_memory_attach env cid nm pl sz path s w = Some r \<and> out \<noteq> []"
  by (auto simp: handle_memory_attach_io_def bind_eq_Some_conv Let_def split: if_split_asm option.split_asm;
      simp add: handle_memory_attach_def)

lemma compute_attach_io:
  "handle_compute_attach_io env now cid nm pl sz eaddr path nohp s w = Some (out, r) \<Longrightarrow>
   handle_compute_attach env cid nm pl sz eaddr path nohp s w = Some r \<and> out \<noteq> []"
  by (auto simp: handle_compute_attach_io_def bind_eq_Some_conv Let_def split: if_split_asm option.split_asm;
      simp add: handle_compute_attach_def)

lemmas handlers_io = memory_attach_io compute_attach_io memory_detach_io compute_detach_io

lemma main_io:
  assumes io: "cli_main_io env now command opts s w = Some (out, r)"
  shows "cli_main env command opts s w = Some r \<and> out \<noteq> []"
proof (cases command)
  case None
  then show ?thesis using io by (auto simp: cli_main_io_def cli_main_def)
next
  case (Some c)
  note eqs = cli_main_io_def cli_main_def Let_def Some
  show ?thesis
  proof (cases "strcmp_eq (lit ''attach-memory'') c")
    case n1: (Some c1)
    show ?thesis
    proof (cases "c1 \<or> strcmp_eq (lit ''attach-compute'') c = None")
      case True
      then show ?thesis using io n1 handlers_io(1) by (cases c1) (simp_all add: eqs)
    next
      case False
      then obtain c2 where n2: "\<not> c1" "strcmp_eq (lit ''attach-compute'') c = Some c2" by auto
      show ?thesis
      proof (cases "c2 \<or> strcmp_eq (lit ''detach-memory'') c = None")
        case True
        then show ?thesis using io n1 n2 handlers_io(2) by (cases c2) (simp_all add: eqs)
      next
        case False
        then obtain c3 where n3: "\<not> c2" "strcmp_eq (lit ''detach-memory'') c = Some c3" by auto
        show ?thesis
        proof (cases "c3 \<or> strcmp_eq (lit ''detach-compute'') c = None")
          case True
          then show ?thesis using io n1 n2 n3 handlers_io(3) by (cases c3) (simp_all add: eqs)
        next
          case False
          then obtain c4 where "\<not> c3" "strcmp_eq (lit ''detach-compute'') c = Some c4" by auto
          then show ?thesis using io n1 n2 n3 handlers_io(4) by (cases c4) (auto simp add: eqs)
        qed
      qed
    qed
  qed (use io in \<open>simp add: eqs\<close>)
qed

section \<open>The fixed port and socket of the tool\<close>

definition tool_ok :: "env \<Rightarrow> bool" where
  "tool_ok env \<longleftrightarrow> malloc_ok env \<and> rodata_ok env \<and> sockets_ok env"

lemma tool_client: "tool_ok env \<Longrightarrow> client_ok env (lit SOCK_PATH @ rodata env SOCK_PATH)"
  by (simp add: tool_ok_def client_ok_def SOCK_PATH_def lit_def cstr_def)

lemma tool_port:
  "add_port PNull AFU_PORT = Port 2 PNull" "marshal_iports (Port 2 PNull) = Some 2"
  "unmarshal_iports 2 = Some (Port 2 PNull)"
proof -
  show "add_port PNull AFU_PORT = Port 2 PNull" by (simp add: add_port_def AFU_PORT_def)
  have "port_ok 31 2" by (simp add: port_ok_def)
  then show "marshal_iports (Port 2 PNull) = Some 2"
    using marshal_iports_sum [of "Port 2 PNull"] by (simp add: port_sum_def)
  obtain pl where pl: "unmarshal_iports 2 = Some pl" "ports_of pl = rev (mask_ports 2 [0..<8])"
    using unmarshal_iports_ports by blast
  have "mask_ports 2 [0..<8] = [2]" by (simp add: mask_ports_def upt_rec numeral_eq_Suc bit_Suc)
  then have "pl = Port 2 PNull" using pl(2) by (cases pl) auto
  with pl(1) show "unmarshal_iports 2 = Some (Port 2 PNull)" by simp
qed

text \<open>\<^verbatim>\<open>--size\<close>, \<^verbatim>\<open>--afu\<close> and \<^verbatim>\<open>--cid\<close> as they are typed.\<close>

definition typed_args :: "u64 \<Rightarrow> bytes \<Rightarrow> bytes \<Rightarrow> cli_opt list" where
  "typed_args sz nm cid = [Opt_size (lit (decimal (unat sz))), Opt_afu nm, Opt_cid cid]"

lemma typed_parse:
  "parse_opts (typed_args sz nm cid @ rest) init_args =
     parse_opts rest \<lparr> a_cid = Some cid, a_afu = Some nm, a_size = sz, a_ea = 0, a_no_hotplug = 0 \<rparr>"
  if "sz \<noteq> 0"
proof -
  have n: "0 < unat sz" "unat sz < 2 ^ 64" using that unsigned_less [of sz, where 'a = nat]
    by (simp_all add: unat_gt_0)
  show ?thesis using strtoull_decimal [OF n] by (simp add: typed_args_def init_args_def)
qed

lemma commands_differ:
  "strcmp_eq (lit ''attach-memory'') (lit ''attach-memory'') = Some True"
  "strcmp_eq (lit ''attach-memory'') (lit ''attach-compute'') = Some False"
  "strcmp_eq (lit ''attach-compute'') (lit ''attach-compute'') = Some True"
  by (simp_all add: lit_def cstr_def)

text \<open>The address as the lender's tool prints it and the borrower types it.\<close>

definition printed_address :: "u64 \<Rightarrow> string" where
  "printed_address e = ''0x'' @ hex (unat e)"

lemma strtoull_printed: "strtoull (lit (printed_address e)) 16 = e"
  using strtoull_hex_lemma [of "unat e"] unsigned_less [of e, where 'a = nat] by (simp add: printed_address_def)

lemma borrow_typed:
  assumes tool: "tool_ok ce" and agent: "malloc_ok ae"
    and args: "CIRCUIT_ID_SIZE \<le> length cid" "0 \<in> set cid" "hd cid \<noteq> 0"
      "AFUNAME_SIZE \<le> length nm" "0 \<in> set nm" "hd nm \<noteq> 0" "sz \<noteq> 0" "valid_mem_size sz"
    and e: "e \<noteq> 0"
    and borrows: "attach_compute ae (Some (take CIRCUIT_ID_SIZE cid @ [0])) (Some (take AFUNAME_SIZE nm @ [0]))
      (Port 2 PNull) e sz 0 (op_world Compute_Attach wa) = Some (rc, w3)"
  shows "\<exists>out m r w4 wc4. handle_request ae (reads m) wa = Some (sent r, w4) \<and> same_state w3 w4 \<and>
     cli_main_io ce now (Some (lit ''attach-compute''))
       (typed_args sz nm cid @ [Opt_ea (lit (printed_address e))]) (reads r) wc =
       Some (out, if rc = ATTACH_OK then 0 else 1, sent m, wc4)"
proof -
  obtain m r w4 rsp wc4 where b: "handle_request ae (reads m) wa = Some (sent r, w4)" "same_state w3 w4"
      "send_attach_compute_msg ce (Some cid) (Some nm) (Port 2 PNull) sz e 0 (literal ce SOCK_PATH) (reads r) wc =
        Some (rsp, sent m, wc4)" "p_status rsp = rc"
    using attach_compute_run [OF tool_client [OF tool] agent args(1,4-6) tool_port(2,3) args(7,8) e _ borrows, of wc]
    unfolding literal_def by blast
  have len: "length (upto_nul x) \<noteq> 0" if "0 \<in> set x" "hd x \<noteq> 0" for x :: bytes
    using that by (cases x) auto
  have guard: "compute_attach_guard (Some cid) (Some nm) (Port 2 PNull) sz e = Some False"
    using args(2,3,5-7) e len by (simp add: compute_attach_guard_def strlen_iff)
  obtain out where "cli_main_io ce now (Some (lit ''attach-compute''))
      (typed_args sz nm cid @ [Opt_ea (lit (printed_address e))]) (reads r) wc =
      Some (out, if rc = ATTACH_OK then 0 else 1, sent m, wc4)"
    using b(3,4) args(7,8)
    by (cases "rc = 100") (simp_all add: typed_parse strtoull_printed cli_main_io_def commands_differ tool_port
        handle_compute_attach_io_def guard ATTACH_OK_def Let_def)
  with b(1,2) show ?thesis by blast
qed

section \<open>Properties\<close>

text \<open>
  C3: lending and borrowing, from the command line of the lender to the memory of the borrower.
  Whatever its agent's attachment of memory returns, the lender's tool exits with 0 if and only
  if that is \<^verbatim>\<open>ATTACH_OK\<close>; its last line is then the address, and otherwise the error
  with the code.  The borrower's tool, given the printed address as \<^verbatim>\<open>--ea\<close>, makes its own
  agent attach exactly that address with the same size, circuit and AFU, and exits with 0 if and
  only if that attachment returned \<^verbatim>\<open>ATTACH_OK\<close>.
\<close>

theorem lend_and_borrow:
  assumes tools: "tool_ok ce" "tool_ok ce'" and agents: "malloc_ok ae" "malloc_ok ae'"
    and args: "CIRCUIT_ID_SIZE \<le> length cid" "0 \<in> set cid" "hd cid \<noteq> 0"
      "AFUNAME_SIZE \<le> length nm" "0 \<in> set nm" "hd nm \<noteq> 0" "sz \<noteq> 0" "valid_mem_size sz"
    and lends: "attach_memory ae (Some (take CIRCUIT_ID_SIZE cid @ [0])) (Some (take AFUNAME_SIZE nm @ [0]))
      (Port 2 PNull) sz (op_ea ae Memory_Attach wa) (op_world Memory_Attach wa) = Some ((lrc, e), w3)"
  shows "(\<exists>line last m r w4 wc4.
       handle_request ae (reads m) wa = Some (sent r, w4) \<and> same_state w3 w4 \<and>
       cli_main_io ce now (Some (lit ''attach-memory'')) (typed_args sz nm cid) (reads r) wc =
         Some ([Out line, Out last], if lrc = ATTACH_OK then 0 else 1, sent m, wc4) \<and>
       (lrc = ATTACH_OK \<and> e \<noteq> 0 \<longrightarrow>
         last = log_info (now 1) (''Successfully allocated memory - EA: '' @ printed_address e @ newline)) \<and>
       (lrc \<noteq> ATTACH_OK \<longrightarrow>
         last = log_error (now 1) (''error allocating memory - status: '' @ signed_decimal lrc @ newline))) \<and>
     (\<forall>rc w3'. e \<noteq> 0 \<and>
       attach_compute ae' (Some (take CIRCUIT_ID_SIZE cid @ [0])) (Some (take AFUNAME_SIZE nm @ [0]))
         (Port 2 PNull) e sz 0 (op_world Compute_Attach wa') = Some (rc, w3') \<longrightarrow>
       (\<exists>out m r w4 wc4. handle_request ae' (reads m) wa' = Some (sent r, w4) \<and> same_state w3' w4 \<and>
         cli_main_io ce' now' (Some (lit ''attach-compute''))
           (typed_args sz nm cid @ [Opt_ea (lit (printed_address e))]) (reads r) wc' =
           Some (out, if rc = ATTACH_OK then 0 else 1, sent m, wc4)))"
proof (intro conjI allI impI)
  have nul: "print_cstr cid = Some (chars (upto_nul cid))" "print_cstr nm = Some (chars (upto_nul nm))"
    using args(2,5) by (simp_all add: print_cstr_def)
  obtain m r w4 rsp wc4 where l: "handle_request ae (reads m) wa = Some (sent r, w4)" "same_state w3 w4"
      "send_attach_memory_msg ce (Some cid) (Some nm) (Port 2 PNull) sz (literal ce SOCK_PATH) (reads r) wc =
        Some (rsp, sent m, wc4)" "p_status rsp = lrc" "e \<noteq> 0 \<longrightarrow> p_ea rsp = e"
    using attach_memory_run [OF tool_client [OF tools(1)] agents(1) args(1,4-6) tool_port(2,3) args(7,8) lends, of wc]
    unfolding literal_def by blast
  have parse: "parse_opts (typed_args sz nm cid) init_args =
      \<lparr> a_cid = Some cid, a_afu = Some nm, a_size = sz, a_ea = 0, a_no_hotplug = 0 \<rparr>"
    using typed_parse [OF args(7), of nm cid "[]"] by simp
  obtain line where "cli_main_io ce now (Some (lit ''attach-memory'')) (typed_args sz nm cid) (reads r) wc =
       Some ([Out line, Out (if lrc = ATTACH_OK
           then log_info (now 1) (''Successfully allocated memory - EA: '' @ printed_address (p_ea rsp) @ newline)
           else log_error (now 1) (''error allocating memory - status: '' @ signed_decimal lrc @ newline))],
         if lrc = ATTACH_OK then 0 else 1, sent m, wc4)"
    using l(3,4) nul args
    by (simp add: parse cli_main_io_def commands_differ tool_port handle_memory_attach_io_def memory_attach_guard_def
        is_empty_iff ATTACH_OK_def Let_def printed_address_def)
  with l show "\<exists>line last m r w4 wc4.
       handle_request ae (reads m) wa = Some (sent r, w4) \<and> same_state w3 w4 \<and>
       cli_main_io ce now (Some (lit ''attach-memory'')) (typed_args sz nm cid) (reads r) wc =
         Some ([Out line, Out last], if lrc = ATTACH_OK then 0 else 1, sent m, wc4) \<and>
       (lrc = ATTACH_OK \<and> e \<noteq> 0 \<longrightarrow>
         last = log_info (now 1) (''Successfully allocated memory - EA: '' @ printed_address e @ newline)) \<and>
       (lrc \<noteq> ATTACH_OK \<longrightarrow>
         last = log_error (now 1) (''error allocating memory - status: '' @ signed_decimal lrc @ newline))"
    by fastforce
next
  fix rc w3'
  assume b: "e \<noteq> 0 \<and> attach_compute ae' (Some (take CIRCUIT_ID_SIZE cid @ [0]))
      (Some (take AFUNAME_SIZE nm @ [0])) (Port 2 PNull) e sz 0 (op_world Compute_Attach wa') = Some (rc, w3')"
  from borrow_typed [OF tools(2) agents(2) args conjunct1 [OF b] conjunct2 [OF b]]
  show "\<exists>out m r w4 wc4. handle_request ae' (reads m) wa' = Some (sent r, w4) \<and> same_state w3' w4 \<and>
         cli_main_io ce' now' (Some (lit ''attach-compute''))
           (typed_args sz nm cid @ [Opt_ea (lit (printed_address e))]) (reads r) wc' =
           Some (out, if rc = ATTACH_OK then 0 else 1, sent m, wc4)" .
qed

lemma mock_borrow:
  assumes "heap w = Map.empty" "clist w = 0" "CIRCUIT_ID_SIZE \<le> length cid" "0 \<in> set nm"
  shows "\<exists>w'. attach_compute (ok_env True) (Some cid) (Some nm) (Port p PNull) e sz nohp w = Some (ATTACH_OK, w')"
proof -
  have reg: "reg_list w []" using assms(2) by (simp add: reg_list_def)
  obtain a where a: "ext (ok_env True) (trace w) (Malloc (conn_size (ok_env True))) = (0, a)" "a \<noteq> 0"
    using ok_env_ext by blast
  have "heap w a = None" "AFUNAME_SIZE \<le> length nm \<or> 0 \<in> set nm" using assms(1,4) by simp_all
  from register_conn_defined [OF reg a this(1) assms(3) this(2)] obtain w1 where
    "register_conn (ok_env True) (Some cid) (Some nm) sz nohp w = Some (a, w1)" by blast
  then show ?thesis by (simp add: attach_compute_def ok_env_facts)
qed

text \<open>a clock for the witness: noon of a fixed day, a second later at each reading.\<close>

definition demo_time :: "nat \<Rightarrow> tm" where
  "demo_time k = \<lparr> tm_year = 2020, tm_mon = 1, tm_mday = 1, tm_hour = 12, tm_min = 0, tm_sec = k \<rparr>"

lemma lend_and_borrow_witness:
  "\<exists>e line last m r w4 wc4 out' m' r' w4' wc4'.
     handle_request (ok_env True) (reads m) init_world = Some (sent r, w4) \<and>
     cli_main_io (ok_env True) demo_time (Some (lit ''attach-memory'')) (typed_args 0x10000000 demo_afu demo_cid)
       (reads r) init_world = Some ([Out line, Out last], 0, sent m, wc4) \<and>
     last = log_info (demo_time 1) (''Successfully allocated memory - EA: '' @ printed_address e @ newline) \<and>
     handle_request (ok_env True) (reads m') init_world = Some (sent r', w4') \<and>
     cli_main_io (ok_env True) demo_time (Some (lit ''attach-compute''))
       (typed_args 0x10000000 demo_afu demo_cid @ [Opt_ea (lit (printed_address e))]) (reads r') init_world =
       Some (out', 0, sent m', wc4')"
proof -
  have tool: "tool_ok (ok_env True)" using demo_client(1-3) by (simp add: tool_ok_def)
  have len: "CIRCUIT_ID_SIZE \<le> length (take CIRCUIT_ID_SIZE demo_cid @ [0])"
    by (simp add: demo_cid_def layout_defs)
  have nul: "0 \<in> set (take AFUNAME_SIZE demo_afu @ [0])" by simp
  have w: "heap (op_world k init_world) = Map.empty" "clist (op_world k init_world) = 0"
      "live (op_world k init_world) = []" for k by (simp_all add: op_world_def)
  have sz: "(0x10000000 :: u64) \<noteq> 0" "valid_mem_size 0x10000000"
    by (simp_all add: valid_mem_size_def MEMBLOCK_SIZE_def)
  obtain e w3 where lends: "attach_memory (ok_env True) (Some (take CIRCUIT_ID_SIZE demo_cid @ [0]))
      (Some (take AFUNAME_SIZE demo_afu @ [0])) (Port 2 PNull) 0x10000000
      (op_ea (ok_env True) Memory_Attach init_world) (op_world Memory_Attach init_world) =
      Some ((ATTACH_OK, e), w3)" "e \<noteq> 0"
    using ok_attach [OF w len nul] by blast
  obtain w3' where borrows: "attach_compute (ok_env True) (Some (take CIRCUIT_ID_SIZE demo_cid @ [0]))
      (Some (take AFUNAME_SIZE demo_afu @ [0])) (Port 2 PNull) e 0x10000000 0
      (op_world Compute_Attach init_world) = Some (ATTACH_OK, w3')"
    using mock_borrow [OF w(1,2) len nul] by blast
  note both = lend_and_borrow [OF tool tool demo_client(1) demo_client(1) demo_client(6-11) sz lends(1),
      of demo_time init_world init_world demo_time init_world]
  from conjunct1 [OF both] conjunct2 [OF both, rule_format, OF conjI [OF lends(2) borrows]] lends(2)
  show ?thesis by (elim exE conjE) (intro exI conjI; simp?; assumption)
qed

text \<open>
  what the tool prints does not change what it does, and it never says nothing: with every
  result, success or failure, comes a line of the log or a usage text.
\<close>

theorem console_refines:
  assumes "cli_main_io env now command opts s w = Some (out, rc, s', w')"
  shows "cli_main env command opts s w = Some (rc, s', w') \<and> out \<noteq> []"
  using assms by (rule main_io)

lemma console_refines_witness:
  "cli_main (ok_env True) (Some (lit ''list'')) [] (sent []) init_world = Some (0, sent [], init_world) \<and>
   common_helper \<noteq> []"
proof -
  have "cli_main_io (ok_env True) (\<lambda>_. undefined) (Some (lit ''list'')) [] (sent []) init_world =
      Some (common_helper, 0, sent [], init_world)"
    by (simp add: cli_main_io_def lit_def cstr_def)
  from console_refines [OF this] show ?thesis .
qed

end
