(* ===== verification/TFFlit.thy ===== *)
theory TFFlit imports TFPrelude begin

text \<open>
  \<^verbatim>\<open>afu/thymesisflow/hls_modules/memory_egress/ocx_flit.cpp\<close>: the flits of the memory
  egress path and the fields in them.  An \<^verbatim>\<open>ap_uint\<close> of \<open>n\<close> bits is an \<open>n word\<close>;
  \<^verbatim>\<open>x.range(hi,lo)\<close> is read by \<open>bits_get hi lo\<close> and assigned by \<open>bits_put hi lo\<close>, which
  truncate or zero-extend to the type assigned to.  The object \<^verbatim>\<open>OCxFlit\<close> is its only
  member, a word of 513 bits (512 and the bad data indicator).
\<close>

section \<open>Ranges of bits\<close>

definition bits_get :: "nat \<Rightarrow> nat \<Rightarrow> 'a::len word \<Rightarrow> 'b::len word" where
  "bits_get hi lo w = ucast (take_bit (Suc hi - lo) (drop_bit lo w))"

definition bits_put :: "nat \<Rightarrow> nat \<Rightarrow> 'b::len word \<Rightarrow> 'a::len word \<Rightarrow> 'a word" where
  "bits_put hi lo v w =
     (w AND NOT (push_bit lo (mask (Suc hi - lo)))) OR push_bit lo (take_bit (Suc hi - lo) (ucast v))"

lemma bit_bits_get:
  "bit (bits_get hi lo (w :: 'a::len word) :: 'b::len word) n \<longleftrightarrow>
     n < LENGTH('b) \<and> lo + n \<le> hi \<and> bit w (lo + n)"
  by (auto simp: bits_get_def bit_simps dest: bit_imp_le_length)

lemma bit_bits_put:
  "bit (bits_put hi lo (v :: 'b::len word) (w :: 'a::len word)) n \<longleftrightarrow>
     (if lo \<le> n \<and> n \<le> hi then n < LENGTH('a) \<and> bit v (n - lo) else bit w n)"
  by (auto simp: bits_put_def bit_simps dest: bit_imp_le_length)

lemma bits_get_put_same:
  "LENGTH('b) \<le> Suc hi - lo \<Longrightarrow> hi < LENGTH('a) \<Longrightarrow>
   bits_get hi lo (bits_put hi lo (v :: 'b::len word) (w :: 'a::len word)) = v"
  by (rule bit_word_eqI) (auto simp: bit_bits_get bit_bits_put dest: bit_imp_le_length)

lemma bits_get_put_other:
  "hi' < lo \<or> hi < lo' \<Longrightarrow> bits_get hi' lo' (bits_put hi lo v w) = bits_get hi' lo' w"
  by (rule bit_word_eqI) (auto simp: bit_bits_get bit_bits_put)

lemma bits_put_put_same:
  "bits_put hi lo u (bits_put hi lo v w) = bits_put hi lo u w"
  by (rule bit_word_eqI) (auto simp: bit_bits_put)

lemma bits_put_get:
  "LENGTH('b) = Suc hi - lo \<Longrightarrow>
   bits_put hi lo (bits_get hi lo w :: 'b::len word) (w :: 'a::len word) = w"
  by (rule bit_word_eqI) (auto simp: bit_bits_get bit_bits_put)

lemma bits_put_commute:
  "hi' < lo \<or> hi < lo' \<Longrightarrow>
   bits_put hi' lo' u (bits_put hi lo v w) = bits_put hi lo v (bits_put hi' lo' u w)"
  by (rule bit_word_eqI) (auto simp: bit_bits_put)

lemmas bit_ranges = bit_bits_get bit_bits_put

lemma bits_get_get:
  "hi < LENGTH('b) \<Longrightarrow> lo' + hi \<le> hi' \<Longrightarrow>
   bits_get hi lo (bits_get hi' lo' (w :: 'a::len word) :: 'b::len word) =
     (bits_get (lo' + hi) (lo' + lo) w :: 'c::len word)"
  by (rule bit_word_eqI) (auto simp: bit_ranges algebra_simps)

named_theorems flit_defs \<open>the accessors of a flit\<close>

section \<open>Whole flits\<close>

text \<open>
  The typedefs of \<^verbatim>\<open>types.hpp\<close>, \<open>ocxflit\<close> and \<open>tag\<close> for \<^verbatim>\<open>ocxflit_t\<close> and \<^verbatim>\<open>tag_t\<close>, and the class
  of \<^verbatim>\<open>ocx_flit.hpp\<close>, whose only member is a flit with its bad data indicator.
\<close>

type_synonym resp_combo_t = "253 word"
type_synonym count_t = "32 word"
type_synonym ocxflitbdi_t = "513 word"
type_synonym valid_t = "1 word"
type_synonym tlxcflit_t = "199 word"
type_synonym tlrflit_t = "38 word"
type_synonym tlxscflit_t = "215 word"
type_synonym dlsize_t = "3 word"
type_synonym cutimer_t = "36 word"
type_synonym pasid_t = "20 word"
type_synonym actag_t = "12 word"
type_synonym addr_t = "64 word"
type_synonym code_t = "4 word"
type_synonym dp_t = "2 word"
type_synonym nid_t = "6 word"
type_synonym opcode_t = "8 word"
type_synonym dl_t = "2 word"
type_synonym sel_t = "3 word"
type_synonym ocxflit = "512 word"
type_synonym tag = "16 word"
type_synonym flit = ocxflitbdi_t

definition OCxFlit :: flit where "OCxFlit = 0"

definition fromOCxFlit :: "ocxflit \<Rightarrow> flit \<Rightarrow> flit" where [flit_defs]:
  "fromOCxFlit fl f = bits_put 511 0 (bits_get 511 0 fl :: ocxflit) f"

definition toOCxFlit :: "flit \<Rightarrow> ocxflit" where [flit_defs]:
  "toOCxFlit f = bits_get 511 0 f"

definition fromOCxBdiFlit :: "ocxflitbdi_t \<Rightarrow> flit \<Rightarrow> flit" where [flit_defs]:
  "fromOCxBdiFlit fl f = fl"

definition toOCxBdiFlit :: "flit \<Rightarrow> ocxflitbdi_t" where [flit_defs]:
  "toOCxBdiFlit f = f"

definition setBdi :: "valid_t \<Rightarrow> flit \<Rightarrow> flit" where [flit_defs]:
  "setBdi bdi f = bits_put 512 512 bdi f"

section \<open>Responses of the host\<close>

definition fromTLRespData :: "tlrflit_t \<Rightarrow> flit \<Rightarrow> flit" where [flit_defs]:
  "fromTLRespData fl f =
     (let f = bits_put 511 504 (bits_get 37 30 fl :: 8 word) f;
          f = bits_put 503 488 (bits_get 29 14 fl :: 16 word) f;
          f = bits_put 487 484 (bits_get 13 10 fl :: 4 word) f;
          f = bits_put 483 482 (bits_get 9 8 fl :: 2 word) f;
          f = bits_put 481 480 (bits_get 7 6 fl :: 2 word) f
      in bits_put 479 474 (bits_get 5 0 fl :: 6 word) f)"

text \<open>The local result object is uninitialised; every bit of it is assigned.\<close>

definition toTLRespData :: "tlrflit_t \<Rightarrow> flit \<Rightarrow> tlrflit_t" where [flit_defs]:
  "toTLRespData fl0 f =
     (let fl = bits_put 37 30 (bits_get 511 504 f :: 8 word) fl0;
          fl = bits_put 29 14 (bits_get 503 488 f :: 16 word) fl;
          fl = bits_put 13 10 (bits_get 487 484 f :: 4 word) fl;
          fl = bits_put 9 8 (bits_get 483 482 f :: 2 word) fl;
          fl = bits_put 7 6 (bits_get 481 480 f :: 2 word) fl
      in bits_put 5 0 (bits_get 479 474 f :: 6 word) fl)"

definition getRespCappTag :: "flit \<Rightarrow> tag" where [flit_defs]:
  "getRespCappTag f = bits_get 503 488 f"

definition getTLRespDl :: "flit \<Rightarrow> dl_t" where [flit_defs]:
  "getTLRespDl f = bits_get 483 482 f"

definition getTLRespDp :: "flit \<Rightarrow> dp_t" where [flit_defs]:
  "getTLRespDp f = bits_get 481 480 f"

definition setRespOrigCappTag :: "tag \<Rightarrow> flit \<Rightarrow> flit" where [flit_defs]:
  "setRespOrigCappTag tag f = bits_put 312 297 tag f"

definition getRespOrigCappTag :: "flit \<Rightarrow> tag" where [flit_defs]:
  "getRespOrigCappTag f = bits_get 312 297 f"

definition getRespCode :: "flit \<Rightarrow> code_t" where [flit_defs]:
  "getRespCode f = bits_get 487 484 f"

definition getRespOpcode :: "flit \<Rightarrow> opcode_t" where [flit_defs]:
  "getRespOpcode f = bits_get 511 504 f"

definition TLRespIsXlateDone :: "flit \<Rightarrow> bool" where [flit_defs]:
  "TLRespIsXlateDone f \<longleftrightarrow> (bits_get 508 508 f AND bits_get 507 507 f :: 1 word) \<noteq> 0"

definition TLRespCodeIsFailure :: "flit \<Rightarrow> bool" where [flit_defs]:
  "TLRespCodeIsFailure f \<longleftrightarrow> (bits_get 487 487 f :: 1 word) \<noteq> 0"

definition TLRESP_CODE_RTY :: code_t where "TLRESP_CODE_RTY = 2"
definition TLRESP_CODE_PEND :: code_t where "TLRESP_CODE_PEND = 4"
definition TL_RD_RESPOK :: opcode_t where "TL_RD_RESPOK = 4"
definition TL_RD_RESPFAIL :: opcode_t where "TL_RD_RESPFAIL = 5"
definition TL_WR_RESPOK :: opcode_t where "TL_WR_RESPOK = 8"
definition TL_WR_RESPFAIL :: opcode_t where "TL_WR_RESPFAIL = 9"
definition TL_XLATE_DONE :: opcode_t where "TL_XLATE_DONE = 0x18"

lemmas opcode_defs = TLRESP_CODE_RTY_def TLRESP_CODE_PEND_def TL_RD_RESPOK_def TL_RD_RESPFAIL_def
  TL_WR_RESPOK_def TL_WR_RESPFAIL_def TL_XLATE_DONE_def

definition to_bit :: "bool \<Rightarrow> 1 word" where "to_bit b = (if b then 1 else 0)"

text \<open>
  How a response is to be handled; again the result starts uninitialised and is assigned
  bit by bit.
\<close>

definition getTLRespState :: "sel_t \<Rightarrow> flit \<Rightarrow> sel_t" where
  "getTLRespState sel0 f =
     (let resp_fail = (bits_get 504 504 f :: 1 word) \<noteq> 0;
          code = (bits_get 487 484 f :: 4 word);
          resp_rty_only = (code = TLRESP_CODE_RTY);
          resp_rty_pend = (code = TLRESP_CODE_RTY \<or> code = TLRESP_CODE_PEND);
          sel = bits_put 0 0 (to_bit (resp_fail \<and> resp_rty_only \<or>
                  (bits_get 511 504 f :: 8 word) = TL_XLATE_DONE)) sel0;
          sel = bits_put 1 1 (to_bit ((bits_get 506 506 f :: 1 word) \<noteq> 0 \<and>
                  \<not> (bits_get 504 504 f :: 1 word) \<noteq> 0)) sel
      in bits_put 2 2 (to_bit ((bits_get 507 507 f :: 1 word) \<noteq> 0 \<and> \<not> (bits_get 504 504 f :: 1 word) \<noteq> 0 \<or>
           resp_fail \<and> \<not> resp_rty_pend)) sel)"

section \<open>Commands to the host\<close>

text \<open>The fields a command, a stored command and a flit share, from the opcode to the pasid.\<close>

definition fromTLxCmd :: "tlxcflit_t \<Rightarrow> flit \<Rightarrow> flit" where [flit_defs]:
  "fromTLxCmd fl f =
     (let f = bits_put 511 504 (bits_get 198 191 fl :: 8 word) f;
          f = bits_put 503 440 (bits_get 190 127 fl :: addr_t) f;
          f = bits_put 439 424 (bits_get 126 111 fl :: 16 word) f;
          f = bits_put 423 422 (bits_get 110 109 fl :: 2 word) f;
          f = bits_put 421 419 (bits_get 108 106 fl :: 3 word) f;
          f = bits_put 418 355 (bits_get 105 42 fl :: addr_t) f;
          f = bits_put 354 343 (bits_get 41 30 fl :: actag_t) f;
          f = bits_put 342 339 (bits_get 29 26 fl :: 4 word) f;
          f = bits_put 338 319 (bits_get 25 6 fl :: pasid_t) f
      in bits_put 318 313 (bits_get 5 0 fl :: 6 word) f)"

definition setTLxCmdRespAnno :: "code_t \<Rightarrow> flit \<Rightarrow> flit" where [flit_defs]:
  "setTLxCmdRespAnno cd f = bits_put 318 313 cd f"

definition getTLxCmdRespAnno :: "flit \<Rightarrow> code_t" where [flit_defs]:
  "getTLxCmdRespAnno f = bits_get 318 313 f"

text \<open>The command as it is issued carries the local tag.\<close>

definition toTLxCmdFlit :: "tlxcflit_t \<Rightarrow> flit \<Rightarrow> tlxcflit_t" where [flit_defs]:
  "toTLxCmdFlit fl0 f =
     (let fl = bits_put 198 191 (bits_get 511 504 f :: 8 word) fl0;
          fl = bits_put 190 127 (bits_get 503 440 f :: addr_t) fl;
          fl = bits_put 126 111 (bits_get 312 297 f :: 16 word) fl;
          fl = bits_put 110 109 (bits_get 423 422 f :: 2 word) fl;
          fl = bits_put 108 106 (bits_get 421 419 f :: 3 word) fl;
          fl = bits_put 105 42 (bits_get 418 355 f :: addr_t) fl;
          fl = bits_put 41 30 (bits_get 354 343 f :: actag_t) fl;
          fl = bits_put 29 26 (bits_get 342 339 f :: 4 word) fl;
          fl = bits_put 25 6 (bits_get 338 319 f :: pasid_t) fl
      in bits_put 5 0 (bits_get 318 313 f :: 6 word) fl)"

definition fromTLxCStore :: "tlxscflit_t \<Rightarrow> flit \<Rightarrow> flit" where [flit_defs]:
  "fromTLxCStore fl f =
     (let f = bits_put 312 297 (bits_get 214 199 fl :: 16 word) f;
          f = bits_put 511 504 (bits_get 198 191 fl :: 8 word) f;
          f = bits_put 503 440 (bits_get 190 127 fl :: addr_t) f;
          f = bits_put 439 424 (bits_get 126 111 fl :: 16 word) f;
          f = bits_put 423 422 (bits_get 110 109 fl :: 2 word) f;
          f = bits_put 421 419 (bits_get 108 106 fl :: 3 word) f;
          f = bits_put 418 355 (bits_get 105 42 fl :: addr_t) f;
          f = bits_put 354 343 (bits_get 41 30 fl :: actag_t) f;
          f = bits_put 342 339 (bits_get 29 26 fl :: 4 word) f;
          f = bits_put 338 319 (bits_get 25 6 fl :: pasid_t) f
      in bits_put 296 291 (bits_get 5 0 fl :: 6 word) f)"

text \<open>
  The local object is declared with the 199 bits of \<^verbatim>\<open>tlxcflit_t\<close>, so the first
  assignment lies outside of it; \<open>fl0\<close> is whatever the object holds after that assignment.
  The return value is extended to the 215 bits of \<^verbatim>\<open>tlxscflit_t\<close>.
\<close>

definition toTLxCStore :: "tlxcflit_t \<Rightarrow> flit \<Rightarrow> tlxscflit_t" where [flit_defs]:
  "toTLxCStore fl0 f =
     (let fl = bits_put 198 191 (bits_get 511 504 f :: 8 word) fl0;
          fl = bits_put 190 127 (bits_get 503 440 f :: addr_t) fl;
          fl = bits_put 126 111 (bits_get 439 424 f :: 16 word) fl;
          fl = bits_put 110 109 (bits_get 423 422 f :: 2 word) fl;
          fl = bits_put 108 106 (bits_get 421 419 f :: 3 word) fl;
          fl = bits_put 105 42 (bits_get 418 355 f :: addr_t) fl;
          fl = bits_put 41 30 (bits_get 354 343 f :: actag_t) fl;
          fl = bits_put 29 26 (bits_get 342 339 f :: 4 word) fl;
          fl = bits_put 25 6 (bits_get 338 319 f :: pasid_t) fl
      in ucast (bits_put 5 0 (bits_get 296 291 f :: 6 word) fl))"

definition TLxCmdIsWrite :: "flit \<Rightarrow> bool" where [flit_defs]:
  "TLxCmdIsWrite f \<longleftrightarrow> (bits_get 509 509 f :: 1 word) \<noteq> 0"

definition TLxCmdIsRead :: "flit \<Rightarrow> bool" where [flit_defs]:
  "TLxCmdIsRead f \<longleftrightarrow> (bits_get 508 508 f :: 1 word) \<noteq> 0"

definition TLxCmdIsAssignActag :: "flit \<Rightarrow> bool" where [flit_defs]:
  "TLxCmdIsAssignActag f \<longleftrightarrow> (bits_get 510 510 f :: 1 word) \<noteq> 0"

definition getDl :: "flit \<Rightarrow> dl_t" where [flit_defs]:
  "getDl f = bits_get 423 422 f"

definition setDl :: "dl_t \<Rightarrow> flit \<Rightarrow> flit" where [flit_defs]:
  "setDl dl f = bits_put 423 422 dl f"

definition setBe :: "addr_t \<Rightarrow> flit \<Rightarrow> flit" where [flit_defs]:
  "setBe be f = bits_put 418 355 be f"

definition setOpcode :: "opcode_t \<Rightarrow> flit \<Rightarrow> flit" where [flit_defs]:
  "setOpcode opc f = bits_put 511 504 opc f"

definition setEA :: "addr_t \<Rightarrow> flit \<Rightarrow> flit" where [flit_defs]:
  "setEA addr f = bits_put 503 440 addr f"

definition setPasid :: "pasid_t \<Rightarrow> flit \<Rightarrow> flit" where [flit_defs]:
  "setPasid pasid f = bits_put 338 319 pasid f"

definition setActag :: "actag_t \<Rightarrow> flit \<Rightarrow> flit" where [flit_defs]:
  "setActag ac f = bits_put 354 343 ac f"

definition setCappTagLocal :: "tag \<Rightarrow> flit \<Rightarrow> flit" where [flit_defs]:
  "setCappTagLocal tag f = bits_put 312 297 tag f"

definition getCappTagLocal :: "flit \<Rightarrow> tag" where [flit_defs]:
  "getCappTagLocal f = bits_get 312 297 f"

definition getCappTagOrig :: "flit \<Rightarrow> tag" where [flit_defs]:
  "getCappTagOrig f = bits_get 439 424 f"

definition setCappTagOrig :: "tag \<Rightarrow> flit \<Rightarrow> flit" where [flit_defs]:
  "setCappTagOrig tag f = bits_put 439 424 tag f"

definition getNetId :: "flit \<Rightarrow> nid_t" where [flit_defs]:
  "getNetId f = bits_get 296 291 f"

definition setNetId :: "nid_t \<Rightarrow> flit \<Rightarrow> flit" where [flit_defs]:
  "setNetId netid f = bits_put 296 291 netid f"

section \<open>Interface: a field of a flit\<close>

text \<open>
  What the engines rely on when they pass values through a flit: a value that was put is
  read back, and the last of two writes counts.  A field whose getter reads all the bits of
  its setter in addition is unchanged when it is rewritten.
\<close>

locale flit_field =
  fixes get :: "flit \<Rightarrow> 'v::len word" and put :: "'v word \<Rightarrow> flit \<Rightarrow> flit"
  assumes get_put: "get (put v f) = v" and put_put: "put u (put v f) = put u f"
begin

lemma put_inj: "put u f = put v f \<Longrightarrow> u = v"
  by (metis get_put)

lemma put_all: "fold put vs f = (if vs = [] then f else put (last vs) f)"
  by (induction vs arbitrary: f) (auto simp: put_put)

end

locale full_field = flit_field +
  assumes put_get: "put (get f) f = f"
begin

lemma put_same_iff: "put v f = f \<longleftrightarrow> v = get f"
  by (metis get_put put_get)

end

lemmas bits_laws = bits_get_put_same bits_put_put_same bits_put_get

interpretation dl_field: full_field getDl setDl
  by unfold_locales (simp_all add: flit_defs bits_laws)

interpretation local_tag: full_field getCappTagLocal setCappTagLocal
  by unfold_locales (simp_all add: flit_defs bits_laws)

interpretation orig_tag: full_field getCappTagOrig setCappTagOrig
  by unfold_locales (simp_all add: flit_defs bits_laws)

interpretation resp_tag: full_field getRespOrigCappTag setRespOrigCappTag
  by unfold_locales (simp_all add: flit_defs bits_laws)

interpretation net_id: full_field getNetId setNetId
  by unfold_locales (simp_all add: flit_defs bits_laws)

interpretation resp_anno: flit_field getTLxCmdRespAnno setTLxCmdRespAnno
  by unfold_locales (simp_all add: flit_defs bits_laws)

lemmas field_laws [simp] = dl_field.get_put local_tag.get_put orig_tag.get_put resp_tag.get_put
  net_id.get_put resp_anno.get_put

section \<open>The conversions move whole blocks of bits\<close>

lemma fromTLRespData_bits: "fromTLRespData fl f = bits_put 511 474 fl f"
  unfolding flit_defs Let_def
  by (rule bit_word_eqI) (auto simp: bit_ranges)

lemma toTLRespData_bits: "toTLRespData fl0 f = bits_get 511 474 f"
  unfolding flit_defs Let_def
  by (rule bit_word_eqI) (auto simp: bit_ranges)

lemma fromTLxCmd_bits: "fromTLxCmd fl f = bits_put 511 313 fl f"
  unfolding flit_defs Let_def
  by (rule bit_word_eqI) (auto simp: bit_ranges)

lemma toTLxCmdFlit_bits:
  "toTLxCmdFlit fl0 f = bits_put 126 111 (getCappTagLocal f) (bits_get 511 313 f)"
  unfolding flit_defs Let_def
  by (rule bit_word_eqI) (auto simp: bit_ranges)

lemma fromTLxCStore_bits:
  "fromTLxCStore fl f = bits_put 312 297 (bits_get 214 199 fl :: tag)
     (bits_put 511 319 (bits_get 198 6 fl :: 193 word) (bits_put 296 291 (bits_get 5 0 fl :: 6 word) f))"
  unfolding flit_defs Let_def
  by (rule bit_word_eqI) (auto simp: bit_ranges)

lemma toTLxCStore_bits:
  "toTLxCStore fl0 f =
     bits_put 198 6 (bits_get 511 319 f :: 193 word) (bits_put 5 0 (bits_get 296 291 f :: 6 word) 0)"
  unfolding flit_defs Let_def
  by (rule bit_word_eqI) (auto simp: bit_ranges bit_simps dest: bit_imp_le_length)

lemmas block_moves = fromTLRespData_bits toTLRespData_bits fromTLxCmd_bits toTLxCmdFlit_bits
  fromTLxCStore_bits toTLxCStore_bits

lemma flit_id [simp]: "toOCxFlit (fromOCxFlit fl f) = fl"
  unfolding flit_defs by (rule bit_word_eqI) (auto simp: bit_ranges)

section \<open>Properties\<close>

text \<open>
  a response that is loaded into a flit and taken out again is unchanged, whatever the
  flit held before.
\<close>

theorem response_roundtrip: "toTLRespData fl0 (fromTLRespData fl f) = fl"
  unfolding block_moves by (rule bit_word_eqI) (auto simp: bit_ranges)

text \<open>
  a command that is loaded, given a local tag and issued is unchanged except for its
  tag, which is the local one.
\<close>

theorem command_roundtrip:
  "toTLxCmdFlit fl0 (setCappTagLocal t (fromTLxCmd c f)) = bits_put 126 111 t c"
  unfolding block_moves flit_defs by (rule bit_word_eqI) (auto simp: bit_ranges)

text \<open>
  a command that is loaded from the table of stored commands and taken out again loses
  its local tag: the sixteen bits are zero, all others are kept.
\<close>

theorem store_loses_tag:
  "toTLxCStore fl0 (fromTLxCStore s f) = bits_put 214 199 (0 :: tag) s"
  unfolding block_moves by (rule bit_word_eqI) (auto simp: bit_ranges bit_simps dest: bit_imp_le_length)

text \<open>The state of a response depends on its opcode and code only.\<close>

definition resp_state :: "opcode_t \<Rightarrow> code_t \<Rightarrow> sel_t" where
  "resp_state opc code =
     (if opc = TL_RD_RESPOK then 2 else if opc = TL_WR_RESPOK then 4
      else if opc = TL_XLATE_DONE then 5
      else if code = TLRESP_CODE_RTY then 1 else if code = TLRESP_CODE_PEND then 0 else 4)"

lemma opcode_bit:
  "lo \<le> 7 \<Longrightarrow> (bits_get (504 + lo) (504 + lo) f :: 1 word) = bits_get lo lo (getRespOpcode f)"
  unfolding getRespOpcode_def by (subst bits_get_get) simp_all

lemma sel_bits:
  "bits_put 2 2 (to_bit c) (bits_put 1 1 (to_bit b) (bits_put 0 0 (to_bit a) (sel0 :: 3 word))) =
     (if a then 1 else 0) + (if b then 2 else 0) + (if c then 4 else 0)"
proof -
  have sel: "sel = w \<longleftrightarrow> (bit sel 0 \<longleftrightarrow> bit w 0) \<and> (bit sel 1 \<longleftrightarrow> bit w 1) \<and> (bit sel 2 \<longleftrightarrow> bit w 2)"
    for sel w :: "3 word"
    by (auto intro!: bit_word_eqI simp: less_Suc_eq numeral_3_eq_3 numeral_2_eq_2)
  show ?thesis unfolding sel by (auto simp: bit_bits_put to_bit_def)
qed

lemma getTLRespState_opcode:
  "getTLRespState sel0 f =
     (let opc = getRespOpcode f; code = getRespCode f;
          fail = (bits_get 0 0 opc :: 1 word) \<noteq> 0;
          pend = (code = TLRESP_CODE_RTY \<or> code = TLRESP_CODE_PEND) in
      (if fail \<and> code = TLRESP_CODE_RTY \<or> opc = TL_XLATE_DONE then 1 else 0) +
      (if (bits_get 2 2 opc :: 1 word) \<noteq> 0 \<and> \<not> fail then 2 else 0) +
      (if (bits_get 3 3 opc :: 1 word) \<noteq> 0 \<and> \<not> fail \<or> fail \<and> \<not> pend then 4 else 0))"
  using opcode_bit [of 0 f] opcode_bit [of 2 f] opcode_bit [of 3 f]
  unfolding getTLRespState_def Let_def sel_bits getRespCode_def getRespOpcode_def by simp

lemma resp_state_of:
  assumes "getRespOpcode f \<in>
    {TL_RD_RESPOK, TL_RD_RESPFAIL, TL_WR_RESPOK, TL_WR_RESPFAIL, TL_XLATE_DONE}"
  shows "getTLRespState sel0 f = resp_state (getRespOpcode f) (getRespCode f)"
  using assms unfolding getTLRespState_opcode
  by (auto simp: resp_state_def opcode_defs Let_def bits_get_def)

text \<open>
  C36: how each response the host can give is classified: read data 010 and write
  acknowledgements 100 (to the network), a failure with the retry code 001 (to the retry
  engine), a pending failure 000 (nowhere), any other failure 100 (to the network).  A finished
  translation gets 101, where the comments of the function document 001 for it and 100 for
  acknowledged writes and unrecoverable failures only: bit 2 is taken from bit 3 of the
  opcode, which 18 hexadecimal has too.  The response engine tests bit 0 first, so the
  command is retried as documented.
\<close>

theorem response_classes:
  assumes "getRespOpcode f \<in>
    {TL_RD_RESPOK, TL_RD_RESPFAIL, TL_WR_RESPOK, TL_WR_RESPFAIL, TL_XLATE_DONE}"
  shows "getTLRespState sel0 f = resp_state (getRespOpcode f) (getRespCode f)"
  using assms by (rule resp_state_of)

lemma response_classes_witness:
  "getTLRespState 7 (bits_put 511 504 TL_RD_RESPFAIL (bits_put 487 484 TLRESP_CODE_PEND OCxFlit)) = 0"
proof -
  let ?f = "bits_put 511 504 TL_RD_RESPFAIL (bits_put 487 484 TLRESP_CODE_PEND OCxFlit)"
  have f: "getRespOpcode ?f = TL_RD_RESPFAIL" "getRespCode ?f = TLRESP_CODE_PEND"
    by (simp_all add: getRespOpcode_def getRespCode_def bits_get_put_same bits_get_put_other)
  then show ?thesis using response_classes [of ?f 7] by (simp add: resp_state_def opcode_defs)
qed

end
