(* ===== verification/TFEngine.thy ===== *)
theory TFEngine imports TFFlit begin

text \<open>
  What the state machines of the memory egress path share: one call of the C++ function is
  one clock step, an \<^verbatim>\<open>hls::stream\<close> is the list of what was written and not yet read, and a
  transaction takes several steps.
\<close>

section \<open>Steps\<close>

text \<open>\<open>None\<close> is an access outside of a table.\<close>

fun run_steps :: "('s \<Rightarrow> 's option) \<Rightarrow> nat \<Rightarrow> 's \<Rightarrow> 's option" where
  "run_steps step 0 s = Some s"
| "run_steps step (Suc n) s = do { s' \<leftarrow> step s; run_steps step n s' }"

lemma run_steps_add:
  "run_steps step (m + n) s = do { s' \<leftarrow> run_steps step m s; run_steps step n s' }"
  by (induction m arbitrary: s) (auto split: bind_splits)

lemma run_steps_numeral:
  "run_steps step (numeral k) s = do { s' \<leftarrow> step s; run_steps step (pred_numeral k) s' }"
  by (simp add: numeral_eq_Suc)

lemma run_steps_inv:
  assumes "\<And>s s'. step s = Some s' \<Longrightarrow> P s \<Longrightarrow> P s'" "run_steps step n s = Some s'" "P s"
  shows "P s'"
  using assms(2,3) by (induction n arbitrary: s) (auto dest: assms(1))

section \<open>The number of data flits\<close>

text \<open>
  Both engines turn the length field into a one-hot counter: 11 counts four flits, 10 two,
  00 and 01 one.
\<close>

definition dl_count :: "dl_t \<Rightarrow> dlsize_t \<Rightarrow> dlsize_t" where
  "dl_count dl n =
     (let hi = (bits_get 1 1 dl :: 1 word) \<noteq> 0; lo = (bits_get 0 0 dl :: 1 word) \<noteq> 0;
          n = bits_put 2 2 (to_bit (hi \<and> lo)) n;
          n = bits_put 1 1 (to_bit (hi \<and> \<not> lo)) n
      in bits_put 0 0 (to_bit (\<not> hi)) n)"

definition flits_of :: "dl_t \<Rightarrow> nat" where
  "flits_of dl = (if dl = 3 then 4 else if dl = 2 then 2 else 1)"

lemma flits_of_values: "flits_of 0 = 1" "flits_of 1 = 1" "flits_of 2 = 2" "flits_of 3 = 4"
  by (simp_all add: flits_of_def)

lemma dl_cases: obtains "dl = (0 :: 2 word)" | "dl = 1" | "dl = 2" | "dl = 3"
proof -
  have "unat dl < 4" using unsigned_less [where w = dl and 'a = nat] by simp
  then consider "unat dl = 0" | "unat dl = 1" | "unat dl = 2" | "unat dl = 3" by linarith
  moreover have eq: "dl = v \<longleftrightarrow> unat dl = unat v" for v by (rule word_unat_eq_iff)
  ultimately show ?thesis
    using that unfolding eq by cases (simp_all only: unsigned_0 unsigned_1 unsigned_numeral, simp_all)
qed

lemma dl_count_flits: "dl_count dl n = of_nat (flits_of dl)"
proof -
  have sel: "a = w \<longleftrightarrow> (bit a 0 \<longleftrightarrow> bit w 0) \<and> (bit a 1 \<longleftrightarrow> bit w 1) \<and> (bit a 2 \<longleftrightarrow> bit w 2)"
    for a w :: "3 word"
    by (auto intro!: bit_word_eqI simp: less_Suc_eq numeral_3_eq_3 numeral_2_eq_2)
  show ?thesis
    by (cases dl rule: dl_cases)
       (simp_all add: dl_count_def flits_of_def sel bit_bits_put to_bit_def bits_get_def Let_def)
qed

section \<open>Interface: an engine that works through transactions\<close>

text \<open>
  \<open>queued s ts\<close>: the engine is idle in \<open>s\<close> and the transactions \<open>ts\<close> wait in its input
  streams; \<open>seen\<close> is what it has written to its output streams, \<open>effect\<close> what a transaction
  is meant to add to it.  If one transaction is worked off in finitely many steps with its
  effect, so is any number of them.
\<close>

locale engine =
  fixes step :: "'s \<Rightarrow> 's option"
    and queued :: "'s \<Rightarrow> 't list \<Rightarrow> bool"
    and seen :: "'s \<Rightarrow> 'o"
    and effect :: "'t \<Rightarrow> 'o \<Rightarrow> 'o"
    and cost :: "'t \<Rightarrow> nat"
  assumes transaction: "queued s (t # ts) \<Longrightarrow>
    \<exists>s'. run_steps step (cost t) s = Some s' \<and> queued s' ts \<and> seen s' = effect t (seen s)"
begin

lemma works_off:
  "queued s ts \<Longrightarrow> \<exists>s'. run_steps step (sum_list (map cost ts)) s = Some s' \<and> queued s' [] \<and>
     seen s' = fold effect ts (seen s)"
proof (induction ts arbitrary: s)
  case (Cons t ts)
  from transaction [OF Cons.prems] obtain s1 where
    s1: "run_steps step (cost t) s = Some s1" "queued s1 ts" "seen s1 = effect t (seen s)" by blast
  from Cons.IH [OF s1(2)] s1(1,3) show ?case by (auto simp: run_steps_add)
qed auto

end

section \<open>Interface: an engine that waits for its input\<close>

text \<open>
  The environment writes to the input streams between two clock steps.  An engine that only
  ever blocks on a stream (it never asks whether a stream is empty to do something else)
  is deterministic: what it has done depends on what arrived, not on when.
\<close>

datatype 'x event = Tick | Input 'x

fun run_events :: "('s \<Rightarrow> 's option) \<Rightarrow> ('x \<Rightarrow> 's \<Rightarrow> 's) \<Rightarrow> 'x event list \<Rightarrow> 's \<Rightarrow> 's option" where
  "run_events step push [] s = Some s"
| "run_events step push (Tick # es) s = do { s' \<leftarrow> step s; run_events step push es s' }"
| "run_events step push (Input x # es) s = run_events step push es (push x s)"

fun inputs :: "'x event list \<Rightarrow> 'x list" where
  "inputs [] = []"
| "inputs (Tick # es) = inputs es"
| "inputs (Input x # es) = x # inputs es"

lemma inputs_append [simp]: "inputs (es @ es') = inputs es @ inputs es'"
  by (induction es rule: inputs.induct) auto

lemma inputs_ticks [simp]: "inputs (replicate n Tick) = []"
  by (induction n) auto

lemma run_events_append:
  "run_events step push (es @ es') s = do { s' \<leftarrow> run_events step push es s; run_events step push es' s' }"
  by (induction step push es s rule: run_events.induct) (auto split: bind_splits)

lemma run_events_ticks: "run_events step push (replicate n Tick) s = run_steps step n s"
  by (induction n arbitrary: s) (auto split: bind_splits)

locale stalling =
  fixes step :: "'s \<Rightarrow> 's option"
    and push :: "'x \<Rightarrow> 's \<Rightarrow> 's"
    and stalled :: "'s \<Rightarrow> bool"
  assumes stalls: "stalled s \<Longrightarrow> step s = Some s"
    and push_enabled: "\<not> stalled s \<Longrightarrow> \<not> stalled (push x s)"
    and push_step: "\<not> stalled s \<Longrightarrow> step (push x s) = map_option (push x) (step s)"
begin

lemma fold_enabled: "\<not> stalled s \<Longrightarrow> \<not> stalled (fold push xs s)"
  by (induction xs arbitrary: s) (auto dest: push_enabled)

lemma fold_step: "\<not> stalled s \<Longrightarrow> step (fold push xs s) = map_option (fold push xs) (step s)"
proof (induction xs arbitrary: s)
  case (Cons x xs)
  show ?case
    by (cases "step s") (simp_all add: Cons.IH push_enabled push_step Cons.prems)
qed (simp add: option.map_id0 flip: id_def)

lemma stays: "stalled s \<Longrightarrow> run_steps step n s = Some s"
  by (induction n) (simp_all add: stalls)

text \<open>However it was fed, the engine is on the run that starts with all input queued.\<close>

lemma determinate:
  assumes "\<And>k. run_steps step k (fold push (inputs es @ rest) s) \<noteq> None"
  shows "\<exists>k s'. run_events step push es s = Some s' \<and>
    run_steps step k (fold push (inputs es @ rest) s) = Some (fold push rest s')"
  using assms
proof (induction es arbitrary: s rule: inputs.induct)
  case 1
  show ?case by (rule exI [of _ 0]) simp
next
  case (2 es)
  show ?case
  proof (cases "stalled s")
    case True
    then show ?thesis using 2 by (simp add: stalls)
  next
    case False
    let ?in = "inputs es @ rest"
    have "step (fold push ?in s) \<noteq> None" using "2.prems" [of 1] by auto
    then obtain s1 where s1: "step s = Some s1" "step (fold push ?in s) = Some (fold push ?in s1)"
      using fold_step [OF False, of ?in] by (cases "step s") auto
    have "run_steps step k (fold push ?in s1) \<noteq> None" for k
      using "2.prems" [of "Suc k"] s1(2) by simp
    from "2.IH" [OF this] obtain k s' where
      "run_events step push es s1 = Some s'" "run_steps step k (fold push ?in s1) = Some (fold push rest s')"
      by blast
    then show ?thesis using s1 by (intro exI [of _ "Suc k"] exI [of _ s']) simp
  qed
qed simp

lemma total:
  assumes "run_steps step n s = Some z" "stalled z"
  shows "run_steps step k s \<noteq> None"
proof (cases "k \<le> n")
  case True
  then show ?thesis using assms(1) run_steps_add [of step k "n - k" s] by (auto split: bind_splits)
next
  case False
  then show ?thesis using assms stays [OF assms(2)] run_steps_add [of step n "k - n" s] by simp
qed

lemma long_enough:
  assumes "run_steps step n s = Some z" "stalled z" "n \<le> m"
  shows "run_steps step m s = Some z"
  using assms stays [OF assms(2)] run_steps_add [of step n "m - n" s] by simp

text \<open>Given enough clock steps after the last input, the timing leaves no trace.\<close>

lemma timing_irrelevant:
  assumes "run_steps step n (fold push (inputs es) s) = Some z" "stalled z" "n \<le> m"
  shows "run_events step push (es @ replicate m Tick) s = Some z"
proof -
  obtain k s' where "run_events step push es s = Some s'"
      "run_steps step k (fold push (inputs es) s) = Some s'"
    using determinate [of es "[]" s] total [OF assms(1,2)] by auto
  then show ?thesis
    using long_enough [OF assms(1,2), of "k + m"] assms(3)
    by (simp add: run_events_append run_events_ticks run_steps_add)
qed

end

end
