(* ===== verification/TFResp.thy ===== *)
theory TFResp imports TFEngine begin

text \<open>
  \<^verbatim>\<open>memory_egress/ocx_resp_eng.cpp\<close>: the engine that receives the responses of the host.
  It first fills the FIFO of free tags, then forwards responses to the network, re-issues
  failed commands through the retry engine and gives tags back.
\<close>

section \<open>Model\<close>

definition LOOKUPSIZE :: nat where "LOOKUPSIZE = 512"

datatype resp_sm = INIT | GET_CMD | GET_DATA

text \<open>The static variables of \<^verbatim>\<open>RespEngSM\<close>, its streams and its counter ports.\<close>

record resp_eng =
  smstate :: resp_sm
  tlresp :: flit
  capptag_count :: tag
  keeplookupentry :: bool
  respdataflag :: bool
  localtag :: tag
  cdata :: dlsize_t
  cdata_count :: dlsize_t
  cmdf_cntin :: count_t
  data_cntin :: count_t
  cmdf_tortyin :: count_t
  data_tortyin :: count_t
  cmdf_cnt :: count_t
  data_cnt :: count_t
  cmdf_torty :: count_t
  data_torty :: count_t
  tlresp_fifo_in :: "resp_combo_t list"
  tlresp_data_in :: "ocxflitbdi_t list"
  lookup_out :: "tag list"
  rtry_do_cmd_out :: "ocxflit list"
  network_cmd_out0 :: "ocxflit list"

definition init_resp :: resp_eng where
  "init_resp = \<lparr> smstate = INIT, tlresp = OCxFlit, capptag_count = 1, keeplookupentry = False,
     respdataflag = False, localtag = 0, cdata = 0, cdata_count = 0,
     cmdf_cntin = 0, data_cntin = 0, cmdf_tortyin = 0, data_tortyin = 0,
     cmdf_cnt = 0, data_cnt = 0, cmdf_torty = 0, data_torty = 0,
     tlresp_fifo_in = [], tlresp_data_in = [], lookup_out = [], rtry_do_cmd_out = [],
     network_cmd_out0 = [] \<rparr>"

text \<open>\<open>INIT\<close>: one tag per step into the FIFO of free tags.\<close>

definition init_step :: "valid_t \<Rightarrow> resp_eng \<Rightarrow> resp_eng" where
  "init_step enable s =
     (if enable = 1
      then s\<lparr>smstate := (if capptag_count s = 0x200 then GET_CMD else INIT),
             lookup_out := lookup_out s @ [capptag_count s],
             capptag_count := capptag_count s + 1\<rparr>
      else s)"

text \<open>
  \<open>GET_CMD\<close>: a response with the command it belongs to.  \<open>sel0\<close> is the initial value of
  the local result of \<^verbatim>\<open>getTLRespState\<close>.
\<close>

definition get_cmd_step :: "sel_t \<Rightarrow> resp_eng \<Rightarrow> resp_eng" where
  "get_cmd_step sel0 s =
     (case tlresp_fifo_in s of
        [] \<Rightarrow> s
      | combo # rest \<Rightarrow>
          let s = s\<lparr>cmdf_cnt := cmdf_cntin s, cmdf_cntin := cmdf_cntin s + 1, tlresp_fifo_in := rest\<rparr>;
              resp = fromTLRespData (bits_get 252 215 combo) (tlresp s);
              cmdf = fromTLxCStore (bits_get 214 0 combo) OCxFlit;
              ltag = getRespCappTag resp;
              respdl = getTLRespDl resp;
              origdl = getDl cmdf;
              respdp = getTLRespDp resp;
              resp = setRespOrigCappTag (getCappTagOrig cmdf) resp;
              resp = setNetId (getNetId cmdf) resp;
              s = s\<lparr>tlresp := resp, localtag := ltag,
                    keeplookupentry := respdl \<noteq> origdl \<and> respdp = 0\<rparr>
          in
          if bit (getTLRespState sel0 resp) 0 then
            let cmdf = (if TLRespIsXlateDone resp then setTLxCmdRespAnno 0 cmdf
                        else setTLxCmdRespAnno (getRespCode resp) cmdf);
                cmdf = setCappTagLocal (getRespCappTag resp) cmdf;
                s = s\<lparr>cdata := dl_count origdl (cdata s), cdata_count := 1,
                      cmdf_torty := cmdf_tortyin s, cmdf_tortyin := cmdf_tortyin s + 1,
                      rtry_do_cmd_out := rtry_do_cmd_out s @ [toOCxFlit cmdf]\<rparr>
            in if TLxCmdIsWrite cmdf then s\<lparr>respdataflag := False, smstate := GET_DATA\<rparr> else s
          else if bit (getTLRespState sel0 resp) 1 then
            s\<lparr>respdataflag := True, cdata := dl_count respdl (cdata s), cdata_count := 1,
              smstate := GET_DATA, network_cmd_out0 := network_cmd_out0 s @ [toOCxFlit resp]\<rparr>
          else if bit (getTLRespState sel0 resp) 2 then
            s\<lparr>lookup_out := lookup_out s @ [getRespCappTag resp],
              network_cmd_out0 := network_cmd_out0 s @ [toOCxFlit resp]\<rparr>
          else s)"

text \<open>
  \<open>GET_DATA\<close>: one data flit, from the host (the bad data indicator is cut off on the way
  to the network) or from the tables of stored write data.
\<close>

definition get_data_step ::
    "ocxflit list \<Rightarrow> ocxflit list \<Rightarrow> ocxflit list \<Rightarrow> ocxflit list \<Rightarrow> resp_eng \<Rightarrow> resp_eng option" where
  "get_data_step data0 data1 data2 data3 s =
     (if respdataflag s then
        (case tlresp_data_in s of
           [] \<Rightarrow> Some s
         | d # ds \<Rightarrow>
             let s = (if cdata s \<noteq> 1 then s\<lparr>cdata := cdata s - 1\<rparr>
                      else s\<lparr>lookup_out := lookup_out s @ (if keeplookupentry s then [] else [localtag s]),
                             smstate := GET_CMD\<rparr>)
             in Some (s\<lparr>data_cnt := data_cntin s, data_cntin := data_cntin s + 1,
                        tlresp_data_in := ds,
                        network_cmd_out0 := network_cmd_out0 s @ [bits_get 511 0 d]\<rparr>))
      else
        let datas = (if cdata_count s = 1 then data0 else if cdata_count s = 2 then data1
                     else if cdata_count s = 3 then data2 else data3) in
        if unat (localtag s) < length datas then
          Some (s\<lparr>data_torty := data_tortyin s, data_tortyin := data_tortyin s + 1,
                  rtry_do_cmd_out := rtry_do_cmd_out s @ [datas ! unat (localtag s)],
                  smstate := (if cdata_count s = cdata s then GET_CMD else smstate s),
                  cdata_count := cdata_count s + 1\<rparr>)
        else None)"

definition RespEngSM ::
    "valid_t \<Rightarrow> sel_t \<Rightarrow> ocxflit list \<Rightarrow> ocxflit list \<Rightarrow> ocxflit list \<Rightarrow> ocxflit list \<Rightarrow>
     resp_eng \<Rightarrow> resp_eng option" where
  "RespEngSM enable sel0 data0 data1 data2 data3 s =
     (case smstate s of
        INIT \<Rightarrow> Some (init_step enable s)
      | GET_CMD \<Rightarrow> Some (get_cmd_step sel0 s)
      | GET_DATA \<Rightarrow> get_data_step data0 data1 data2 data3 s)"

section \<open>What the steps depend on\<close>

lemma getTLRespState_init: "getTLRespState sel0 f = getTLRespState 0 f"
  unfolding getTLRespState_opcode ..

text \<open>The persistent response flit only ever holds the fields of a response.\<close>

definition clean :: "flit \<Rightarrow> bool" where
  "clean f \<longleftrightarrow> (\<forall>n. bit f n \<longrightarrow> 474 \<le> n \<and> n \<le> 511 \<or> 291 \<le> n \<and> n \<le> 312)"

definition response_flit :: "tlrflit_t \<Rightarrow> tag \<Rightarrow> nid_t \<Rightarrow> flit \<Rightarrow> flit" where
  "response_flit r t n f = setNetId n (setRespOrigCappTag t (fromTLRespData r f))"

lemma clean_zero: "clean OCxFlit" by (simp add: clean_def OCxFlit_def)

lemma clean_response: "clean f \<Longrightarrow> clean (response_flit r t n f)"
  by (auto simp: clean_def response_flit_def fromTLRespData_bits setNetId_def setRespOrigCappTag_def
      bit_ranges split: if_splits)

lemma response_flit_clean: "clean f \<Longrightarrow> response_flit r t n f = response_flit r t n OCxFlit"
  by (rule bit_word_eqI)
     (auto simp: clean_def response_flit_def fromTLRespData_bits setNetId_def setRespOrigCappTag_def
      bit_ranges OCxFlit_def)

lemma response_fields:
  "getRespCappTag (fromTLRespData r f) = bits_get 29 14 r"
  "getTLRespDl (fromTLRespData r f) = bits_get 9 8 r"
  "getTLRespDp (fromTLRespData r f) = bits_get 7 6 r"
  "getRespCappTag (response_flit r t n f) = bits_get 29 14 r"
  "getRespCode (response_flit r t n f) = bits_get 13 10 r"
  "getRespOpcode (response_flit r t n f) = bits_get 37 30 r"
  by (rule bit_word_eqI; auto simp: response_flit_def fromTLRespData_bits setNetId_def
      setRespOrigCappTag_def getRespCappTag_def getTLRespDl_def getTLRespDp_def getRespCode_def
      getRespOpcode_def bit_ranges)+

section \<open>The specification of one transaction\<close>

definition combo_cmd :: "resp_combo_t \<Rightarrow> flit" where
  "combo_cmd combo = fromTLxCStore (bits_get 214 0 combo) OCxFlit"

definition combo_resp :: "resp_combo_t \<Rightarrow> flit" where
  "combo_resp combo = response_flit (bits_get 252 215 combo) (getCappTagOrig (combo_cmd combo))
     (getNetId (combo_cmd combo)) OCxFlit"

definition combo_tag :: "resp_combo_t \<Rightarrow> tag" where
  "combo_tag combo = getRespCappTag (combo_resp combo)"

text \<open>The command as it is retried: annotated with the reason, and with its tag restored.\<close>

definition retry_cmd :: "resp_combo_t \<Rightarrow> flit" where
  "retry_cmd combo = setCappTagLocal (combo_tag combo)
     (setTLxCmdRespAnno (if TLRespIsXlateDone (combo_resp combo) then 0 else getRespCode (combo_resp combo))
       (combo_cmd combo))"

datatype resp_action = To_retry | To_network_data | To_network | Dropped

definition action :: "resp_combo_t \<Rightarrow> resp_action" where
  "action combo = (let sel = getTLRespState 0 (combo_resp combo) in
     if bit sel 0 then To_retry else if bit sel 1 then To_network_data
     else if bit sel 2 then To_network else Dropped)"

text \<open>The host answered with a part of the data, and not with the second part.\<close>

definition keeps_tag :: "resp_combo_t \<Rightarrow> bool" where
  "keeps_tag combo \<longleftrightarrow> getTLRespDl (combo_resp combo) \<noteq> getDl (combo_cmd combo) \<and>
     getTLRespDp (combo_resp combo) = 0"

definition data_flits :: "resp_combo_t \<Rightarrow> nat" where
  "data_flits combo = (case action combo of
     To_retry \<Rightarrow> if TLxCmdIsWrite (combo_cmd combo) then flits_of (getDl (combo_cmd combo)) else 0
   | To_network_data \<Rightarrow> flits_of (getTLRespDl (combo_resp combo))
   | _ \<Rightarrow> 0)"

type_synonym resp_seen = "tag list \<times> ocxflit list \<times> ocxflit list"

fun resp_effect :: "ocxflit list list \<Rightarrow> resp_combo_t \<times> ocxflitbdi_t list \<Rightarrow> resp_seen \<Rightarrow> resp_seen" where
  "resp_effect tables (combo, ds) (tags, rty, net) = (case action combo of
     To_retry \<Rightarrow> (tags, rty @ toOCxFlit (retry_cmd combo) #
        map (\<lambda>d. d ! unat (combo_tag combo)) (take (data_flits combo) tables), net)
   | To_network_data \<Rightarrow> (tags @ (if keeps_tag combo then [] else [combo_tag combo]), rty,
        net @ toOCxFlit (combo_resp combo) # map (bits_get 511 0) ds)
   | To_network \<Rightarrow> (tags @ [combo_tag combo], rty, net @ [toOCxFlit (combo_resp combo)])
   | Dropped \<Rightarrow> (tags, rty, net))"

definition resp_seen :: "resp_eng \<Rightarrow> resp_seen" where
  "resp_seen s = (lookup_out s, rtry_do_cmd_out s, network_cmd_out0 s)"

definition resp_ok :: "ocxflit list list \<Rightarrow> resp_combo_t \<times> ocxflitbdi_t list \<Rightarrow> bool" where
  "resp_ok tables t \<longleftrightarrow>
     length (snd t) = (if action (fst t) = To_network_data then data_flits (fst t) else 0) \<and>
     (action (fst t) = To_retry \<longrightarrow> TLxCmdIsWrite (combo_cmd (fst t)) \<longrightarrow>
        (\<forall>d \<in> set tables. unat (combo_tag (fst t)) < length d))"

definition resp_queued :: "ocxflit list list \<Rightarrow> resp_eng \<Rightarrow> (resp_combo_t \<times> ocxflitbdi_t list) list \<Rightarrow> bool" where
  "resp_queued tables s ts \<longleftrightarrow> smstate s = GET_CMD \<and> clean (tlresp s) \<and>
     tlresp_fifo_in s = map fst ts \<and> tlresp_data_in s = concat (map snd ts) \<and>
     (\<forall>t \<in> set ts. resp_ok tables t)"

section \<open>The data of a transaction\<close>

lemma host_data:
  assumes "smstate s = GET_DATA" "respdataflag s" "ds \<noteq> []" "length ds \<le> 4"
    and "cdata s = of_nat (length ds)" "tlresp_data_in s = ds @ rest"
  shows "\<exists>s'. run_steps (RespEngSM en sel0 d0 d1 d2 d3) (length ds) s = Some s' \<and>
     smstate s' = GET_CMD \<and> tlresp s' = tlresp s \<and> tlresp_fifo_in s' = tlresp_fifo_in s \<and>
     tlresp_data_in s' = rest \<and> rtry_do_cmd_out s' = rtry_do_cmd_out s \<and>
     lookup_out s' = lookup_out s @ (if keeplookupentry s then [] else [localtag s]) \<and>
     network_cmd_out0 s' = network_cmd_out0 s @ map (bits_get 511 0) ds"
  using assms
proof (induction ds arbitrary: s)
  case Nil
  then show ?case by simp
next
  case (Cons d ds)
  show ?case
  proof (cases ds)
    case Nil
    then show ?thesis using Cons.prems
      by (simp add: RespEngSM_def get_data_step_def Let_def)
  next
    case (Cons d' ds')
    then have n: "length ds \<in> {1, 2, 3}" using Cons.prems(4) by (auto simp: le_Suc_eq numeral_eq_Suc)
    define s1 where "s1 = s\<lparr>cdata := cdata s - 1, data_cnt := data_cntin s,
      data_cntin := data_cntin s + 1, tlresp_data_in := ds @ rest,
      network_cmd_out0 := network_cmd_out0 s @ [bits_get 511 0 d]\<rparr>"
    have "cdata s \<noteq> 1" using n Cons.prems(5) by auto
    then have step: "RespEngSM en sel0 d0 d1 d2 d3 s = Some s1"
      using Cons.prems by (simp add: RespEngSM_def get_data_step_def Let_def s1_def)
    obtain s' where s': "run_steps (RespEngSM en sel0 d0 d1 d2 d3) (length ds) s1 = Some s' \<and>
       smstate s' = GET_CMD \<and> tlresp s' = tlresp s1 \<and> tlresp_fifo_in s' = tlresp_fifo_in s1 \<and>
       tlresp_data_in s' = rest \<and> rtry_do_cmd_out s' = rtry_do_cmd_out s1 \<and>
       lookup_out s' = lookup_out s1 @ (if keeplookupentry s1 then [] else [localtag s1]) \<and>
       network_cmd_out0 s' = network_cmd_out0 s1 @ map (bits_get 511 0) ds"
      using Cons.IH [of s1] Cons.prems Cons by (auto simp: s1_def)
    show ?thesis by (rule exI [of _ s']) (use s' in \<open>simp add: step, simp add: s1_def\<close>)
  qed
qed

lemma table_data:
  assumes "smstate s = GET_DATA" "\<not> respdataflag s" "cdata_count s = 1" "cdata s = of_nat (flits_of dl)"
    and "\<forall>d \<in> {d0, d1, d2, d3}. unat (localtag s) < length d"
  shows "\<exists>s'. run_steps (RespEngSM en sel0 d0 d1 d2 d3) (flits_of dl) s = Some s' \<and>
     smstate s' = GET_CMD \<and> tlresp s' = tlresp s \<and> tlresp_fifo_in s' = tlresp_fifo_in s \<and>
     tlresp_data_in s' = tlresp_data_in s \<and> lookup_out s' = lookup_out s \<and>
     network_cmd_out0 s' = network_cmd_out0 s \<and>
     rtry_do_cmd_out s' = rtry_do_cmd_out s @
       map (\<lambda>d. d ! unat (localtag s)) (take (flits_of dl) [d0, d1, d2, d3])"
  using assms
  by (cases dl rule: dl_cases)
     (simp_all add: flits_of_values RespEngSM_def get_data_step_def Let_def run_steps_numeral)

section \<open>One transaction\<close>

lemma retry_cmd_write: "TLxCmdIsWrite (retry_cmd combo) = TLxCmdIsWrite (combo_cmd combo)"
  by (simp add: retry_cmd_def TLxCmdIsWrite_def setCappTagLocal_def setTLxCmdRespAnno_def bits_get_put_other)

text \<open>The first step of a transaction, with the names of the specification.\<close>

definition enter :: "resp_combo_t \<Rightarrow> resp_eng \<Rightarrow> resp_eng" where
  "enter combo s = s\<lparr>cmdf_cnt := cmdf_cntin s, cmdf_cntin := cmdf_cntin s + 1,
     tlresp_fifo_in := tl (tlresp_fifo_in s), tlresp := combo_resp combo,
     localtag := combo_tag combo, keeplookupentry := keeps_tag combo\<rparr>"

lemma get_cmd_action:
  assumes "clean (tlresp s)" "tlresp_fifo_in s = combo # rest"
  shows "get_cmd_step sel0 s = (let s = enter combo s in case action combo of
     To_retry \<Rightarrow>
       let s = s\<lparr>cdata := dl_count (getDl (combo_cmd combo)) (cdata s), cdata_count := 1,
                 cmdf_torty := cmdf_tortyin s, cmdf_tortyin := cmdf_tortyin s + 1,
                 rtry_do_cmd_out := rtry_do_cmd_out s @ [toOCxFlit (retry_cmd combo)]\<rparr>
       in if TLxCmdIsWrite (combo_cmd combo) then s\<lparr>respdataflag := False, smstate := GET_DATA\<rparr> else s
   | To_network_data \<Rightarrow>
       s\<lparr>respdataflag := True, cdata := dl_count (getTLRespDl (combo_resp combo)) (cdata s),
         cdata_count := 1, smstate := GET_DATA,
         network_cmd_out0 := network_cmd_out0 s @ [toOCxFlit (combo_resp combo)]\<rparr>
   | To_network \<Rightarrow>
       s\<lparr>lookup_out := lookup_out s @ [combo_tag combo],
         network_cmd_out0 := network_cmd_out0 s @ [toOCxFlit (combo_resp combo)]\<rparr>
   | Dropped \<Rightarrow> s)"
proof -
  let ?r = "bits_get 252 215 combo :: tlrflit_t"
  have resp: "setNetId (getNetId (combo_cmd combo)) (setRespOrigCappTag (getCappTagOrig (combo_cmd combo))
      (fromTLRespData ?r (tlresp s))) = combo_resp combo"
    using response_flit_clean [OF assms(1)] by (simp add: combo_resp_def response_flit_def)
  have dl: "getTLRespDl (fromTLRespData ?r (tlresp s)) = getTLRespDl (combo_resp combo)"
    "getTLRespDp (fromTLRespData ?r (tlresp s)) = getTLRespDp (combo_resp combo)"
    by (simp_all add: combo_resp_def response_flit_def response_fields getTLRespDl_def getTLRespDp_def
        setNetId_def setRespOrigCappTag_def fromTLRespData_bits bits_get_put_other)
       (rule bit_word_eqI; auto simp: bit_ranges)+
  have tag: "getRespCappTag (fromTLRespData ?r (tlresp s)) = combo_tag combo"
    by (simp add: combo_tag_def combo_resp_def response_fields)
  let ?s0 = "s\<lparr>cmdf_cnt := cmdf_cntin s, cmdf_cntin := cmdf_cntin s + 1, tlresp_fifo_in := rest\<rparr>"
  let ?sel = "getTLRespState 0 (combo_resp combo)"
  have s0: "tlresp ?s0 = tlresp s" by simp
  have enter: "?s0\<lparr>tlresp := combo_resp combo, localtag := combo_tag combo,
      keeplookupentry := getTLRespDl (combo_resp combo) \<noteq> getDl (combo_cmd combo) \<and>
        getTLRespDp (combo_resp combo) = 0\<rparr> = enter combo s"
    using assms(2) by (simp add: enter_def keeps_tag_def)
  have cmd: "(if TLRespIsXlateDone (combo_resp combo) then setTLxCmdRespAnno 0 (combo_cmd combo)
      else setTLxCmdRespAnno (getRespCode (combo_resp combo)) (combo_cmd combo)) =
      setTLxCmdRespAnno (if TLRespIsXlateDone (combo_resp combo) then 0
        else getRespCode (combo_resp combo)) (combo_cmd combo)"
    by simp
  show ?thesis
    unfolding get_cmd_step_def assms(2) list.case Let_def combo_cmd_def [symmetric] s0 resp dl tag enter
      cmd combo_tag_def [symmetric] retry_cmd_def [symmetric] retry_cmd_write getTLRespState_init [of sel0]
    by (cases "bit ?sel 0"; cases "bit ?sel 1"; cases "bit ?sel 2") (simp_all add: action_def Let_def)
qed

lemma resp_transaction:
  assumes "resp_queued [d0, d1, d2, d3] s (t # ts)"
  shows "\<exists>s'. run_steps (RespEngSM en sel0 d0 d1 d2 d3) (Suc (data_flits (fst t))) s = Some s' \<and>
    resp_queued [d0, d1, d2, d3] s' ts \<and> resp_seen s' = resp_effect [d0, d1, d2, d3] t (resp_seen s)"
proof -
  obtain combo ds where t: "t = (combo, ds)" by fastforce
  note q = assms [unfolded resp_queued_def t, simplified]
  have cl: "clean (combo_resp combo)" unfolding combo_resp_def by (rule clean_response [OF clean_zero])
  note step = get_cmd_action [of s combo "map fst ts" sel0]
  have run: "run_steps (RespEngSM en sel0 d0 d1 d2 d3) (Suc n) s =
      run_steps (RespEngSM en sel0 d0 d1 d2 d3) n (get_cmd_step sel0 s)" for n
    using q by (simp add: RespEngSM_def)
  show ?thesis
  proof (cases "action combo")
    case To_retry
    show ?thesis
    proof (cases "TLxCmdIsWrite (combo_cmd combo)")
      case True
      let ?dl = "getDl (combo_cmd combo)"
      let ?s1 = "get_cmd_step sel0 s"
      have s1: "smstate ?s1 = GET_DATA" "\<not> respdataflag ?s1" "cdata_count ?s1 = 1"
          "cdata ?s1 = of_nat (flits_of ?dl)" "localtag ?s1 = combo_tag combo"
          "tlresp ?s1 = combo_resp combo" "tlresp_fifo_in ?s1 = map fst ts"
          "tlresp_data_in ?s1 = concat (map snd ts)" "lookup_out ?s1 = lookup_out s"
          "rtry_do_cmd_out ?s1 = rtry_do_cmd_out s @ [toOCxFlit (retry_cmd combo)]"
          "network_cmd_out0 ?s1 = network_cmd_out0 s"
        using step q To_retry True by (simp_all add: Let_def enter_def dl_count_flits resp_ok_def)
      have "\<forall>d \<in> {d0, d1, d2, d3}. unat (localtag ?s1) < length d"
        using q To_retry True s1(5) by (simp add: resp_ok_def)
      from table_data [OF s1(1-4) this, of en sel0] obtain s' where
        s': "run_steps (RespEngSM en sel0 d0 d1 d2 d3) (flits_of ?dl) ?s1 = Some s'"
          "smstate s' = GET_CMD" "tlresp s' = tlresp ?s1" "tlresp_fifo_in s' = tlresp_fifo_in ?s1"
          "tlresp_data_in s' = tlresp_data_in ?s1" "lookup_out s' = lookup_out ?s1"
          "network_cmd_out0 s' = network_cmd_out0 ?s1"
          "rtry_do_cmd_out s' = rtry_do_cmd_out ?s1 @
             map (\<lambda>d. d ! unat (localtag ?s1)) (take (flits_of ?dl) [d0, d1, d2, d3])"
        by blast
      have n: "data_flits combo = flits_of ?dl" using To_retry True by (simp add: data_flits_def)
      show ?thesis unfolding t fst_conv run n
        by (rule exI [of _ s'])
           (use q s1 s' To_retry n cl in \<open>simp add: resp_queued_def resp_seen_def\<close>)
    next
      case False
      then show ?thesis unfolding t fst_conv run
        using step q To_retry cl
        by (simp add: data_flits_def resp_queued_def resp_seen_def Let_def enter_def resp_ok_def)
    qed
  next
    case To_network_data
    let ?dl = "getTLRespDl (combo_resp combo)"
    let ?s1 = "get_cmd_step sel0 s"
    have len: "length ds = flits_of ?dl"
      using q To_network_data by (simp add: resp_ok_def data_flits_def)
    have s1: "smstate ?s1 = GET_DATA" "respdataflag ?s1" "cdata ?s1 = of_nat (length ds)"
        "localtag ?s1 = combo_tag combo" "keeplookupentry ?s1 = keeps_tag combo"
        "tlresp ?s1 = combo_resp combo" "tlresp_fifo_in ?s1 = map fst ts"
        "tlresp_data_in ?s1 = ds @ concat (map snd ts)" "lookup_out ?s1 = lookup_out s"
        "rtry_do_cmd_out ?s1 = rtry_do_cmd_out s"
        "network_cmd_out0 ?s1 = network_cmd_out0 s @ [toOCxFlit (combo_resp combo)]"
      using step q To_network_data by (simp_all add: Let_def enter_def dl_count_flits len)
    have "ds \<noteq> []" "length ds \<le> 4" using len by (auto simp: flits_of_def split: if_splits)
    from host_data [OF s1(1,2) this s1(3,8), of en sel0 d0 d1 d2 d3] obtain s' where
      s': "run_steps (RespEngSM en sel0 d0 d1 d2 d3) (length ds) ?s1 = Some s'"
        "smstate s' = GET_CMD" "tlresp s' = tlresp ?s1" "tlresp_fifo_in s' = tlresp_fifo_in ?s1"
        "tlresp_data_in s' = concat (map snd ts)" "rtry_do_cmd_out s' = rtry_do_cmd_out ?s1"
        "lookup_out s' = lookup_out ?s1 @ (if keeplookupentry ?s1 then [] else [localtag ?s1])"
        "network_cmd_out0 s' = network_cmd_out0 ?s1 @ map (bits_get 511 0) ds"
      by blast
    have n: "data_flits combo = length ds" using To_network_data len by (simp add: data_flits_def)
    show ?thesis unfolding t fst_conv run n
      by (rule exI [of _ s'])
         (use q s1 s' To_network_data cl in \<open>simp add: resp_queued_def resp_seen_def\<close>)
  next
    case To_network
    then show ?thesis unfolding t fst_conv run
      using step q cl
      by (simp add: data_flits_def resp_queued_def resp_seen_def Let_def enter_def resp_ok_def)
  next
    case Dropped
    then show ?thesis unfolding t fst_conv run
      using step q cl
      by (simp add: data_flits_def resp_queued_def resp_seen_def Let_def enter_def resp_ok_def)
  qed
qed

interpretation resp: engine "RespEngSM en sel0 d0 d1 d2 d3" "resp_queued [d0, d1, d2, d3]" resp_seen
    "resp_effect [d0, d1, d2, d3]" "\<lambda>t. Suc (data_flits (fst t))" for en sel0 d0 d1 d2 d3
  by unfold_locales (rule resp_transaction)

section \<open>The tags\<close>

lemma tag_of_nat: "n < 2 ^ 16 \<Longrightarrow> unat (of_nat n :: tag) = n"
  by (simp only: unat_of_nat) (simp add: take_bit_nat_eq_self)

lemma init_run:
  "smstate s = INIT \<Longrightarrow> capptag_count s = of_nat k \<Longrightarrow> k + n \<le> 0x200 \<Longrightarrow>
   run_steps (RespEngSM 1 sel0 d0 d1 d2 d3) n s =
     Some (s\<lparr>capptag_count := of_nat (k + n), lookup_out := lookup_out s @ map of_nat [k..<k + n]\<rparr>)"
proof (induction n arbitrary: s k)
  case (Suc n)
  define s1 where "s1 = s\<lparr>lookup_out := lookup_out s @ [of_nat k], capptag_count := of_nat (Suc k)\<rparr>"
  have "(of_nat k :: tag) \<noteq> 0x200"
  proof
    assume "(of_nat k :: tag) = 0x200"
    then have "unat (of_nat k :: tag) = 0x200" by simp
    then show False using Suc.prems(3) tag_of_nat [of k] by simp
  qed
  then have step: "RespEngSM 1 sel0 d0 d1 d2 d3 s = Some s1"
    using Suc.prems(1,2) by (simp add: RespEngSM_def init_step_def s1_def add.commute)
  have "[k..<k + Suc n] = k # [Suc k..<Suc k + n]" by (simp add: upt_conv_Cons)
  then show ?case
    using Suc.IH [of s1 "Suc k"] Suc.prems by (simp add: step s1_def)
qed simp

lemma init_done:
  assumes "smstate s = INIT" "capptag_count s = 1"
  shows "run_steps (RespEngSM 1 sel0 d0 d1 d2 d3) 512 s =
    Some (s\<lparr>capptag_count := 0x201, smstate := GET_CMD, lookup_out := lookup_out s @ map of_nat [1..<513]\<rparr>)"
proof -
  let ?step = "RespEngSM 1 sel0 d0 d1 d2 d3"
  have "run_steps ?step 511 s = Some (s\<lparr>capptag_count := 0x200, lookup_out := lookup_out s @ map of_nat [1..<512]\<rparr>)"
    using init_run [of s 1 511 sel0 d0 d1 d2 d3] assms by simp
  moreover have "[1..<513] = [1..<512] @ [512 :: nat]" using upt_Suc_append [of 1 512] by simp
  ultimately have "run_steps ?step (511 + 1) s =
      Some (s\<lparr>capptag_count := 0x201, smstate := GET_CMD, lookup_out := lookup_out s @ map of_nat [1..<513]\<rparr>)"
    unfolding run_steps_add using assms(1) by (simp add: RespEngSM_def init_step_def)
  then show ?thesis by simp
qed

section \<open>Properties\<close>

text \<open>
  C7: whatever responses are queued, the engine works them off in order, in a number of
  steps that only depends on them, and writes exactly what the specification of each
  transaction says: the tags it gives back, the commands and data it retries, and the
  responses and data it sends to the network.
\<close>

theorem resp_engine_refines:
  assumes "resp_queued [d0, d1, d2, d3] s ts"
  shows "\<exists>s'. run_steps (RespEngSM en sel0 d0 d1 d2 d3) (\<Sum>t\<leftarrow>ts. Suc (data_flits (fst t))) s = Some s' \<and>
     resp_queued [d0, d1, d2, d3] s' [] \<and>
     resp_seen s' = fold (resp_effect [d0, d1, d2, d3]) ts (resp_seen s)"
  using assms by (rule resp.works_off)

text \<open>An acknowledged write and a read that brings one data flit.\<close>

definition demo_combo :: "opcode_t \<Rightarrow> tag \<Rightarrow> resp_combo_t" where
  "demo_combo opc t = bits_put 252 245 opc (bits_put 244 229 t 0)"

lemma demo_combo_fields:
  "getRespOpcode (combo_resp (demo_combo opc t)) = opc" "combo_tag (demo_combo opc t) = t"
  "getRespCode (combo_resp (demo_combo opc t)) = 0"
  "getTLRespDl (combo_resp (demo_combo opc t)) = 0" "getDl (combo_cmd (demo_combo opc t)) = 0"
proof -
  show "getRespOpcode (combo_resp (demo_combo opc t)) = opc" "combo_tag (demo_combo opc t) = t"
    "getRespCode (combo_resp (demo_combo opc t)) = 0"
    by (rule bit_word_eqI; auto simp: combo_tag_def combo_resp_def response_fields demo_combo_def
        bit_ranges dest: bit_imp_le_length)+
  show "getTLRespDl (combo_resp (demo_combo opc t)) = 0"
    by (rule bit_word_eqI) (auto simp: combo_resp_def response_flit_def fromTLRespData_bits flit_defs
        demo_combo_def bit_ranges)
  show "getDl (combo_cmd (demo_combo opc t)) = 0"
    by (rule bit_word_eqI) (auto simp: combo_cmd_def fromTLxCStore_bits flit_defs demo_combo_def bit_ranges
        OCxFlit_def)
qed

lemma demo_combo_action:
  "action (demo_combo TL_WR_RESPOK t) = To_network" "action (demo_combo TL_RD_RESPOK t) = To_network_data"
proof -
  have "getTLRespState 0 (combo_resp (demo_combo opc t)) = resp_state opc 0"
    if "opc \<in> {TL_RD_RESPOK, TL_RD_RESPFAIL, TL_WR_RESPOK, TL_WR_RESPFAIL, TL_XLATE_DONE}" for opc
    using that unfolding getTLRespState_opcode demo_combo_fields
    by (auto simp: resp_state_def opcode_defs Let_def bits_get_def)
  then show "action (demo_combo TL_WR_RESPOK t) = To_network"
    "action (demo_combo TL_RD_RESPOK t) = To_network_data"
    by (simp_all add: action_def resp_state_def opcode_defs Let_def)
qed

lemma resp_engine_refines_witness:
  "\<exists>s'. run_steps (RespEngSM 1 0 [] [] [] []) 3
       (init_resp\<lparr>smstate := GET_CMD, tlresp_data_in := [77],
          tlresp_fifo_in := [demo_combo TL_WR_RESPOK 5, demo_combo TL_RD_RESPOK 9]\<rparr>) = Some s' \<and>
     lookup_out s' = [5, 9] \<and> length (network_cmd_out0 s') = 3"
proof -
  let ?ts = "[(demo_combo TL_WR_RESPOK 5, []), (demo_combo TL_RD_RESPOK 9, [77])]"
  let ?s = "init_resp\<lparr>smstate := GET_CMD, tlresp_data_in := [77],
    tlresp_fifo_in := [demo_combo TL_WR_RESPOK 5, demo_combo TL_RD_RESPOK 9]\<rparr>"
  have n: "data_flits (demo_combo TL_WR_RESPOK 5) = 0" "data_flits (demo_combo TL_RD_RESPOK 9) = 1"
    by (simp_all add: data_flits_def demo_combo_action demo_combo_fields flits_of_values)
  have "resp_queued [[], [], [], []] ?s ?ts"
    by (simp add: resp_queued_def init_resp_def clean_zero resp_ok_def demo_combo_action n)
  from resp_engine_refines [OF this, of 1 0] show ?thesis
    by (simp add: n resp_seen_def demo_combo_action demo_combo_fields keeps_tag_def init_resp_def
        numeral_3_eq_3) auto
qed

text \<open>
  once enabled, the engine hands out the tags 1 to 512, each once, in 512 steps, and
  only then serves responses.  The last of them is not an index of the tables, which have
  512 entries.
\<close>

theorem init_tags:
  "\<exists>s. run_steps (RespEngSM 1 sel0 d0 d1 d2 d3) 512 init_resp = Some s \<and> smstate s = GET_CMD \<and>
     lookup_out s = map of_nat [1..<513] \<and> distinct (lookup_out s) \<and>
     [t \<leftarrow> lookup_out s. \<not> unat t < LOOKUPSIZE] = [0x200]"
proof -
  note run = init_done [of init_resp sel0 d0 d1 d2 d3]
  have upt: "[1..<513] = [1..<512] @ [512 :: nat]" using upt_Suc_append [of 1 512] by simp
  have small: "unat (of_nat n :: tag) = n" if "n \<in> set [1..<513]" for n
    using that by (intro tag_of_nat) simp
  have "inj_on (of_nat :: nat \<Rightarrow> tag) (set [1..<513])"
    by (rule inj_onI) (metis small)
  then have dist: "distinct (map of_nat [1..<513] :: tag list)" by (simp add: distinct_map)
  have "[n \<leftarrow> [1..<512]. \<not> unat (of_nat n :: tag) < LOOKUPSIZE] = []"
    using small by (auto simp: filter_empty_conv LOOKUPSIZE_def)
  then have "[t \<leftarrow> map of_nat [1..<513] :: tag list. \<not> unat t < LOOKUPSIZE] = [0x200]"
    unfolding upt by (simp add: filter_map comp_def LOOKUPSIZE_def)
  then show ?thesis using run dist by (simp add: init_resp_def)
qed

text \<open>
  C37: a write that the host acknowledges in two parts gives its tag back twice: the flag
  that keeps the tag of a partial response is computed, but only honoured for read data.
\<close>

theorem split_write_frees_twice:
  assumes "resp_queued [d0, d1, d2, d3] s [(c1, []), (c2, [])]"
    and "action c1 = To_network" "action c2 = To_network" "keeps_tag c1" "combo_tag c2 = combo_tag c1"
  shows "\<exists>s'. run_steps (RespEngSM en sel0 d0 d1 d2 d3) 2 s = Some s' \<and>
     lookup_out s' = lookup_out s @ [combo_tag c1, combo_tag c1]"
  using resp.works_off [OF assms(1), of en sel0] assms(2,3,5)
  by (auto simp: data_flits_def resp_seen_def numeral_2_eq_2)

lemma split_write_frees_twice_witness:
  "\<exists>s'. run_steps (RespEngSM 1 0 [] [] [] []) 2 (init_resp\<lparr>smstate := GET_CMD,
       tlresp_fifo_in := replicate 2 (bits_put 224 223 (1 :: 2 word) (demo_combo TL_WR_RESPOK 5))\<rparr>) = Some s' \<and>
     lookup_out s' = [5, 5]"
proof -
  let ?c = "bits_put 224 223 (1 :: 2 word) (demo_combo TL_WR_RESPOK 5)"
  let ?s = "init_resp\<lparr>smstate := GET_CMD, tlresp_fifo_in := replicate 2 ?c\<rparr>"
  have f: "getRespOpcode (combo_resp ?c) = TL_WR_RESPOK" "combo_tag ?c = 5"
      "getTLRespDl (combo_resp ?c) = 1" "getTLRespDp (combo_resp ?c) = 0" "getDl (combo_cmd ?c) = 0"
      "getRespCode (combo_resp ?c) = 0"
    by (rule bit_word_eqI; auto simp: combo_tag_def combo_resp_def combo_cmd_def response_fields
        response_flit_def fromTLRespData_bits fromTLxCStore_bits flit_defs demo_combo_def OCxFlit_def
        bit_ranges dest: bit_imp_le_length)+
  have a: "action ?c = To_network" "keeps_tag ?c"
    unfolding action_def getTLRespState_opcode f keeps_tag_def
    by (simp_all add: opcode_defs Let_def bits_get_def)
  have "resp_queued [[], [], [], []] ?s [(?c, []), (?c, [])]"
    by (simp add: resp_queued_def init_resp_def clean_zero resp_ok_def a numeral_2_eq_2)
  from split_write_frees_twice [OF this a(1) a(1) a(2) refl, of 1 0] show ?thesis
    by (simp add: f init_resp_def)
qed

text \<open>
  The bad data indicator of a data flit never reaches the network, and the data of a
  retried write under tag 512 lies outside of the tables.
\<close>

lemma bdi_is_lost:
  "tlresp_data_in s = d # ds \<Longrightarrow> respdataflag s \<Longrightarrow>
   get_data_step d0 d1 d2 d3 (s\<lparr>tlresp_data_in := setBdi b d # ds\<rparr>) = get_data_step d0 d1 d2 d3 s"
proof -
  have "bits_get 511 0 (setBdi b d) = (bits_get 511 0 d :: ocxflit)"
    by (simp add: setBdi_def bits_get_put_other)
  then show "tlresp_data_in s = d # ds \<Longrightarrow> respdataflag s \<Longrightarrow> ?thesis"
    by (simp add: get_data_step_def Let_def)
qed

lemma last_tag_out_of_tables:
  "\<not> respdataflag s \<Longrightarrow> localtag s = 0x200 \<Longrightarrow> length d0 = LOOKUPSIZE \<Longrightarrow> length d1 = LOOKUPSIZE \<Longrightarrow>
   length d2 = LOOKUPSIZE \<Longrightarrow> length d3 = LOOKUPSIZE \<Longrightarrow> get_data_step d0 d1 d2 d3 s = None"
  by (simp add: get_data_step_def LOOKUPSIZE_def Let_def)

end
