(* ===== verification/TFRty.thy ===== *)
theory TFRty imports TFEngine "HOL-Library.Multiset" begin

text \<open>
  \<^verbatim>\<open>memory_egress/ocx_rty_eng.cpp\<close>: the engine that re-issues failed commands.  Commands
  that were refused with the retry code wait in a FIFO, the jail, until the translation the
  host works on is finished; others are re-issued at once.
\<close>

section \<open>Model\<close>

datatype rty_sm = START | DATA | JAIL_DATA

text \<open>
  The static variables, streams and counter ports of \<^verbatim>\<open>RtyEngSM\<close>.  The variables
  \<^verbatim>\<open>timeout_hack\<close> and \<^verbatim>\<open>counter\<close> and the argument \<^verbatim>\<open>timeout\<close> are never used.
\<close>

record rty_eng =
  rsmstate :: rty_sm
  rtycmd :: flit
  rdata :: dlsize_t
  xlate_lock :: bool
  jaildata :: bool
  cmdf_rty_inin :: count_t
  cmdf_jail_inin :: count_t
  cmdf_rty_outin :: count_t
  cmdf_jail_outin :: count_t
  data_rty_inin :: count_t
  data_rty_outin :: count_t
  data_jail_inin :: count_t
  data_jail_outin :: count_t
  cmdf_rty_in :: count_t
  cmdf_jail_in :: count_t
  cmdf_rty_out :: count_t
  cmdf_jail_out :: count_t
  data_rty_in :: count_t
  data_rty_out :: count_t
  data_jail_in :: count_t
  data_jail_out :: count_t
  input_fifo :: "ocxflit list"
  rty_jail :: "ocxflit list"
  output_fifo :: "ocxflit list"

definition init_rty :: rty_eng where
  "init_rty = \<lparr> rsmstate = START, rtycmd = OCxFlit, rdata = 0, xlate_lock = False, jaildata = False,
     cmdf_rty_inin = 0, cmdf_jail_inin = 0, cmdf_rty_outin = 0, cmdf_jail_outin = 0,
     data_rty_inin = 0, data_rty_outin = 0, data_jail_inin = 0, data_jail_outin = 0,
     cmdf_rty_in = 0, cmdf_jail_in = 0, cmdf_rty_out = 0, cmdf_jail_out = 0,
     data_rty_in = 0, data_rty_out = 0, data_jail_in = 0, data_jail_out = 0,
     input_fifo = [], rty_jail = [], output_fifo = [] \<rparr>"

text \<open>\<open>START\<close>: a command from the input, else, unless locked, one from the jail.\<close>

definition start_step :: "rty_eng \<Rightarrow> rty_eng" where
  "start_step s =
     (case input_fifo s of
        fl # rest \<Rightarrow>
          let cmd = fromOCxFlit fl (rtycmd s);
              s = s\<lparr>input_fifo := rest, rtycmd := cmd, cmdf_rty_in := cmdf_rty_inin s,
                    cmdf_rty_inin := cmdf_rty_inin s + 1, rdata := dl_count (getDl cmd) (rdata s)\<rparr>
          in
          if getTLxCmdRespAnno cmd = TLRESP_CODE_RTY then
            let s = s\<lparr>xlate_lock := True, cmdf_jail_in := cmdf_jail_inin s,
                      cmdf_jail_inin := cmdf_jail_inin s + 1,
                      rty_jail := rty_jail s @ [toOCxFlit cmd]\<rparr>
            in if TLxCmdIsWrite cmd then s\<lparr>jaildata := True, rsmstate := DATA\<rparr> else s
          else
            let s = (if TLxCmdIsWrite cmd then s\<lparr>jaildata := False, rsmstate := DATA\<rparr> else s)
            in s\<lparr>xlate_lock := False, cmdf_rty_out := cmdf_rty_outin s,
                 cmdf_rty_outin := cmdf_rty_outin s + 1, output_fifo := output_fifo s @ [toOCxFlit cmd]\<rparr>
      | [] \<Rightarrow>
          (case rty_jail s of
             fl # rest \<Rightarrow>
               if \<not> xlate_lock s then
                 let cmd = fromOCxFlit fl (rtycmd s);
                     s = s\<lparr>rty_jail := rest, rtycmd := cmd, cmdf_jail_out := cmdf_jail_outin s,
                           cmdf_jail_outin := cmdf_jail_outin s + 1,
                           rdata := dl_count (getDl cmd) (rdata s)\<rparr>;
                     s = (if TLxCmdIsWrite cmd then s\<lparr>rsmstate := JAIL_DATA\<rparr> else s)
                 in s\<lparr>output_fifo := output_fifo s @ [toOCxFlit cmd]\<rparr>
               else s
           | [] \<Rightarrow> s))"

text \<open>\<open>DATA\<close>: a data flit follows its command.  Its output counter is one ahead of the others.\<close>

definition data_step :: "rty_eng \<Rightarrow> rty_eng" where
  "data_step s =
     (case input_fifo s of
        [] \<Rightarrow> s
      | d # rest \<Rightarrow>
          let s = s\<lparr>input_fifo := rest\<rparr>;
              s = (if rdata s = 1 then s\<lparr>rsmstate := START\<rparr> else s\<lparr>rdata := rdata s - 1\<rparr>);
              s = s\<lparr>data_rty_in := data_rty_inin s, data_rty_inin := data_rty_inin s + 1\<rparr>
          in if jaildata s
             then s\<lparr>data_jail_in := data_jail_inin s, data_jail_inin := data_jail_inin s + 1,
                    rty_jail := rty_jail s @ [d]\<rparr>
             else s\<lparr>data_rty_out := data_rty_outin s + 1, data_rty_outin := data_rty_outin s + 1,
                    output_fifo := output_fifo s @ [d]\<rparr>)"

definition jail_data_step :: "rty_eng \<Rightarrow> rty_eng" where
  "jail_data_step s =
     (case rty_jail s of
        [] \<Rightarrow> s
      | d # rest \<Rightarrow>
          let s = (if rdata s = 1 then s\<lparr>rsmstate := START\<rparr> else s\<lparr>rdata := rdata s - 1\<rparr>)
          in s\<lparr>data_jail_out := data_jail_outin s, data_jail_outin := data_jail_outin s + 1,
               rty_jail := rest, output_fifo := output_fifo s @ [d]\<rparr>)"

definition RtyEngSM :: "cutimer_t \<Rightarrow> rty_eng \<Rightarrow> rty_eng" where
  "RtyEngSM timeout s =
     (case rsmstate s of START \<Rightarrow> start_step s | DATA \<Rightarrow> data_step s | JAIL_DATA \<Rightarrow> jail_data_step s)"

section \<open>Packets\<close>

text \<open>
  The specification: packets, that is commands with their data, are moved as a whole.  A
  packet with the retry code goes to the jail and locks it, another goes out and unlocks it.
\<close>

type_synonym packet = "ocxflit \<times> ocxflit list"

definition as_flit :: "ocxflit \<Rightarrow> flit" where
  "as_flit fl = fromOCxFlit fl OCxFlit"

definition refused :: "packet \<Rightarrow> bool" where
  "refused p \<longleftrightarrow> getTLxCmdRespAnno (as_flit (fst p)) = TLRESP_CODE_RTY"

definition packet_ok :: "packet \<Rightarrow> bool" where
  "packet_ok p \<longleftrightarrow> length (snd p) =
     (if TLxCmdIsWrite (as_flit (fst p)) then flits_of (getDl (as_flit (fst p))) else 0)"

definition flits :: "packet list \<Rightarrow> ocxflit list" where
  "flits ps = concat (map (\<lambda>(c, ds). c # ds) ps)"

lemma flits_simps [simp]:
  "flits [] = []" "flits (p # ps) = fst p # snd p @ flits ps" "flits (ps @ qs) = flits ps @ flits qs"
  by (simp_all add: flits_def split_beta)

type_synonym rty_seen = "ocxflit list \<times> ocxflit list \<times> bool"

fun arrive :: "packet \<Rightarrow> rty_seen \<Rightarrow> rty_seen" where
  "arrive p (out, jail, lock) =
     (if refused p then (out, jail @ flits [p], True) else (out @ flits [p], jail, False))"

definition rty_seen :: "rty_eng \<Rightarrow> rty_seen" where
  "rty_seen s = (output_fifo s, rty_jail s, xlate_lock s)"

definition arriving :: "rty_eng \<Rightarrow> packet list \<Rightarrow> bool" where
  "arriving s ps \<longleftrightarrow> rsmstate s = START \<and> input_fifo s = flits ps \<and> (\<forall>p \<in> set ps. packet_ok p)"

definition leaving :: "rty_eng \<Rightarrow> packet list \<Rightarrow> bool" where
  "leaving s ps \<longleftrightarrow> rsmstate s = START \<and> input_fifo s = [] \<and> \<not> xlate_lock s \<and>
     rty_jail s = flits ps \<and> (\<forall>p \<in> set ps. packet_ok p)"

text \<open>The persistent command object only adds the indicator bit, which no field contains.\<close>

lemma cmd_bits: "hi < 512 \<Longrightarrow> bits_get hi lo (fromOCxFlit fl f) = bits_get hi lo (as_flit fl)"
  by (rule bit_word_eqI) (auto simp: as_flit_def fromOCxFlit_def bit_ranges)

lemma cmd_fields:
  "getDl (fromOCxFlit fl f) = getDl (as_flit fl)"
  "getTLxCmdRespAnno (fromOCxFlit fl f) = getTLxCmdRespAnno (as_flit fl)"
  "TLxCmdIsWrite (fromOCxFlit fl f) = TLxCmdIsWrite (as_flit fl)"
  by (simp_all add: getDl_def getTLxCmdRespAnno_def TLxCmdIsWrite_def cmd_bits)

section \<open>The data of a packet\<close>

lemma small_count:
  "ds \<noteq> [] \<Longrightarrow> length (d # ds) \<le> 4 \<Longrightarrow> (of_nat (length (d # ds)) :: 3 word) \<noteq> 1"
proof -
  assume "ds \<noteq> []" "length (d # ds) \<le> 4"
  then have "length ds \<in> {1, 2, 3}" by (auto simp: le_Suc_eq numeral_eq_Suc)
  then show ?thesis by auto
qed

lemma data_run:
  assumes "rsmstate s = DATA" "ds \<noteq> []" "length ds \<le> 4" "rdata s = of_nat (length ds)"
    and "input_fifo s = ds @ rest"
  shows "\<exists>s'. run_steps (\<lambda>s. Some (RtyEngSM t s)) (length ds) s = Some s' \<and> rsmstate s' = START \<and>
     input_fifo s' = rest \<and> xlate_lock s' = xlate_lock s \<and>
     output_fifo s' = output_fifo s @ (if jaildata s then [] else ds) \<and>
     rty_jail s' = rty_jail s @ (if jaildata s then ds else [])"
  using assms
proof (induction ds arbitrary: s)
  case (Cons d ds)
  show ?case
  proof (cases "ds = []")
    case True
    then show ?thesis using Cons.prems by (simp add: RtyEngSM_def data_step_def Let_def)
  next
    case False
    let ?s1 = "data_step s"
    have "rdata s \<noteq> 1" using small_count [OF False] Cons.prems(3,4) by simp
    then have s1: "rsmstate ?s1 = DATA" "rdata ?s1 = of_nat (length ds)" "input_fifo ?s1 = ds @ rest"
        "xlate_lock ?s1 = xlate_lock s" "jaildata ?s1 = jaildata s"
        "output_fifo ?s1 = output_fifo s @ (if jaildata s then [] else [d])"
        "rty_jail ?s1 = rty_jail s @ (if jaildata s then [d] else [])"
      using Cons.prems by (simp_all add: data_step_def Let_def)
    from Cons.IH [OF s1(1) False _ s1(2,3)] Cons.prems(3) obtain s' where
      s': "run_steps (\<lambda>s. Some (RtyEngSM t s)) (length ds) ?s1 = Some s'" "rsmstate s' = START"
        "input_fifo s' = rest" "xlate_lock s' = xlate_lock ?s1"
        "output_fifo s' = output_fifo ?s1 @ (if jaildata ?s1 then [] else ds)"
        "rty_jail s' = rty_jail ?s1 @ (if jaildata ?s1 then ds else [])" by auto
    show ?thesis
      by (rule exI [of _ s']) (use s' s1 Cons.prems(1) in \<open>simp add: RtyEngSM_def\<close>)
  qed
qed simp

lemma jail_data_run:
  assumes "rsmstate s = JAIL_DATA" "ds \<noteq> []" "length ds \<le> 4" "rdata s = of_nat (length ds)"
    and "rty_jail s = ds @ rest"
  shows "\<exists>s'. run_steps (\<lambda>s. Some (RtyEngSM t s)) (length ds) s = Some s' \<and> rsmstate s' = START \<and>
     input_fifo s' = input_fifo s \<and> xlate_lock s' = xlate_lock s \<and>
     output_fifo s' = output_fifo s @ ds \<and> rty_jail s' = rest"
  using assms
proof (induction ds arbitrary: s)
  case (Cons d ds)
  show ?case
  proof (cases "ds = []")
    case True
    then show ?thesis using Cons.prems by (simp add: RtyEngSM_def jail_data_step_def Let_def)
  next
    case False
    let ?s1 = "jail_data_step s"
    have "rdata s \<noteq> 1" using small_count [OF False] Cons.prems(3,4) by simp
    then have s1: "rsmstate ?s1 = JAIL_DATA" "rdata ?s1 = of_nat (length ds)" "rty_jail ?s1 = ds @ rest"
        "xlate_lock ?s1 = xlate_lock s" "input_fifo ?s1 = input_fifo s"
        "output_fifo ?s1 = output_fifo s @ [d]"
      using Cons.prems by (simp_all add: jail_data_step_def Let_def)
    from Cons.IH [OF s1(1) False _ s1(2,3)] Cons.prems(3) obtain s' where
      s': "run_steps (\<lambda>s. Some (RtyEngSM t s)) (length ds) ?s1 = Some s'" "rsmstate s' = START"
        "input_fifo s' = input_fifo ?s1" "xlate_lock s' = xlate_lock ?s1"
        "output_fifo s' = output_fifo ?s1 @ ds" "rty_jail s' = rest" by auto
    show ?thesis
      by (rule exI [of _ s']) (use s' s1 Cons.prems(1) in \<open>simp add: RtyEngSM_def\<close>)
  qed
qed simp

lemma packet_data:
  assumes "packet_ok p"
  shows "TLxCmdIsWrite (as_flit (fst p)) \<longleftrightarrow> snd p \<noteq> []" "length (snd p) \<le> 4"
    "TLxCmdIsWrite (as_flit (fst p)) \<Longrightarrow>
       dl_count (getDl (as_flit (fst p))) n = of_nat (length (snd p))"
  using assms by (auto simp: packet_ok_def dl_count_flits flits_of_def split: if_splits)

section \<open>One packet\<close>

lemma arrive_transaction:
  assumes "arriving s (p # ps)"
  shows "\<exists>s'. run_steps (\<lambda>s. Some (RtyEngSM t s)) (Suc (length (snd p))) s = Some s' \<and> arriving s' ps \<and>
     rty_seen s' = arrive p (rty_seen s)"
proof -
  note q = assms [unfolded arriving_def, simplified]
  note pd = packet_data [of p]
  let ?s1 = "start_step s"
  have run: "run_steps (\<lambda>s. Some (RtyEngSM t s)) (Suc n) s = run_steps (\<lambda>s. Some (RtyEngSM t s)) n ?s1" for n
    using q by (simp add: RtyEngSM_def)
  have s1: "input_fifo ?s1 = snd p @ flits ps" "xlate_lock ?s1 = refused p"
      "output_fifo ?s1 = output_fifo s @ (if refused p then [] else [fst p])"
      "rty_jail ?s1 = rty_jail s @ (if refused p then [fst p] else [])"
      "rsmstate ?s1 = (if snd p = [] then START else DATA)"
    using q pd by (auto simp: start_step_def Let_def cmd_fields refused_def)
  show ?thesis
  proof (cases "snd p = []")
    case True
    then show ?thesis unfolding run
      using q s1 by (simp add: arriving_def rty_seen_def)
  next
    case False
    have "rdata ?s1 = of_nat (length (snd p))" "jaildata ?s1 = refused p"
      using q pd False by (simp_all add: start_step_def Let_def cmd_fields refused_def)
    with s1 False q pd data_run [of ?s1 "snd p" "flits ps" t] obtain s' where
      s': "run_steps (\<lambda>s. Some (RtyEngSM t s)) (length (snd p)) ?s1 = Some s'" "rsmstate s' = START"
        "input_fifo s' = flits ps" "xlate_lock s' = refused p"
        "output_fifo s' = output_fifo ?s1 @ (if refused p then [] else snd p)"
        "rty_jail s' = rty_jail ?s1 @ (if refused p then snd p else [])" by auto
    show ?thesis unfolding run
      by (rule exI [of _ s']) (use s' s1 q in \<open>simp add: arriving_def rty_seen_def\<close>)
  qed
qed

lemma leave_transaction:
  assumes "leaving s (p # ps)"
  shows "\<exists>s'. run_steps (\<lambda>s. Some (RtyEngSM t s)) (Suc (length (snd p))) s = Some s' \<and> leaving s' ps \<and>
     output_fifo s' = output_fifo s @ flits [p]"
proof -
  note q = assms [unfolded leaving_def, simplified]
  note pd = packet_data [of p]
  let ?s1 = "start_step s"
  have run: "run_steps (\<lambda>s. Some (RtyEngSM t s)) (Suc n) s = run_steps (\<lambda>s. Some (RtyEngSM t s)) n ?s1" for n
    using q by (simp add: RtyEngSM_def)
  have s1: "input_fifo ?s1 = []" "\<not> xlate_lock ?s1" "output_fifo ?s1 = output_fifo s @ [fst p]"
      "rty_jail ?s1 = snd p @ flits ps" "rsmstate ?s1 = (if snd p = [] then START else JAIL_DATA)"
    using q pd by (auto simp: start_step_def Let_def cmd_fields)
  show ?thesis
  proof (cases "snd p = []")
    case True
    then show ?thesis unfolding run using q s1 by (simp add: leaving_def)
  next
    case False
    have "rdata ?s1 = of_nat (length (snd p))"
      using q pd False by (simp add: start_step_def Let_def cmd_fields)
    with s1 False q pd jail_data_run [of ?s1 "snd p" "flits ps" t] obtain s' where
      s': "run_steps (\<lambda>s. Some (RtyEngSM t s)) (length (snd p)) ?s1 = Some s'" "rsmstate s' = START"
        "input_fifo s' = []" "\<not> xlate_lock s'" "output_fifo s' = output_fifo ?s1 @ snd p"
        "rty_jail s' = flits ps" by auto
    show ?thesis unfolding run
      by (rule exI [of _ s']) (use s' s1 q in \<open>simp add: leaving_def\<close>)
  qed
qed

interpretation rty_in: engine "\<lambda>s. Some (RtyEngSM t s)" arriving rty_seen arrive "\<lambda>p. Suc (length (snd p))" for t
  by unfold_locales (rule arrive_transaction)

interpretation rty_out: engine "\<lambda>s. Some (RtyEngSM t s)" leaving output_fifo "\<lambda>p out. out @ flits [p]"
    "\<lambda>p. Suc (length (snd p))" for t
  by unfold_locales (rule leave_transaction)

lemma fold_arrive:
  "fold arrive ps (out, jail, lock) =
     (out @ flits (filter (Not \<circ> refused) ps), jail @ flits (filter refused ps),
      if ps = [] then lock else refused (last ps))"
  by (induction ps arbitrary: out jail lock) auto

section \<open>Any interleaving with the producer\<close>

datatype rty_event = Clock | Push ocxflit

fun on_event :: "cutimer_t \<Rightarrow> rty_event \<Rightarrow> rty_eng \<Rightarrow> rty_eng" where
  "on_event t Clock s = RtyEngSM t s"
| "on_event t (Push fl) s = s\<lparr>input_fifo := input_fifo s @ [fl]\<rparr>"

fun pushed :: "rty_event list \<Rightarrow> ocxflit list" where
  "pushed [] = []"
| "pushed (Clock # es) = pushed es"
| "pushed (Push fl # es) = fl # pushed es"

definition in_flight :: "rty_eng \<Rightarrow> ocxflit multiset" where
  "in_flight s = mset (output_fifo s) + mset (rty_jail s) + mset (input_fifo s)"

lemma RtyEngSM_in_flight: "in_flight (RtyEngSM t s) = in_flight s"
proof (cases "rsmstate s")
  case START
  then show ?thesis
    by (simp add: RtyEngSM_def start_step_def in_flight_def Let_def split: list.splits)
next
  case DATA
  then show ?thesis
    by (simp add: RtyEngSM_def data_step_def in_flight_def Let_def split: list.splits)
next
  case JAIL_DATA
  then show ?thesis
    by (simp add: RtyEngSM_def jail_data_step_def in_flight_def Let_def split: list.splits)
qed

lemma fold_in_flight: "in_flight (fold (on_event t) es s) = in_flight s + mset (pushed es)"
proof (induction es arbitrary: s rule: pushed.induct)
  case (3 fl es)
  show ?case by (simp add: 3) (simp add: in_flight_def)
qed (simp_all add: RtyEngSM_in_flight)

section \<open>Properties\<close>

text \<open>
  C9: whatever packets are queued, the engine moves each as a whole and in order: refused
  ones into the jail, which they lock, the others to the output, after which the jail is
  unlocked.
\<close>

theorem rty_engine_refines:
  assumes "arriving s ps"
  shows "\<exists>s'. run_steps (\<lambda>s. Some (RtyEngSM t s)) (\<Sum>p\<leftarrow>ps. Suc (length (snd p))) s = Some s' \<and>
     arriving s' [] \<and>
     output_fifo s' = output_fifo s @ flits (filter (Not \<circ> refused) ps) \<and>
     rty_jail s' = rty_jail s @ flits (filter refused ps) \<and>
     xlate_lock s' = (if ps = [] then xlate_lock s else refused (last ps))"
  using rty_in.works_off [OF assms, of t] by (auto simp: rty_seen_def fold_arrive)

text \<open>A refused write with one data flit, and a command that is retried at once.\<close>

definition demo_cmd :: "code_t \<Rightarrow> bool \<Rightarrow> ocxflit" where
  "demo_cmd anno wr = toOCxFlit (setTLxCmdRespAnno anno (setOpcode (if wr then 0x20 else 0x10) OCxFlit))"

lemma demo_cmd_fields:
  "getTLxCmdRespAnno (as_flit (demo_cmd anno wr)) = anno"
  "TLxCmdIsWrite (as_flit (demo_cmd anno wr)) = wr" "getDl (as_flit (demo_cmd anno wr)) = 0"
proof -
  show "getTLxCmdRespAnno (as_flit (demo_cmd anno wr)) = anno" "getDl (as_flit (demo_cmd anno wr)) = 0"
    by (rule bit_word_eqI; auto simp: as_flit_def demo_cmd_def flit_defs OCxFlit_def bit_ranges
        dest: bit_imp_le_length)+
  have "(bits_get 509 509 (as_flit (demo_cmd anno wr)) :: 1 word) =
      bits_get 5 5 (if wr then 0x20 else 0x10 :: 8 word)"
    by (rule bit_word_eqI) (auto simp: as_flit_def demo_cmd_def flit_defs OCxFlit_def bit_ranges)
  then show "TLxCmdIsWrite (as_flit (demo_cmd anno wr)) = wr"
    by (simp add: TLxCmdIsWrite_def bits_get_def)
qed

definition demo_packets :: "packet list" where
  "demo_packets = [(demo_cmd TLRESP_CODE_RTY True, [7]), (demo_cmd 0 False, [])]"

lemma demo_packets_ok:
  "arriving (init_rty\<lparr>input_fifo := flits demo_packets\<rparr>) demo_packets"
  "refused (demo_cmd TLRESP_CODE_RTY True, [7])" "\<not> refused (demo_cmd 0 False, [])"
  by (simp_all add: arriving_def demo_packets_def init_rty_def packet_ok_def refused_def demo_cmd_fields
      flits_of_values TLRESP_CODE_RTY_def)

lemma rty_engine_refines_witness:
  "\<exists>s. run_steps (\<lambda>s. Some (RtyEngSM 0 s)) 3 (init_rty\<lparr>input_fifo := flits demo_packets\<rparr>) = Some s \<and>
     output_fifo s = [demo_cmd 0 False] \<and> rty_jail s = [demo_cmd TLRESP_CODE_RTY True, 7] \<and> \<not> xlate_lock s"
  using rty_engine_refines [OF demo_packets_ok(1), of 0] demo_packets_ok(2,3)
  by (simp add: demo_packets_def init_rty_def numeral_3_eq_3)

text \<open>
  once a packet that is not refused comes last, every packet leaves the engine: first
  those that were not refused, then the jail in its order, and nothing stays behind.
\<close>

theorem jail_is_released:
  assumes "arriving s ps" "rty_jail s = []" "ps \<noteq> []" "\<not> refused (last ps)"
  shows "\<exists>n s'. run_steps (\<lambda>s. Some (RtyEngSM t s)) n s = Some s' \<and>
     output_fifo s' = output_fifo s @ flits (filter (Not \<circ> refused) ps) @ flits (filter refused ps) \<and>
     rty_jail s' = [] \<and> input_fifo s' = []"
proof -
  from rty_in.works_off [OF assms(1), of t] assms(2-4) obtain m s1 where
    s1: "run_steps (\<lambda>s. Some (RtyEngSM t s)) m s = Some s1" "arriving s1 []"
      "output_fifo s1 = output_fifo s @ flits (filter (Not \<circ> refused) ps)"
      "rty_jail s1 = flits (filter refused ps)" "\<not> xlate_lock s1"
    by (auto simp: rty_seen_def fold_arrive)
  have "leaving s1 (filter refused ps)"
    using s1 assms(1) by (auto simp: leaving_def arriving_def)
  from rty_out.works_off [OF this, of t] obtain n s2 where
    s2: "run_steps (\<lambda>s. Some (RtyEngSM t s)) n s1 = Some s2" "leaving s2 []"
      "output_fifo s2 = fold (\<lambda>p out. out @ flits [p]) (filter refused ps) (output_fifo s1)" by blast
  have "fold (\<lambda>p out. out @ flits [p]) qs out = out @ flits qs" for qs out
    by (induction qs arbitrary: out) auto
  then show ?thesis using s1 s2
    by (intro exI [of _ "m + n"] exI [of _ s2]) (simp add: run_steps_add leaving_def)
qed

lemma jail_is_released_witness:
  "\<exists>n s. run_steps (\<lambda>s. Some (RtyEngSM 0 s)) n (init_rty\<lparr>input_fifo := flits demo_packets\<rparr>) = Some s \<and>
     output_fifo s = [demo_cmd 0 False, demo_cmd TLRESP_CODE_RTY True, 7] \<and> rty_jail s = []"
  using jail_is_released [OF demo_packets_ok(1), of 0] demo_packets_ok(2,3)
  by (auto simp: demo_packets_def init_rty_def)

text \<open>
  if the last packet was refused, the engine stands still from then on, with the refused
  packets in the jail, until another command arrives: a jail is only opened by a later
  command, not by time.
\<close>

theorem locked_jail_waits:
  assumes "arriving s ps" "ps \<noteq> []" "refused (last ps)"
  shows "\<exists>m s'. (\<forall>n. run_steps (\<lambda>s. Some (RtyEngSM t s)) (m + n) s = Some s') \<and>
     rty_jail s' = rty_jail s @ flits (filter refused ps)"
proof -
  from rty_in.works_off [OF assms(1), of t] assms(2,3) obtain m s1 where
    s1: "run_steps (\<lambda>s. Some (RtyEngSM t s)) m s = Some s1" "arriving s1 []" "xlate_lock s1"
      "rty_jail s1 = rty_jail s @ flits (filter refused ps)"
    by (auto simp: rty_seen_def fold_arrive)
  have "RtyEngSM t s1 = s1"
    using s1(2,3) by (simp add: RtyEngSM_def start_step_def arriving_def split: list.splits)
  then have "run_steps (\<lambda>s. Some (RtyEngSM t s)) n s1 = Some s1" for n by (induction n) auto
  then show ?thesis using s1(1,4) by (auto simp: run_steps_add)
qed

lemma locked_jail_waits_witness:
  "\<exists>m s. (\<forall>n. run_steps (\<lambda>s. Some (RtyEngSM 0 s)) (m + n)
       (init_rty\<lparr>input_fifo := flits [(demo_cmd TLRESP_CODE_RTY True, [7])]\<rparr>) = Some s) \<and>
     rty_jail s = [demo_cmd TLRESP_CODE_RTY True, 7]"
proof -
  let ?ps = "[(demo_cmd TLRESP_CODE_RTY True, [7])]"
  have "arriving (init_rty\<lparr>input_fifo := flits ?ps\<rparr>) ?ps"
    using demo_packets_ok(1) by (simp add: arriving_def demo_packets_def init_rty_def)
  from locked_jail_waits [OF this, of 0] demo_packets_ok(2) show ?thesis
    by (simp add: init_rty_def)
qed

text \<open>
  under any interleaving of the clock with the producer of commands no flit is lost,
  duplicated or altered: what was pushed is what was put out, waits in the jail or waits at
  the input.
\<close>

theorem no_flit_lost:
  "in_flight (fold (on_event t) es init_rty) = mset (pushed es)"
  using fold_in_flight [of t es init_rty] by (simp add: in_flight_def init_rty_def)

text \<open>The counter of data flits put out is one ahead of the other counters.\<close>

lemma data_counters:
  assumes "rsmstate s = DATA" "input_fifo s = d # ds" "\<not> jaildata s" "data_rty_inin s = n" "data_rty_outin s = n"
  shows "data_rty_in (RtyEngSM t s) = n" "data_rty_out (RtyEngSM t s) = n + 1"
  using assms by (simp_all add: RtyEngSM_def data_step_def Let_def)

end
