(* ===== verification/TFPackets.thy ===== *)
theory TFPackets imports TFRty begin

text \<open>
  The retry engine of \<^verbatim>\<open>ocx_rty_eng.cpp\<close> while its input arrives: the producer may stop in
  the middle of a packet, and the engine turns to the jail whenever its input is empty.  The
  abstract machine moves whole packets; the engine simulates it under every interleaving of
  the clock with the producer, and comes to rest.
\<close>

section \<open>The abstract machine\<close>

record pk =
  pk_out :: "packet list"
  pk_jail :: "packet list"
  pk_lock :: bool
  pk_todo :: "packet list"

definition pk_init :: "packet list \<Rightarrow> pk" where
  "pk_init ps = \<lparr> pk_out = [], pk_jail = [], pk_lock = False, pk_todo = ps \<rparr>"

inductive pk_step :: "pk \<Rightarrow> pk \<Rightarrow> bool" where
  jailed: "pk_todo a = p # ps \<Longrightarrow> refused p \<Longrightarrow>
    pk_step a (a\<lparr>pk_jail := pk_jail a @ [p], pk_lock := True, pk_todo := ps\<rparr>)"
| passed: "pk_todo a = p # ps \<Longrightarrow> \<not> refused p \<Longrightarrow>
    pk_step a (a\<lparr>pk_out := pk_out a @ [p], pk_lock := False, pk_todo := ps\<rparr>)"
| released: "pk_jail a = p # ps \<Longrightarrow> \<not> pk_lock a \<Longrightarrow>
    pk_step a (a\<lparr>pk_jail := ps, pk_out := pk_out a @ [p]\<rparr>)"

inductive_cases pk_stepE: "pk_step a a'"

text \<open>
  What it keeps of the packets \<open>ps\<close> it was given: the order of the refused ones and the
  order of the others, and the lock tells of the last one taken.
\<close>

definition pk_inv :: "packet list \<Rightarrow> pk \<Rightarrow> bool" where
  "pk_inv ps a \<longleftrightarrow> (\<exists>taken. ps = taken @ pk_todo a \<and>
     filter (Not \<circ> refused) (pk_out a) = filter (Not \<circ> refused) taken \<and>
     filter refused (pk_out a) @ pk_jail a = filter refused taken \<and>
     pk_lock a = (taken \<noteq> [] \<and> refused (last taken)))"

lemma pk_inv_init: "pk_inv ps (pk_init ps)"
  by (simp add: pk_inv_def pk_init_def)

lemma pk_step_inv:
  assumes "pk_step a a'" "pk_inv ps a"
  shows "pk_inv ps a'"
proof -
  obtain taken where t: "ps = taken @ pk_todo a"
      "filter (Not \<circ> refused) (pk_out a) = filter (Not \<circ> refused) taken"
      "filter refused (pk_out a) @ pk_jail a = filter refused taken"
      "pk_lock a = (taken \<noteq> [] \<and> refused (last taken))"
    using assms(2) unfolding pk_inv_def by blast
  from assms(1) show ?thesis
  proof cases
    case (jailed p todo)
    with t show ?thesis unfolding pk_inv_def
      by (intro exI [of _ "taken @ [p]"]) (simp flip: append_assoc)
  next
    case (passed p todo)
    then show ?thesis using t unfolding pk_inv_def
      by (intro exI [of _ "taken @ [p]"]) simp
  next
    case (released p jail)
    have "refused p"
      using arg_cong [OF t(3), of "\<lambda>xs. \<forall>x \<in> set xs. refused x"] released(2) by simp
    with released t show ?thesis unfolding pk_inv_def
      by (intro exI [of _ taken]) simp
  qed
qed

section \<open>The simulation\<close>

text \<open>
  \<open>sim s future a\<close>: a packet counts as moved when its command is; \<open>ds\<close> is the data still to
  come, from the input or, when it is released, from the jail.  \<open>future\<close> is what the
  producer has yet to write.
\<close>

definition sim :: "rty_eng \<Rightarrow> ocxflit list \<Rightarrow> pk \<Rightarrow> bool" where
  "sim s future a \<longleftrightarrow> xlate_lock s = pk_lock a \<and>
     (\<forall>p \<in> set (pk_todo a) \<union> set (pk_jail a). packet_ok p) \<and>
     (\<exists>ds. length ds \<le> 4 \<and> (ds = [] \<longleftrightarrow> rsmstate s = START) \<and> (ds \<noteq> [] \<longrightarrow> rdata s = of_nat (length ds)) \<and>
       (case rsmstate s of
          START \<Rightarrow> output_fifo s = flits (pk_out a) \<and> rty_jail s = flits (pk_jail a) \<and>
            input_fifo s @ future = flits (pk_todo a)
        | DATA \<Rightarrow> input_fifo s @ future = ds @ flits (pk_todo a) \<and>
            (if jaildata s then output_fifo s = flits (pk_out a) \<and> rty_jail s @ ds = flits (pk_jail a)
             else output_fifo s @ ds = flits (pk_out a) \<and> rty_jail s = flits (pk_jail a))
        | JAIL_DATA \<Rightarrow> input_fifo s @ future = flits (pk_todo a) \<and>
            output_fifo s @ ds = flits (pk_out a) \<and> rty_jail s = ds @ flits (pk_jail a)))"

lemma sim_push: "sim s (fl # future) a \<Longrightarrow> sim (s\<lparr>input_fifo := input_fifo s @ [fl]\<rparr>) future a"
  unfolding sim_def by (cases "rsmstate s"; cases "jaildata s") simp_all

lemma flits_Cons: "fl # rest = flits ps \<Longrightarrow> \<exists>ds qs. ps = (fl, ds) # qs \<and> rest = ds @ flits qs"
  by (cases ps) auto

text \<open>What the first step of a packet does.\<close>

lemma start_input:
  assumes "rsmstate s = START" "input_fifo s = fl # rest" "packet_ok (fl, ds)"
  shows "rsmstate (start_step s) = (if ds = [] then START else DATA)"
    "input_fifo (start_step s) = rest" "xlate_lock (start_step s) = refused (fl, ds)"
    "output_fifo (start_step s) = output_fifo s @ (if refused (fl, ds) then [] else [fl])"
    "rty_jail (start_step s) = rty_jail s @ (if refused (fl, ds) then [fl] else [])"
    "ds \<noteq> [] \<Longrightarrow> rdata (start_step s) = of_nat (length ds)"
    "ds \<noteq> [] \<Longrightarrow> jaildata (start_step s) = refused (fl, ds)"
  using assms packet_data [OF assms(3), simplified]
  by (auto simp: start_step_def Let_def cmd_fields refused_def)

lemma start_jail:
  assumes "rsmstate s = START" "input_fifo s = []" "rty_jail s = fl # rest" "\<not> xlate_lock s" "packet_ok (fl, ds)"
  shows "rsmstate (start_step s) = (if ds = [] then START else JAIL_DATA)"
    "input_fifo (start_step s) = []" "\<not> xlate_lock (start_step s)"
    "output_fifo (start_step s) = output_fifo s @ [fl]" "rty_jail (start_step s) = rest"
    "ds \<noteq> [] \<Longrightarrow> rdata (start_step s) = of_nat (length ds)"
  using assms packet_data [OF assms(5), simplified]
  by (auto simp: start_step_def Let_def cmd_fields)

lemma sim_start:
  assumes "sim s future a" "rsmstate s = START"
  shows "\<exists>a'. (a' = a \<or> pk_step a a') \<and> sim (start_step s) future a'"
proof -
  have q: "output_fifo s = flits (pk_out a)" "rty_jail s = flits (pk_jail a)"
      "input_fifo s @ future = flits (pk_todo a)" "xlate_lock s = pk_lock a"
      "\<forall>p \<in> set (pk_todo a) \<union> set (pk_jail a). packet_ok p"
    using assms by (auto simp: sim_def)
  show ?thesis
  proof (cases "input_fifo s")
    case (Cons fl rest)
    obtain ds ps where p: "pk_todo a = (fl, ds) # ps" "rest @ future = ds @ flits ps"
      using flits_Cons [of fl "rest @ future" "pk_todo a"] q(3) Cons by auto
    have ok: "packet_ok (fl, ds)" using q(5) p(1) by simp
    note st = start_input [OF assms(2) Cons ok] and len = packet_data(2) [OF ok, simplified]
    show ?thesis
    proof (cases "refused (fl, ds)")
      case True
      let ?a = "a\<lparr>pk_jail := pk_jail a @ [(fl, ds)], pk_lock := True, pk_todo := ps\<rparr>"
      have "sim (start_step s) future ?a"
        unfolding sim_def using True st len q p by (cases "ds = []"; intro conjI exI [of _ ds]; auto)
      with pk_step.jailed [OF p(1) True] show ?thesis by blast
    next
      case False
      let ?a = "a\<lparr>pk_out := pk_out a @ [(fl, ds)], pk_lock := False, pk_todo := ps\<rparr>"
      have "sim (start_step s) future ?a"
        unfolding sim_def using False st len q p by (cases "ds = []"; intro conjI exI [of _ ds]; auto)
      with pk_step.passed [OF p(1) False] show ?thesis by blast
    qed
  next
    case Nil
    show ?thesis
    proof (cases "rty_jail s = [] \<or> xlate_lock s")
      case True
      then have "start_step s = s" using Nil by (auto simp: start_step_def split: list.splits)
      then show ?thesis using assms(1) by auto
    next
      case False
      then obtain fl rest where j: "rty_jail s = fl # rest" by (cases "rty_jail s") auto
      then obtain ds ps where p: "pk_jail a = (fl, ds) # ps" "rest = ds @ flits ps"
        using flits_Cons [of fl rest "pk_jail a"] q(2) by auto
      have ok: "packet_ok (fl, ds)" using q(5) p(1) by simp
      have unlocked: "\<not> xlate_lock s" using False by simp
      note st = start_jail [OF assms(2) Nil j unlocked ok] and len = packet_data(2) [OF ok, simplified]
      let ?a = "a\<lparr>pk_jail := ps, pk_out := pk_out a @ [(fl, ds)]\<rparr>"
      have "sim (start_step s) future ?a"
        unfolding sim_def using st len q p Nil unlocked by (cases "ds = []"; intro conjI exI [of _ ds]; auto)
      with pk_step.released [OF p(1)] False q(4) show ?thesis by blast
    qed
  qed
qed

text \<open>One data flit: the count is exact, so the state machine returns with the last one.\<close>

lemma count_down:
  assumes "ds \<noteq> []" "length ds \<le> 4" "rdata s = of_nat (length ds)"
  obtains d ds' where "ds = d # ds'" "rdata s = 1 \<longleftrightarrow> ds' = []" "rdata s - 1 = of_nat (length ds')"
    "length ds' \<le> 4"
proof -
  obtain d ds' where d: "ds = d # ds'" using assms(1) by (cases ds) auto
  have "rdata s = 1 \<longleftrightarrow> ds' = []"
    using small_count [of ds' d] assms(2,3) d by (cases "ds' = []") auto
  then show thesis using that [OF d] assms(2,3) d by simp
qed

lemma sim_data:
  assumes "sim s future a" "rsmstate s = DATA"
  shows "sim (data_step s) future a"
proof (cases "input_fifo s")
  case Nil
  then have "data_step s = s" by (simp add: data_step_def)
  then show ?thesis using assms(1) by simp
next
  case (Cons fl rest)
  obtain ds where ds: "ds \<noteq> []" "length ds \<le> 4" "rdata s = of_nat (length ds)"
      "input_fifo s @ future = ds @ flits (pk_todo a)"
      "if jaildata s then output_fifo s = flits (pk_out a) \<and> rty_jail s @ ds = flits (pk_jail a)
       else output_fifo s @ ds = flits (pk_out a) \<and> rty_jail s = flits (pk_jail a)"
    using assms by (auto simp: sim_def)
  obtain d ds' where d': "ds = d # ds'" "rdata s = 1 \<longleftrightarrow> ds' = []" "rdata s - 1 = of_nat (length ds')"
      "length ds' \<le> 4"
    using count_down [OF ds(1-3)] by metis
  then have d: "ds = fl # ds'" "rest @ future = ds' @ flits (pk_todo a)" using ds(4) Cons by simp_all
  have st: "rsmstate (data_step s) = (if ds' = [] then START else DATA)" "input_fifo (data_step s) = rest"
      "xlate_lock (data_step s) = xlate_lock s" "jaildata (data_step s) = jaildata s"
      "output_fifo (data_step s) = output_fifo s @ (if jaildata s then [] else [fl])"
      "rty_jail (data_step s) = rty_jail s @ (if jaildata s then [fl] else [])"
      "ds' \<noteq> [] \<Longrightarrow> rdata (data_step s) = of_nat (length ds')"
    using assms(2) Cons d'(2,3) by (simp_all add: data_step_def Let_def)
  have inv: "xlate_lock s = pk_lock a" "\<forall>p \<in> set (pk_todo a) \<union> set (pk_jail a). packet_ok p"
    using assms(1) by (simp_all add: sim_def)
  show ?thesis
    unfolding sim_def using inv st d d'(4) ds(5)
    by (cases "ds' = []"; cases "jaildata s"; intro conjI exI [of _ ds']; simp)
qed

lemma sim_jail_data:
  assumes "sim s future a" "rsmstate s = JAIL_DATA"
  shows "sim (jail_data_step s) future a"
proof -
  obtain ds where ds: "ds \<noteq> []" "length ds \<le> 4" "rdata s = of_nat (length ds)"
      "input_fifo s @ future = flits (pk_todo a)" "output_fifo s @ ds = flits (pk_out a)"
      "rty_jail s = ds @ flits (pk_jail a)"
    using assms by (auto simp: sim_def)
  obtain d ds' where d: "ds = d # ds'" "rdata s = 1 \<longleftrightarrow> ds' = []" "rdata s - 1 = of_nat (length ds')"
      "length ds' \<le> 4"
    using count_down [OF ds(1-3)] by metis
  show ?thesis
    using assms ds(4-6) d unfolding sim_def
    by (intro conjI exI [of _ ds']) (auto simp: jail_data_step_def Let_def)
qed

lemma sim_clock:
  assumes "sim s future a"
  shows "\<exists>a'. (a' = a \<or> pk_step a a') \<and> sim (RtyEngSM t s) future a'"
proof (cases "rsmstate s")
  case START
  then show ?thesis using sim_start [OF assms] by (simp add: RtyEngSM_def)
next
  case DATA
  then show ?thesis using sim_data [OF assms] by (auto simp: RtyEngSM_def)
next
  case JAIL_DATA
  then show ?thesis using sim_jail_data [OF assms] by (auto simp: RtyEngSM_def)
qed

lemma sim_events:
  "sim s (pushed es @ future) a \<Longrightarrow> pk_inv ps a \<Longrightarrow>
   \<exists>a'. pk_inv ps a' \<and> sim (fold (on_event t) es s) future a'"
proof (induction es arbitrary: s a rule: pushed.induct)
  case 1
  then show ?case by auto
next
  case (2 es)
  then obtain a' where a': "a' = a \<or> pk_step a a'" "sim (RtyEngSM t s) (pushed es @ future) a'"
    using sim_clock [of s "pushed es @ future" a t] by auto
  then have "pk_inv ps a'" using pk_step_inv 2 by blast
  from "2.IH" [OF a'(2) this] show ?case by simp
next
  case (3 fl es)
  then show ?case using sim_push [of s fl "pushed es @ future" a] by simp
qed

lemma sim_init: "\<forall>p \<in> set ps. packet_ok p \<Longrightarrow> sim init_rty (flits ps) (pk_init ps)"
  by (simp add: sim_def init_rty_def pk_init_def)

section \<open>Coming to rest\<close>

text \<open>At rest: nothing at the input, and the jail is empty or locked.\<close>

definition at_rest :: "rty_eng \<Rightarrow> bool" where
  "at_rest s \<longleftrightarrow> rsmstate s = START \<and> input_fifo s = [] \<and> (rty_jail s = [] \<or> xlate_lock s)"

lemma at_rest_stays: "at_rest s \<Longrightarrow> RtyEngSM t s = s"
  by (auto simp: at_rest_def RtyEngSM_def start_step_def split: list.splits)

definition load :: "rty_eng \<Rightarrow> nat" where
  "load s = 2 * length (input_fifo s) + length (rty_jail s)"

lemma load_decreases:
  assumes "sim s [] a" "\<not> at_rest s"
  shows "load (RtyEngSM t s) < load s"
proof (cases "rsmstate s")
  case START
  then show ?thesis using assms(2)
    by (auto simp: at_rest_def load_def RtyEngSM_def start_step_def Let_def split: list.splits)
next
  case DATA
  then have "input_fifo s \<noteq> []" using assms(1) by (auto simp: sim_def)
  then show ?thesis using DATA
    by (auto simp: load_def RtyEngSM_def data_step_def Let_def split: list.splits)
next
  case JAIL_DATA
  then have "rty_jail s \<noteq> []" using assms(1) by (auto simp: sim_def)
  then show ?thesis using JAIL_DATA
    by (auto simp: load_def RtyEngSM_def jail_data_step_def Let_def split: list.splits)
qed

lemma comes_to_rest:
  "sim s [] a \<Longrightarrow> pk_inv ps a \<Longrightarrow> load s \<le> n \<Longrightarrow>
   \<exists>a'. pk_inv ps a' \<and> sim ((RtyEngSM t ^^ n) s) [] a' \<and> at_rest ((RtyEngSM t ^^ n) s)"
proof (induction n arbitrary: s a)
  case 0
  then have "at_rest s" using load_decreases [of s a t] by fastforce
  then show ?case using 0 by auto
next
  case (Suc n)
  show ?case
  proof (cases "at_rest s")
    case True
    have "(RtyEngSM t ^^ k) s = s" for k by (induction k) (simp_all add: at_rest_stays [OF True])
    then show ?thesis using True Suc.prems by (metis (no_types))
  next
    case False
    obtain a' where a': "a' = a \<or> pk_step a a'" "sim (RtyEngSM t s) [] a'"
      using sim_clock [OF Suc.prems(1)] by blast
    have "pk_inv ps a'" using a'(1) pk_step_inv Suc.prems(2) by blast
    moreover have "load (RtyEngSM t s) \<le> n" using load_decreases [OF Suc.prems(1) False, of t] Suc.prems(3) by simp
    ultimately show ?thesis using Suc.IH [OF a'(2)] by (simp only: funpow_Suc_right o_apply)
  qed
qed

lemma rest_result:
  assumes "sim s [] a" "pk_inv ps a" "at_rest s"
  shows "\<exists>outs jail. output_fifo s = flits outs \<and> rty_jail s = flits jail \<and>
    filter (Not \<circ> refused) outs = filter (Not \<circ> refused) ps \<and> filter refused outs @ jail = filter refused ps \<and>
    (jail \<noteq> [] \<longrightarrow> refused (last ps))"
proof -
  have a: "output_fifo s = flits (pk_out a)" "rty_jail s = flits (pk_jail a)" "xlate_lock s = pk_lock a"
      "flits (pk_todo a) = []"
    using assms(1,3) by (auto simp: sim_def at_rest_def)
  then have "pk_todo a = []" by (cases "pk_todo a") auto
  then have i: "filter (Not \<circ> refused) (pk_out a) = filter (Not \<circ> refused) ps"
      "filter refused (pk_out a) @ pk_jail a = filter refused ps" "pk_lock a \<longrightarrow> refused (last ps)"
    using assms(2) by (auto simp: pk_inv_def)
  have "pk_jail a \<noteq> [] \<longrightarrow> pk_lock a"
    using assms(3) a(2,3) by (cases "pk_jail a") (auto simp: at_rest_def)
  then show ?thesis using a i by blast
qed

lemma load_bound: "load (fold (on_event t) es init_rty) \<le> 2 * length (pushed es)"
proof -
  let ?s = "fold (on_event t) es init_rty"
  have "in_flight ?s = mset (pushed es)"
    using fold_in_flight [of t es init_rty] by (simp add: in_flight_def init_rty_def)
  then have "size (in_flight ?s) = length (pushed es)" by simp
  then show ?thesis by (simp add: in_flight_def load_def)
qed

lemma interleaved_rest:
  assumes "\<forall>p \<in> set ps. packet_ok p" "pushed es = flits ps" "2 * length (flits ps) \<le> n"
    and "s = (RtyEngSM t ^^ n) (fold (on_event t) es init_rty)"
  shows "at_rest s \<and> (\<exists>outs jail. output_fifo s = flits outs \<and> rty_jail s = flits jail \<and>
    filter (Not \<circ> refused) outs = filter (Not \<circ> refused) ps \<and> filter refused outs @ jail = filter refused ps \<and>
    (jail \<noteq> [] \<longrightarrow> refused (last ps)))"
proof -
  obtain a where a: "pk_inv ps a" "sim (fold (on_event t) es init_rty) [] a"
    using sim_events [of init_rty es "[]" "pk_init ps" ps t] sim_init [OF assms(1)] pk_inv_init assms(2)
    by auto
  have "load (fold (on_event t) es init_rty) \<le> n"
    using load_bound [of t es] assms(2,3) by simp
  from comes_to_rest [OF a(2,1) this, of t] rest_result show ?thesis unfolding assms(4) by blast
qed

section \<open>Properties\<close>

text \<open>
  C10: however the writes of the producer and the clock interleave, a bounded number of clock
  steps after the last write the engine is at rest: whole packets have left, refused ones in
  their order and the others in theirs, and packets are left in the jail only if the last
  packet was refused.
\<close>

theorem packets_whole:
  assumes "\<forall>p \<in> set ps. packet_ok p" "pushed es = flits ps" "2 * length (flits ps) \<le> n"
    and "s = (RtyEngSM t ^^ n) (fold (on_event t) es init_rty)"
  shows "at_rest s \<and> (\<exists>outs jail. output_fifo s = flits outs \<and> rty_jail s = flits jail \<and>
    filter (Not \<circ> refused) outs = filter (Not \<circ> refused) ps \<and> filter refused outs @ jail = filter refused ps \<and>
    (jail \<noteq> [] \<longrightarrow> refused (last ps)))"
  using assms by (rule interleaved_rest)

text \<open>
  A refused write whose data arrives late, a command that is retried at once, which opens
  the jail, and the engine serving the jail before the next command comes.
\<close>

lemma packets_whole_witness:
  "\<exists>s. s = (RtyEngSM 0 ^^ 8) (fold (on_event 0) [Push (demo_cmd TLRESP_CODE_RTY True), Clock, Clock, Push 7,
       Push (demo_cmd 0 False), Clock, Clock, Clock, Push (demo_cmd 0 False)] init_rty) \<and>
     at_rest s \<and> rty_jail s = [] \<and> length (output_fifo s) = 4"
proof -
  let ?es = "[Push (demo_cmd TLRESP_CODE_RTY True), Clock, Clock, Push 7, Push (demo_cmd 0 False), Clock,
    Clock, Clock, Push (demo_cmd 0 False)]"
  let ?ps = "demo_packets @ [(demo_cmd 0 False, [])]"
  define s where "s = (RtyEngSM 0 ^^ 8) (fold (on_event 0) ?es init_rty)"
  have ok: "\<forall>p \<in> set ?ps. packet_ok p" using demo_packets_ok(1) by (auto simp: arriving_def demo_packets_def)
  have p: "pushed ?es = flits ?ps" "2 * length (flits ?ps) \<le> 8" by (simp_all add: demo_packets_def)
  from packets_whole [OF ok p s_def] demo_packets_ok(2,3) obtain outs where
    s: "at_rest s" "output_fifo s = flits outs" "rty_jail s = []"
      "filter (Not \<circ> refused) outs = filter (Not \<circ> refused) ?ps" "filter refused outs = filter refused ?ps"
    by (auto simp: demo_packets_def)
  have "length (flits outs) = length (flits (filter refused outs)) + length (flits (filter (Not \<circ> refused) outs))"
    by (induction outs) auto
  then have "length (output_fifo s) = 4"
    unfolding s(2,4,5) using demo_packets_ok(2,3) by (simp add: demo_packets_def)
  then show ?thesis using s(1,3) s_def by blast
qed

end
