(* ===== verification/TFLkFlit.thy ===== *)
theory TFLkFlit imports TFFlit begin

text \<open>
  \<^verbatim>\<open>afu/thymesisflow/hls_modules/memory_egress_lookup/ocx_flit.cpp\<close>: the copy of the class
  \<^verbatim>\<open>OCxFlit\<close> the lookup module is built from.  Every method is defined here from this copy,
  with the prefix \<open>lk_\<close>; the lemmas compare the two copies: three methods differ, the two
  that move a stored command (\<^verbatim>\<open>pgsize\<close> instead of the network id) and the classification
  of a response; all others compute the same.
\<close>

named_theorems lk_defs \<open>the accessors of a flit in the copy of the lookup module\<close>

section \<open>Whole flits\<close>

definition lk_OCxFlit :: flit where "lk_OCxFlit = 0"

definition lk_fromOCxFlit :: "ocxflit \<Rightarrow> flit \<Rightarrow> flit" where [lk_defs]:
  "lk_fromOCxFlit fl f = bits_put 511 0 (bits_get 511 0 fl :: ocxflit) f"

definition lk_toOCxFlit :: "flit \<Rightarrow> ocxflit" where [lk_defs]:
  "lk_toOCxFlit f = bits_get 511 0 f"

definition lk_fromOCxBdiFlit :: "ocxflitbdi_t \<Rightarrow> flit \<Rightarrow> flit" where [lk_defs]:
  "lk_fromOCxBdiFlit fl f = fl"

definition lk_toOCxBdiFlit :: "flit \<Rightarrow> ocxflitbdi_t" where [lk_defs]:
  "lk_toOCxBdiFlit f = f"

definition lk_setBdi :: "valid_t \<Rightarrow> flit \<Rightarrow> flit" where [lk_defs]:
  "lk_setBdi bdi f = bits_put 512 512 bdi f"

section \<open>Responses of the host\<close>

definition lk_fromTLRespData :: "tlrflit_t \<Rightarrow> flit \<Rightarrow> flit" where [lk_defs]:
  "lk_fromTLRespData fl f =
     (let f = bits_put 511 504 (bits_get 37 30 fl :: 8 word) f;
          f = bits_put 503 488 (bits_get 29 14 fl :: 16 word) f;
          f = bits_put 487 484 (bits_get 13 10 fl :: 4 word) f;
          f = bits_put 483 482 (bits_get 9 8 fl :: 2 word) f;
          f = bits_put 481 480 (bits_get 7 6 fl :: 2 word) f
      in bits_put 479 474 (bits_get 5 0 fl :: 6 word) f)"

definition lk_toTLRespData :: "tlrflit_t \<Rightarrow> flit \<Rightarrow> tlrflit_t" where [lk_defs]:
  "lk_toTLRespData fl0 f =
     (let fl = bits_put 37 30 (bits_get 511 504 f :: 8 word) fl0;
          fl = bits_put 29 14 (bits_get 503 488 f :: 16 word) fl;
          fl = bits_put 13 10 (bits_get 487 484 f :: 4 word) fl;
          fl = bits_put 9 8 (bits_get 483 482 f :: 2 word) fl;
          fl = bits_put 7 6 (bits_get 481 480 f :: 2 word) fl
      in bits_put 5 0 (bits_get 479 474 f :: 6 word) fl)"

definition lk_getRespCappTag :: "flit \<Rightarrow> tag" where [lk_defs]:
  "lk_getRespCappTag f = bits_get 503 488 f"

definition lk_getTLRespDl :: "flit \<Rightarrow> dl_t" where [lk_defs]:
  "lk_getTLRespDl f = bits_get 483 482 f"

definition lk_getTLRespDp :: "flit \<Rightarrow> dp_t" where [lk_defs]:
  "lk_getTLRespDp f = bits_get 481 480 f"

definition lk_setRespOrigCappTag :: "tag \<Rightarrow> flit \<Rightarrow> flit" where [lk_defs]:
  "lk_setRespOrigCappTag tag f = bits_put 312 297 tag f"

definition lk_getRespOrigCappTag :: "flit \<Rightarrow> tag" where [lk_defs]:
  "lk_getRespOrigCappTag f = bits_get 312 297 f"

definition lk_getRespCode :: "flit \<Rightarrow> code_t" where [lk_defs]:
  "lk_getRespCode f = bits_get 487 484 f"

definition lk_getRespOpcode :: "flit \<Rightarrow> opcode_t" where [lk_defs]:
  "lk_getRespOpcode f = bits_get 511 504 f"

definition lk_TLRespIsXlateDone :: "flit \<Rightarrow> bool" where [lk_defs]:
  "lk_TLRespIsXlateDone f \<longleftrightarrow> (bits_get 508 508 f AND bits_get 507 507 f :: 1 word) \<noteq> 0"

definition lk_TLRespCodeIsFailure :: "flit \<Rightarrow> bool" where [lk_defs]:
  "lk_TLRespCodeIsFailure f \<longleftrightarrow> (bits_get 487 487 f :: 1 word) \<noteq> 0"

text \<open>
  The classification in this copy tests single bits of the code and the opcode.  It is not
  called by the lookup module.
\<close>

definition lk_getTLRespState :: "sel_t \<Rightarrow> flit \<Rightarrow> sel_t" where
  "lk_getTLRespState sel0 f =
     (let resp_fail = (bits_get 504 504 f :: 1 word) \<noteq> 0;
          resp_rty_only = ((bits_get 485 485 f :: 1 word) \<noteq> 0 \<and> \<not> (bits_get 487 487 f :: 1 word) \<noteq> 0);
          resp_rty_pend = (((bits_get 485 485 f :: 1 word) \<noteq> 0 \<or> (bits_get 486 486 f :: 1 word) \<noteq> 0) \<and>
             \<not> (bits_get 487 487 f :: 1 word) \<noteq> 0);
          sel = bits_put 0 0 (to_bit (resp_fail \<and> resp_rty_only \<or>
                  (bits_get 508 508 f :: 1 word) \<noteq> 0 \<and> (bits_get 507 507 f :: 1 word) \<noteq> 0)) sel0;
          sel = bits_put 1 1 (to_bit ((bits_get 506 506 f :: 1 word) \<noteq> 0 \<and>
                  \<not> (bits_get 504 504 f :: 1 word) \<noteq> 0)) sel
      in bits_put 2 2 (to_bit ((bits_get 507 507 f :: 1 word) \<noteq> 0 \<or> resp_fail \<and> \<not> resp_rty_pend)) sel)"

section \<open>Commands to the host\<close>

definition lk_fromTLxCmd :: "tlxcflit_t \<Rightarrow> flit \<Rightarrow> flit" where [lk_defs]:
  "lk_fromTLxCmd fl f =
     (let f = bits_put 511 504 (bits_get 198 191 fl :: 8 word) f;
          f = bits_put 503 440 (bits_get 190 127 fl :: addr_t) f;
          f = bits_put 439 424 (bits_get 126 111 fl :: 16 word) f;
          f = bits_put 423 422 (bits_get 110 109 fl :: 2 word) f;
          f = bits_put 421 419 (bits_get 108 106 fl :: 3 word) f;
          f = bits_put 418 355 (bits_get 105 42 fl :: addr_t) f;
          f = bits_put 354 343 (bits_get 41 30 fl :: actag_t) f;
          f = bits_put 342 339 (bits_get 29 26 fl :: 4 word) f;
          f = bits_put 338 319 (bits_get 25 6 fl :: pasid_t) f
      in bits_put 318 313 (bits_get 5 0 fl :: 6 word) f)"

definition lk_setTLxCmdRespAnno :: "code_t \<Rightarrow> flit \<Rightarrow> flit" where [lk_defs]:
  "lk_setTLxCmdRespAnno cd f = bits_put 318 313 cd f"

definition lk_getTLxCmdRespAnno :: "flit \<Rightarrow> code_t" where [lk_defs]:
  "lk_getTLxCmdRespAnno f = bits_get 318 313 f"

definition lk_toTLxCmdFlit :: "tlxcflit_t \<Rightarrow> flit \<Rightarrow> tlxcflit_t" where [lk_defs]:
  "lk_toTLxCmdFlit fl0 f =
     (let fl = bits_put 198 191 (bits_get 511 504 f :: 8 word) fl0;
          fl = bits_put 190 127 (bits_get 503 440 f :: addr_t) fl;
          fl = bits_put 126 111 (bits_get 312 297 f :: 16 word) fl;
          fl = bits_put 110 109 (bits_get 423 422 f :: 2 word) fl;
          fl = bits_put 108 106 (bits_get 421 419 f :: 3 word) fl;
          fl = bits_put 105 42 (bits_get 418 355 f :: addr_t) fl;
          fl = bits_put 41 30 (bits_get 354 343 f :: actag_t) fl;
          fl = bits_put 29 26 (bits_get 342 339 f :: 4 word) fl;
          fl = bits_put 25 6 (bits_get 338 319 f :: pasid_t) fl
      in bits_put 5 0 (bits_get 318 313 f :: 6 word) fl)"

text \<open>The stored command carries the page size.\<close>

definition lk_fromTLxCStore :: "tlxscflit_t \<Rightarrow> flit \<Rightarrow> flit" where [lk_defs]:
  "lk_fromTLxCStore fl f =
     (let f = bits_put 312 297 (bits_get 214 199 fl :: 16 word) f;
          f = bits_put 511 504 (bits_get 198 191 fl :: 8 word) f;
          f = bits_put 503 440 (bits_get 190 127 fl :: addr_t) f;
          f = bits_put 439 424 (bits_get 126 111 fl :: 16 word) f;
          f = bits_put 423 422 (bits_get 110 109 fl :: 2 word) f;
          f = bits_put 421 419 (bits_get 108 106 fl :: 3 word) f;
          f = bits_put 418 355 (bits_get 105 42 fl :: addr_t) f;
          f = bits_put 354 343 (bits_get 41 30 fl :: actag_t) f;
          f = bits_put 342 339 (bits_get 29 26 fl :: 4 word) f;
          f = bits_put 338 319 (bits_get 25 6 fl :: pasid_t) f
      in bits_put 318 313 (bits_get 5 0 fl :: 6 word) f)"

definition lk_toTLxCStore :: "tlxcflit_t \<Rightarrow> flit \<Rightarrow> tlxscflit_t" where [lk_defs]:
  "lk_toTLxCStore fl0 f =
     (let fl = bits_put 198 191 (bits_get 511 504 f :: 8 word) fl0;
          fl = bits_put 190 127 (bits_get 503 440 f :: addr_t) fl;
          fl = bits_put 126 111 (bits_get 439 424 f :: 16 word) fl;
          fl = bits_put 110 109 (bits_get 423 422 f :: 2 word) fl;
          fl = bits_put 108 106 (bits_get 421 419 f :: 3 word) fl;
          fl = bits_put 105 42 (bits_get 418 355 f :: addr_t) fl;
          fl = bits_put 41 30 (bits_get 354 343 f :: actag_t) fl;
          fl = bits_put 29 26 (bits_get 342 339 f :: 4 word) fl;
          fl = bits_put 25 6 (bits_get 338 319 f :: pasid_t) fl
      in ucast (bits_put 5 0 (bits_get 318 313 f :: 6 word) fl))"

definition lk_TLxCmdIsWrite :: "flit \<Rightarrow> bool" where [lk_defs]:
  "lk_TLxCmdIsWrite f \<longleftrightarrow> (bits_get 509 509 f :: 1 word) \<noteq> 0"

definition lk_TLxCmdIsRead :: "flit \<Rightarrow> bool" where [lk_defs]:
  "lk_TLxCmdIsRead f \<longleftrightarrow> (bits_get 508 508 f :: 1 word) \<noteq> 0"

definition lk_TLxCmdIsAssignActag :: "flit \<Rightarrow> bool" where [lk_defs]:
  "lk_TLxCmdIsAssignActag f \<longleftrightarrow> (bits_get 510 510 f :: 1 word) \<noteq> 0"

definition lk_getDl :: "flit \<Rightarrow> dl_t" where [lk_defs]:
  "lk_getDl f = bits_get 423 422 f"

definition lk_setDl :: "dl_t \<Rightarrow> flit \<Rightarrow> flit" where [lk_defs]:
  "lk_setDl dl f = bits_put 423 422 dl f"

definition lk_setBe :: "addr_t \<Rightarrow> flit \<Rightarrow> flit" where [lk_defs]:
  "lk_setBe be f = bits_put 418 355 be f"

definition lk_setOpcode :: "opcode_t \<Rightarrow> flit \<Rightarrow> flit" where [lk_defs]:
  "lk_setOpcode opc f = bits_put 511 504 opc f"

definition lk_setEA :: "addr_t \<Rightarrow> flit \<Rightarrow> flit" where [lk_defs]:
  "lk_setEA addr f = bits_put 503 440 addr f"

definition lk_setPasid :: "pasid_t \<Rightarrow> flit \<Rightarrow> flit" where [lk_defs]:
  "lk_setPasid pasid f = bits_put 338 319 pasid f"

definition lk_setActag :: "actag_t \<Rightarrow> flit \<Rightarrow> flit" where [lk_defs]:
  "lk_setActag ac f = bits_put 354 343 ac f"

definition lk_setCappTagLocal :: "tag \<Rightarrow> flit \<Rightarrow> flit" where [lk_defs]:
  "lk_setCappTagLocal tag f = bits_put 312 297 tag f"

definition lk_getCappTagLocal :: "flit \<Rightarrow> tag" where [lk_defs]:
  "lk_getCappTagLocal f = bits_get 312 297 f"

definition lk_getCappTagOrig :: "flit \<Rightarrow> tag" where [lk_defs]:
  "lk_getCappTagOrig f = bits_get 439 424 f"

definition lk_setCappTagOrig :: "tag \<Rightarrow> flit \<Rightarrow> flit" where [lk_defs]:
  "lk_setCappTagOrig tag f = bits_put 439 424 tag f"

definition lk_getNetId :: "flit \<Rightarrow> nid_t" where [lk_defs]:
  "lk_getNetId f = bits_get 296 291 f"

definition lk_setNetId :: "nid_t \<Rightarrow> flit \<Rightarrow> flit" where [lk_defs]:
  "lk_setNetId netid f = bits_put 296 291 netid f"

section \<open>The two copies\<close>

lemma lk_same [simp]:
  "lk_OCxFlit = OCxFlit" "lk_fromOCxFlit = fromOCxFlit" "lk_toOCxFlit = toOCxFlit"
  "lk_fromOCxBdiFlit = fromOCxBdiFlit" "lk_toOCxBdiFlit = toOCxBdiFlit" "lk_setBdi = setBdi"
  "lk_fromTLRespData = fromTLRespData" "lk_toTLRespData = toTLRespData" "lk_getRespCappTag =
  getRespCappTag" "lk_getTLRespDl = getTLRespDl" "lk_getTLRespDp = getTLRespDp"
  "lk_setRespOrigCappTag = setRespOrigCappTag" "lk_getRespOrigCappTag = getRespOrigCappTag"
  "lk_getRespCode = getRespCode" "lk_getRespOpcode = getRespOpcode" "lk_TLRespIsXlateDone =
  TLRespIsXlateDone" "lk_TLRespCodeIsFailure = TLRespCodeIsFailure" "lk_fromTLxCmd = fromTLxCmd"
  "lk_setTLxCmdRespAnno = setTLxCmdRespAnno" "lk_getTLxCmdRespAnno = getTLxCmdRespAnno"
  "lk_toTLxCmdFlit = toTLxCmdFlit" "lk_TLxCmdIsWrite = TLxCmdIsWrite" "lk_TLxCmdIsRead =
  TLxCmdIsRead" "lk_TLxCmdIsAssignActag = TLxCmdIsAssignActag" "lk_getDl = getDl" "lk_setDl =
  setDl" "lk_setBe = setBe" "lk_setOpcode = setOpcode" "lk_setEA = setEA" "lk_setPasid =
  setPasid" "lk_setActag = setActag" "lk_setCappTagLocal = setCappTagLocal" "lk_getCappTagLocal
  = getCappTagLocal" "lk_getCappTagOrig = getCappTagOrig" "lk_setCappTagOrig = setCappTagOrig"
  "lk_getNetId = getNetId" "lk_setNetId = setNetId"
  by (auto simp: fun_eq_iff lk_OCxFlit_def OCxFlit_def flit_defs lk_defs)

lemma lk_fromTLxCStore_bits:
  "lk_fromTLxCStore fl f = bits_put 312 297 (bits_get 214 199 fl :: tag)
     (bits_put 511 313 (bits_get 198 0 fl :: tlxcflit_t) f)"
  unfolding lk_fromTLxCStore_def Let_def
  by (rule bit_word_eqI) (auto simp: bit_ranges)

lemma lk_toTLxCStore_bits: "lk_toTLxCStore fl0 f = bits_put 198 0 (bits_get 511 313 f :: tlxcflit_t) 0"
  unfolding lk_toTLxCStore_def Let_def
  by (rule bit_word_eqI) (auto simp: bit_ranges bit_simps dest: bit_imp_le_length)

lemma lk_store: "lk_toTLxCStore c0 (lk_fromTLxCStore s f) = bits_put 214 199 (0 :: tag) s"
  unfolding lk_toTLxCStore_bits lk_fromTLxCStore_bits
  by (rule bit_word_eqI) (auto simp: bit_ranges dest: bit_imp_le_length)

section \<open>The two classifications of a response\<close>

lemma code_bit:
  "lo \<le> 3 \<Longrightarrow> (bits_get (484 + lo) (484 + lo) f :: 1 word) = bits_get lo lo (getRespCode f)"
  unfolding getRespCode_def by (subst bits_get_get) simp_all

lemma word4_cases: "(c :: 4 word) \<in> {0, 1, 2, 3, 4, 5, 6, 7, 8, 9, 10, 11, 12, 13, 14, 15}"
proof -
  have "unat c < 16" using unsigned_less [of c, where 'a = nat] by simp
  then have "unat c \<in> {0, 1, 2, 3, 4, 5, 6, 7, 8, 9, 10, 11, 12, 13, 14, 15}" by simp arith
  then have "(word_of_nat (unat c) :: 4 word) \<in>
      {0, 1, 2, 3, 4, 5, 6, 7, 8, 9, 10, 11, 12, 13, 14, 15}" by (elim insertE) simp_all
  then show ?thesis by simp
qed

text \<open>The classification of this copy as a function of the opcode and the code.\<close>

definition lk_resp_state :: "opcode_t \<Rightarrow> code_t \<Rightarrow> sel_t" where
  "lk_resp_state opc code =
     (if opc \<in> {TL_RD_RESPOK, TL_WR_RESPOK, TL_XLATE_DONE} then resp_state opc code
      else (if code \<in> {2, 3, 6, 7} then 1 else if code \<in> {4, 5} then 0 else 4) OR
           (if opc = TL_WR_RESPFAIL then 4 else 0))"

lemma lk_getTLRespState_code:
  "lk_getTLRespState sel0 f =
     (let opc = getRespOpcode f; code = getRespCode f; b = (\<lambda>k. bit code k);
          fail = bit opc 0;
          rty = (b 1 \<and> \<not> b 3); pend = ((b 1 \<or> b 2) \<and> \<not> b 3) in
      (if fail \<and> rty \<or> bit opc 4 \<and> bit opc 3 then 1 else 0) +
      (if bit opc 2 \<and> \<not> fail then 2 else 0) +
      (if bit opc 3 \<or> fail \<and> \<not> pend then 4 else 0))"
proof -
  have b: "(bits_get lo lo (x :: 'a::len word) :: 1 word) \<noteq> 0 \<longleftrightarrow> bit x lo" for lo x
    by (auto simp: bit_eq_iff [where 'a = "1 word"] bit_bits_get)
  show ?thesis
    using opcode_bit [of 0 f] opcode_bit [of 2 f] opcode_bit [of 3 f] opcode_bit [of 4 f]
      code_bit [of 1 f] code_bit [of 2 f] code_bit [of 3 f]
    unfolding lk_getTLRespState_def Let_def sel_bits by (simp add: b)
qed

lemma lk_table:
  assumes "opc \<in> {TL_RD_RESPOK, TL_RD_RESPFAIL, TL_WR_RESPOK, TL_WR_RESPFAIL, TL_XLATE_DONE}"
  shows "(if bit opc 0 \<and> bit code 1 \<and> \<not> bit code 3 \<or> bit opc 4 \<and> bit opc 3 then 1 else 0) +
      (if bit opc 2 \<and> \<not> bit opc 0 then 2 else 0) +
      (if bit opc 3 \<or> bit opc 0 \<and> \<not> ((bit code 1 \<or> bit code 2) \<and> \<not> bit code 3) then 4 else 0) =
    lk_resp_state opc code"
  using assms word4_cases [of code] unfolding opcode_defs
  by (elim insertE emptyE; simp add: lk_resp_state_def resp_state_def opcode_defs)

lemma lk_classes:
  assumes "getRespOpcode f \<in>
    {TL_RD_RESPOK, TL_RD_RESPFAIL, TL_WR_RESPOK, TL_WR_RESPFAIL, TL_XLATE_DONE}"
  shows "lk_getTLRespState sel0 f = lk_resp_state (getRespOpcode f) (getRespCode f)"
  using lk_table [OF assms, of "getRespCode f"] unfolding lk_getTLRespState_code Let_def by simp

text \<open>
  C38: the two copies classify a response of the host alike exactly when it is no failure, or a
  failed read whose code is not 3, 5, 6 or 7, or a failed write whose code is not 2, 3, 4, 6
  or 7; a failed write that is to be retried would be retried and given up at once here.
\<close>

theorem classifiers_agree:
  assumes "getRespOpcode f \<in>
    {TL_RD_RESPOK, TL_RD_RESPFAIL, TL_WR_RESPOK, TL_WR_RESPFAIL, TL_XLATE_DONE}"
  shows "lk_getTLRespState sel0 f = getTLRespState sel1 f \<longleftrightarrow>
    getRespOpcode f \<in> {TL_RD_RESPOK, TL_WR_RESPOK, TL_XLATE_DONE} \<or>
    getRespOpcode f = TL_RD_RESPFAIL \<and> getRespCode f \<notin> {3, 5, 6, 7} \<or>
    getRespOpcode f = TL_WR_RESPFAIL \<and> getRespCode f \<notin> {2, 3, 4, 6, 7}"
proof -
  have table: "lk_resp_state opc code = resp_state opc code \<longleftrightarrow>
      opc \<in> {TL_RD_RESPOK, TL_WR_RESPOK, TL_XLATE_DONE} \<or>
      opc = TL_RD_RESPFAIL \<and> code \<notin> {3, 5, 6, 7} \<or>
      opc = TL_WR_RESPFAIL \<and> code \<notin> {2, 3, 4, 6, 7}"
    if "opc \<in> {TL_RD_RESPOK, TL_RD_RESPFAIL, TL_WR_RESPOK, TL_WR_RESPFAIL, TL_XLATE_DONE}" for opc code
    using that by (auto simp: lk_resp_state_def resp_state_def opcode_defs)
  show ?thesis
    unfolding lk_classes [OF assms] resp_state_of [OF assms] by (rule table [OF assms])
qed

lemma classifiers_agree_witness:
  "\<exists>f. getRespOpcode f = TL_WR_RESPFAIL \<and> getRespCode f = TLRESP_CODE_PEND \<and>
     lk_getTLRespState 0 f \<noteq> getTLRespState 0 f"
proof -
  let ?f = "bits_put 511 504 TL_WR_RESPFAIL (bits_put 487 484 TLRESP_CODE_PEND OCxFlit)"
  have f: "getRespOpcode ?f = TL_WR_RESPFAIL" "getRespCode ?f = TLRESP_CODE_PEND"
    by (simp_all add: getRespOpcode_def getRespCode_def bits_get_put_same bits_get_put_other)
  have "lk_getTLRespState 0 ?f \<noteq> getTLRespState 0 ?f"
    using classifiers_agree [of ?f 0 0] f by (simp add: opcode_defs)
  with f show ?thesis by blast
qed

end
