(* ===== verification/TFEgress.thy ===== *)
theory TFEgress imports TFResp TFPackets TFLkFlit begin

text \<open>
  The two hardware modules of the memory egress path as a whole:
  \<^verbatim>\<open>memory_egress_lookup\<close> pairs each response with the command stored under its tag
  (\<^verbatim>\<open>ocx_cmd_fifo_load.cpp\<close>, on its own copy of the flit class, TFLkFlit), \<^verbatim>\<open>memory_egress\<close>
  connects the response and the retry engine, and works off what the host answered.
\<close>

section \<open>The lookup module\<close>

record cmd_load =
  ld_cntin :: count_t
  ld_cnt :: count_t
  to_send :: resp_combo_t
  ld_input :: "tlrflit_t list"
  ld_output :: "resp_combo_t list"

definition init_load :: cmd_load where
  "init_load = \<lparr> ld_cntin = 0, ld_cnt = 0, to_send = 0, ld_input = [], ld_output = [] \<rparr>"

text \<open>\<open>r0\<close> and \<open>c0\<close> are the uninitialised locals of the conversions.\<close>

definition CmdFifoLoadSM :: "tlrflit_t \<Rightarrow> tlxcflit_t \<Rightarrow> tlxscflit_t list \<Rightarrow> cmd_load \<Rightarrow> cmd_load option" where
  "CmdFifoLoadSM r0 c0 cmdlookup s =
     (case ld_input s of
        [] \<Rightarrow> Some s
      | r # rest \<Rightarrow>
          let resp = lk_fromTLRespData r lk_OCxFlit;
              tag = unat (lk_getRespCappTag resp) in
          if tag < length cmdlookup then
            let cmdf = lk_fromTLxCStore (cmdlookup ! tag) lk_OCxFlit;
                snd1 = bits_put 252 215 (bits_get 37 0 (lk_toTLRespData r0 resp) :: tlrflit_t) (to_send s);
                snd2 = bits_put 214 0 (bits_get 214 0 (lk_toTLxCStore c0 cmdf) :: tlxscflit_t) snd1
            in Some (s\<lparr>ld_input := rest, ld_cnt := ld_cntin s, ld_cntin := ld_cntin s + 1,
                       to_send := snd2, ld_output := ld_output s @ [snd2]\<rparr>)
          else None)"

definition ocx_memory_egress_lookup_top ::
    "tlrflit_t \<Rightarrow> tlxcflit_t \<Rightarrow> tlxscflit_t list \<Rightarrow> cmd_load \<Rightarrow> cmd_load option" where
  "ocx_memory_egress_lookup_top r0 c0 cmdlookup s = CmdFifoLoadSM r0 c0 cmdlookup s"

text \<open>A response and a stored command, side by side.\<close>

definition combo :: "tlrflit_t \<Rightarrow> tlxscflit_t \<Rightarrow> resp_combo_t" where
  "combo r c = bits_put 252 215 r (bits_put 214 0 c 0)"

lemma combo_parts: "bits_get 252 215 (combo r c) = r" "bits_get 214 0 (combo r c) = c"
  by (simp_all add: combo_def bits_get_put_same bits_get_put_other)

lemma combo_complete: "bits_put 214 0 c (bits_put 252 215 r w) = combo r c"
  by (rule bit_word_eqI) (auto simp: combo_def bit_ranges dest: bit_imp_le_length)

definition resp_tag_of :: "tlrflit_t \<Rightarrow> tag" where
  "resp_tag_of r = bits_get 29 14 r"

lemma load_step:
  assumes "ld_input s = r # rest" "unat (resp_tag_of r) < length cmdlookup"
  shows "CmdFifoLoadSM r0 c0 cmdlookup s =
    (let out = combo r (bits_put 214 199 (0 :: tag) (cmdlookup ! unat (resp_tag_of r))) in
     Some (s\<lparr>ld_input := rest, ld_cnt := ld_cntin s, ld_cntin := ld_cntin s + 1,
             to_send := out, ld_output := ld_output s @ [out]\<rparr>))"
proof -
  have rt: "toTLRespData r0 (fromTLRespData r OCxFlit) = r"
    unfolding block_moves by (rule bit_word_eqI) (auto simp: bit_ranges)
  have full: "bits_get 37 0 x = x" "bits_get 214 0 y = y" for x :: tlrflit_t and y :: tlxscflit_t
    by (rule bit_word_eqI; auto simp: bit_ranges dest: bit_imp_le_length)+
  show ?thesis using assms
    by (simp add: CmdFifoLoadSM_def response_fields resp_tag_of_def rt lk_store full combo_complete Let_def)
qed

section \<open>The egress module\<close>

text \<open>
  One clock step runs both engines; the stream \<^verbatim>\<open>rty_unit_fifo_in\<close> carries what the response
  engine writes in the step to the input of the retry engine.  Here no stream has a depth
  (TFDepth gives the two inner ones theirs).  \<^verbatim>\<open>tl_fifo_resp\<close> is passed by value in the C++
  source; as a port of the hardware module it is the stream itself, and so it is here.
\<close>

definition ocx_memory_egress_top ::
    "cutimer_t \<Rightarrow> valid_t \<Rightarrow> sel_t \<Rightarrow> ocxflit list \<Rightarrow> ocxflit list \<Rightarrow> ocxflit list \<Rightarrow> ocxflit list \<Rightarrow>
     resp_eng \<times> rty_eng \<Rightarrow> (resp_eng \<times> rty_eng) option" where
  "ocx_memory_egress_top timeout enable sel0 data0 data1 data2 data3 e = do {
     r \<leftarrow> RespEngSM enable sel0 data0 data1 data2 data3 (fst e);
     let written = drop (length (rtry_do_cmd_out (fst e))) (rtry_do_cmd_out r);
     Some (r, RtyEngSM timeout ((snd e)\<lparr>input_fifo := input_fifo (snd e) @ written\<rparr>)) }"

text \<open>The module with its environment: the host may answer at any time.\<close>

inductive egress_step :: "resp_eng \<times> rty_eng \<Rightarrow> resp_eng \<times> rty_eng \<Rightarrow> bool" where
  clock: "ocx_memory_egress_top timeout enable sel0 d0 d1 d2 d3 e = Some e' \<Longrightarrow> egress_step e e'"
| response: "egress_step (r, y) (r\<lparr>tlresp_fifo_in := tlresp_fifo_in r @ [c]\<rparr>, y)"
| host_flit: "egress_step (r, y) (r\<lparr>tlresp_data_in := tlresp_data_in r @ [d]\<rparr>, y)"

inductive egress_reachable :: "resp_eng \<times> rty_eng \<Rightarrow> bool" where
  start: "egress_reachable (init_resp, init_rty)"
| step: "egress_reachable e \<Longrightarrow> egress_step e e' \<Longrightarrow> egress_reachable e'"

inductive_cases egress_stepE: "egress_step e e'"

text \<open>The response engine only ever appends to the stream between the two, a flit per step.\<close>

lemma RespEngSM_one:
  assumes "RespEngSM en sel0 d0 d1 d2 d3 r = Some r'"
  shows "\<exists>fs. rtry_do_cmd_out r' = rtry_do_cmd_out r @ fs \<and> length fs \<le> 1"
proof (cases "smstate r")
  case INIT
  then show ?thesis using assms by (auto simp: RespEngSM_def init_step_def)
next
  case GET_CMD
  then show ?thesis using assms
    by (auto simp: RespEngSM_def get_cmd_step_def Let_def split: list.splits)
next
  case GET_DATA
  then show ?thesis using assms
    by (auto simp: RespEngSM_def get_data_step_def Let_def split: list.splits if_splits)
qed

lemma RespEngSM_appends:
  "RespEngSM en sel0 d0 d1 d2 d3 r = Some r' \<Longrightarrow> \<exists>fs. rtry_do_cmd_out r' = rtry_do_cmd_out r @ fs"
  using RespEngSM_one by blast

lemma egress_step_inv:
  "egress_step e e' \<Longrightarrow> in_flight (snd e) = mset (rtry_do_cmd_out (fst e)) \<Longrightarrow>
   in_flight (snd e') = mset (rtry_do_cmd_out (fst e'))"
proof (induction rule: egress_step.induct)
  case (clock timeout enable sel0 d0 d1 d2 d3 e e')
  then obtain r where r: "RespEngSM enable sel0 d0 d1 d2 d3 (fst e) = Some r"
    "e' = (r, RtyEngSM timeout ((snd e)\<lparr>input_fifo := input_fifo (snd e) @
       drop (length (rtry_do_cmd_out (fst e))) (rtry_do_cmd_out r)\<rparr>))"
    by (auto simp: ocx_memory_egress_top_def Let_def)
  obtain fs where "rtry_do_cmd_out r = rtry_do_cmd_out (fst e) @ fs" using RespEngSM_appends [OF r(1)] by blast
  then show ?case using clock.prems r(2) by (simp add: RtyEngSM_in_flight) (simp add: in_flight_def add.assoc)
qed simp_all

section \<open>Both engines together\<close>

text \<open>The packets the responses \<open>ts\<close> make the response engine hand to the retry engine.\<close>

definition retry_packet :: "ocxflit list list \<Rightarrow> resp_combo_t \<Rightarrow> packet" where
  "retry_packet tables cb = (toOCxFlit (retry_cmd cb),
     map (\<lambda>d. d ! unat (combo_tag cb)) (take (data_flits cb) tables))"

definition retry_packets :: "ocxflit list list \<Rightarrow> (resp_combo_t \<times> ocxflitbdi_t list) list \<Rightarrow> packet list" where
  "retry_packets tables ts = map (retry_packet tables \<circ> fst) (filter (\<lambda>t. action (fst t) = To_retry) ts)"

lemma retry_effect:
  "fst (snd (fold (resp_effect tables) ts o0)) = fst (snd o0) @ flits (retry_packets tables ts)"
proof (induction ts arbitrary: o0)
  case (Cons t ts)
  obtain cb ds tags rty net where t: "t = (cb, ds)" "o0 = (tags, rty, net)" by (metis prod_cases3 surj_pair)
  show ?case unfolding t
    by (cases "action cb") (simp_all add: Cons retry_packets_def retry_packet_def)
qed (simp add: retry_packets_def)

lemma retry_fields:
  "TLxCmdIsWrite (as_flit (toOCxFlit (retry_cmd cb))) = TLxCmdIsWrite (combo_cmd cb)"
  "getDl (as_flit (toOCxFlit (retry_cmd cb))) = getDl (combo_cmd cb)"
  "getTLxCmdRespAnno (as_flit (toOCxFlit (retry_cmd cb))) =
     (if TLRespIsXlateDone (combo_resp cb) then 0 else getRespCode (combo_resp cb))"
proof -
  have b: "bits_get hi lo (as_flit (toOCxFlit f)) = bits_get hi lo f" if "hi < 512" for hi lo f
    using that by (intro bit_word_eqI) (auto simp: as_flit_def flit_defs bit_ranges)
  show "TLxCmdIsWrite (as_flit (toOCxFlit (retry_cmd cb))) = TLxCmdIsWrite (combo_cmd cb)"
    using retry_cmd_write [of cb] by (simp add: TLxCmdIsWrite_def b)
  show "getDl (as_flit (toOCxFlit (retry_cmd cb))) = getDl (combo_cmd cb)"
    by (simp add: getDl_def b retry_cmd_def setCappTagLocal_def setTLxCmdRespAnno_def bits_get_put_other)
  show "getTLxCmdRespAnno (as_flit (toOCxFlit (retry_cmd cb))) =
     (if TLRespIsXlateDone (combo_resp cb) then 0 else getRespCode (combo_resp cb))"
    by (simp add: getTLxCmdRespAnno_def b retry_cmd_def setCappTagLocal_def bits_get_put_other)
       (simp add: setTLxCmdRespAnno_def bits_get_put_same)
qed

lemma retry_packet_ok:
  assumes "action cb = To_retry"
  shows "packet_ok (retry_packet [d0, d1, d2, d3] cb)"
  using assms
  by (auto simp: packet_ok_def retry_packet_def retry_fields data_flits_def flits_of_def)

text \<open>A retried packet is refused unless a translation was finished.\<close>

lemma retry_refused:
  "refused (retry_packet tables cb) \<longleftrightarrow>
     \<not> TLRespIsXlateDone (combo_resp cb) \<and> getRespCode (combo_resp cb) = TLRESP_CODE_RTY"
  by (simp add: refused_def retry_packet_def retry_fields TLRESP_CODE_RTY_def)

lemma push_all: "fold (on_event t) (map Push fls) y = y\<lparr>input_fifo := input_fifo y @ fls\<rparr>"
  by (induction fls arbitrary: y) simp_all

lemma pushed_append [simp]: "pushed (es @ es') = pushed es @ pushed es'"
  by (induction es rule: pushed.induct) simp_all

lemma pushed_push [simp]: "pushed (map Push fls) = fls"
  by (induction fls) simp_all

text \<open>The module runs the response engine, and the retry engine sees some interleaving.\<close>

lemma top_run:
  assumes "run_steps (RespEngSM en sel0 d0 d1 d2 d3) n r = Some r'"
  shows "\<exists>es. run_steps (ocx_memory_egress_top t en sel0 d0 d1 d2 d3) n (r, y) =
      Some (r', fold (on_event t) es y) \<and> rtry_do_cmd_out r' = rtry_do_cmd_out r @ pushed es"
  using assms
proof (induction n arbitrary: r y)
  case 0
  then show ?case by (intro exI [of _ "[]"]) simp
next
  case (Suc n)
  obtain r1 where r1: "RespEngSM en sel0 d0 d1 d2 d3 r = Some r1"
      "run_steps (RespEngSM en sel0 d0 d1 d2 d3) n r1 = Some r'" using Suc.prems by auto
  obtain fls where fls: "rtry_do_cmd_out r1 = rtry_do_cmd_out r @ fls" using RespEngSM_appends [OF r1(1)] by blast
  let ?y1 = "RtyEngSM t (y\<lparr>input_fifo := input_fifo y @ fls\<rparr>)"
  have step: "ocx_memory_egress_top t en sel0 d0 d1 d2 d3 (r, y) = Some (r1, ?y1)"
    using r1(1) fls by (simp add: ocx_memory_egress_top_def Let_def)
  obtain es where es: "run_steps (ocx_memory_egress_top t en sel0 d0 d1 d2 d3) n (r1, ?y1) =
      Some (r', fold (on_event t) es ?y1)" "rtry_do_cmd_out r' = rtry_do_cmd_out r1 @ pushed es"
    using Suc.IH [OF r1(2)] by blast
  show ?case
    by (rule exI [of _ "map Push fls @ Clock # es"]) (use step es fls in \<open>simp add: push_all\<close>)
qed

text \<open>When the response engine has nothing to do, only the retry engine moves.\<close>

lemma top_idle:
  assumes "smstate r = GET_CMD" "tlresp_fifo_in r = []"
  shows "run_steps (ocx_memory_egress_top t en sel0 d0 d1 d2 d3) n (r, y) = Some (r, (RtyEngSM t ^^ n) y)"
proof (induction n arbitrary: y)
  case (Suc n)
  have "ocx_memory_egress_top t en sel0 d0 d1 d2 d3 (r, y) = Some (r, RtyEngSM t y)"
    using assms by (simp add: ocx_memory_egress_top_def RespEngSM_def get_cmd_step_def Let_def)
  then show ?case by (simp add: Suc funpow_swap1)
qed simp

lemma egress_run:
  assumes "resp_queued [d0, d1, d2, d3] r ts" "rtry_do_cmd_out r = []"
    and "ps = retry_packets [d0, d1, d2, d3] ts"
    and "n = (\<Sum>t\<leftarrow>ts. Suc (data_flits (fst t))) + 2 * length (flits ps)"
  shows "\<exists>r' y'. run_steps (ocx_memory_egress_top t en sel0 d0 d1 d2 d3) n (r, init_rty) = Some (r', y') \<and>
    resp_queued [d0, d1, d2, d3] r' [] \<and> resp_seen r' = fold (resp_effect [d0, d1, d2, d3]) ts (resp_seen r) \<and>
    at_rest y' \<and> (\<exists>outs jail. output_fifo y' = flits outs \<and> rty_jail y' = flits jail \<and>
      filter (Not \<circ> refused) outs = filter (Not \<circ> refused) ps \<and>
      filter refused outs @ jail = filter refused ps \<and> (jail \<noteq> [] \<longrightarrow> refused (last ps)))"
proof -
  let ?top = "ocx_memory_egress_top t en sel0 d0 d1 d2 d3"
  let ?m = "\<Sum>t\<leftarrow>ts. Suc (data_flits (fst t))"
  obtain r' where r': "run_steps (RespEngSM en sel0 d0 d1 d2 d3) ?m r = Some r'"
      "resp_queued [d0, d1, d2, d3] r' []" "resp_seen r' = fold (resp_effect [d0, d1, d2, d3]) ts (resp_seen r)"
    using resp.works_off [OF assms(1), of en sel0] by blast
  obtain es where es: "run_steps ?top ?m (r, init_rty) = Some (r', fold (on_event t) es init_rty)"
      "rtry_do_cmd_out r' = pushed es"
    using top_run [OF r'(1), of t init_rty] assms(2) by auto
  have "rtry_do_cmd_out r' = flits ps"
    using arg_cong [OF r'(3), of "\<lambda>x. fst (snd x)"] assms(2)
    unfolding retry_effect assms(3) by (simp add: resp_seen_def)
  then have pushed: "pushed es = flits ps" using es(2) by simp
  have ok: "\<forall>p \<in> set ps. packet_ok p"
    unfolding assms(3) retry_packets_def using retry_packet_ok by auto
  let ?y = "(RtyEngSM t ^^ (2 * length (flits ps))) (fold (on_event t) es init_rty)"
  have "run_steps ?top n (r, init_rty) = Some (r', ?y)"
    using es(1) top_idle [of r'] r'(2) unfolding assms(4) run_steps_add by (simp add: resp_queued_def)
  then show ?thesis using r'(2,3) interleaved_rest [OF ok pushed le_refl refl, of t] by blast
qed

text \<open>The persistent response flit of a reachable engine only holds the fields of a response.\<close>

lemma RespEngSM_clean:
  assumes "RespEngSM en sel0 d0 d1 d2 d3 r = Some r'" "clean (tlresp r)"
  shows "clean (tlresp r')"
proof (cases "smstate r")
  case INIT
  then show ?thesis using assms by (auto simp: RespEngSM_def init_step_def)
next
  case GET_CMD
  show ?thesis
  proof (cases "tlresp_fifo_in r")
    case (Cons c rest)
    have "clean (combo_resp c)" unfolding combo_resp_def by (rule clean_response [OF clean_zero])
    then show ?thesis using assms(1) GET_CMD get_cmd_action [OF assms(2) Cons, of sel0]
      by (cases "action c") (auto simp: RespEngSM_def enter_def Let_def)
  qed (use assms GET_CMD in \<open>auto simp: RespEngSM_def get_cmd_step_def\<close>)
next
  case GET_DATA
  then show ?thesis using assms
    by (auto simp: RespEngSM_def get_data_step_def Let_def split: list.splits if_splits)
qed

lemma reachable_clean: "egress_reachable e \<Longrightarrow> clean (tlresp (fst e))"
proof (induction rule: egress_reachable.induct)
  case start
  then show ?case by (simp add: init_resp_def clean_zero)
next
  case (step e e')
  from step(2) show ?case
    by cases (use step.IH RespEngSM_clean in
      \<open>auto simp: ocx_memory_egress_top_def Let_def split: bind_splits\<close>)
qed

text \<open>What a paired command says of the answer.\<close>

lemma answer_bits:
  "484 \<le> lo \<Longrightarrow> bits_get hi lo (combo_resp (combo r c)) = bits_get hi lo (fromTLRespData r OCxFlit)"
  by (rule bit_word_eqI)
     (auto simp: combo_resp_def combo_parts response_flit_def fromTLRespData_bits setNetId_def
       setRespOrigCappTag_def bit_ranges)

lemma combo_answer:
  "combo_tag (combo r c) = resp_tag_of r"
  "TLRespIsXlateDone (combo_resp (combo r c)) = TLRespIsXlateDone (fromTLRespData r OCxFlit)"
  "getRespCode (combo_resp (combo r c)) = getRespCode (fromTLRespData r OCxFlit)"
  "getTLRespState 0 (combo_resp (combo r c)) = getTLRespState 0 (fromTLRespData r OCxFlit)"
proof -
  show "combo_tag (combo r c) = resp_tag_of r"
    by (simp add: combo_tag_def combo_resp_def response_fields combo_parts resp_tag_of_def)
  show code: "TLRespIsXlateDone (combo_resp (combo r c)) = TLRespIsXlateDone (fromTLRespData r OCxFlit)"
    "getRespCode (combo_resp (combo r c)) = getRespCode (fromTLRespData r OCxFlit)"
    by (simp_all add: TLRespIsXlateDone_def getRespCode_def answer_bits)
  have "getRespOpcode (combo_resp (combo r c)) = getRespOpcode (fromTLRespData r OCxFlit)"
    by (simp add: getRespOpcode_def answer_bits)
  then show "getTLRespState 0 (combo_resp (combo r c)) = getTLRespState 0 (fromTLRespData r OCxFlit)"
    unfolding getTLRespState_opcode by (simp add: code)
qed

section \<open>Properties\<close>

text \<open>
  both engines together, the retry engine at work while the response engine still writes:
  after a number of clock steps that only depends on the responses, tags and network hold
  what the specification says, and every command that was to be retried has left as a whole
  packet with its data, or waits in the jail because the last of them was refused.
\<close>

theorem egress_end_to_end:
  assumes "resp_queued [d0, d1, d2, d3] r ts" "rtry_do_cmd_out r = []"
    and "ps = retry_packets [d0, d1, d2, d3] ts"
    and "n = (\<Sum>t\<leftarrow>ts. Suc (data_flits (fst t))) + 2 * length (flits ps)"
  shows "\<exists>r' y'. run_steps (ocx_memory_egress_top t en sel0 d0 d1 d2 d3) n (r, init_rty) = Some (r', y') \<and>
    resp_queued [d0, d1, d2, d3] r' [] \<and> resp_seen r' = fold (resp_effect [d0, d1, d2, d3]) ts (resp_seen r) \<and>
    at_rest y' \<and> (\<exists>outs jail. output_fifo y' = flits outs \<and> rty_jail y' = flits jail \<and>
      filter (Not \<circ> refused) outs = filter (Not \<circ> refused) ps \<and>
      filter refused outs @ jail = filter refused ps \<and> (jail \<noteq> [] \<longrightarrow> refused (last ps)))"
  using assms by (rule egress_run)

text \<open>A read that is refused, and one whose translation is finished.\<close>

definition refusal :: "tag \<Rightarrow> resp_combo_t" where
  "refusal t = bits_put 228 225 TLRESP_CODE_RTY (demo_combo TL_RD_RESPFAIL t)"

lemma refusal_fields:
  "getRespOpcode (combo_resp (refusal t)) = TL_RD_RESPFAIL"
  "getRespCode (combo_resp (refusal t)) = TLRESP_CODE_RTY"
  "\<not> TLxCmdIsWrite (combo_cmd (refusal t))" "\<not> TLxCmdIsWrite (combo_cmd (demo_combo opc t))"
proof -
  show "getRespOpcode (combo_resp (refusal t)) = TL_RD_RESPFAIL"
    "getRespCode (combo_resp (refusal t)) = TLRESP_CODE_RTY"
    by (rule bit_word_eqI; auto simp: combo_resp_def response_fields demo_combo_def refusal_def
        bit_ranges dest: bit_imp_le_length)+
  have "(bits_get 509 509 (combo_cmd (refusal t)) :: 1 word) = 0"
    "(bits_get 509 509 (combo_cmd (demo_combo opc t)) :: 1 word) = 0"
    by (rule bit_word_eqI; auto simp: combo_cmd_def fromTLxCStore_bits demo_combo_def refusal_def
        bit_ranges OCxFlit_def)+
  then show "\<not> TLxCmdIsWrite (combo_cmd (refusal t))" "\<not> TLxCmdIsWrite (combo_cmd (demo_combo opc t))"
    by (simp_all add: TLxCmdIsWrite_def)
qed

lemma retry_demo:
  "action (refusal t) = To_retry" "action (demo_combo TL_XLATE_DONE t) = To_retry"
  "\<not> TLRespIsXlateDone (combo_resp (refusal t))" "TLRespIsXlateDone (combo_resp (demo_combo TL_XLATE_DONE t))"
proof -
  have "getTLRespState 0 (combo_resp (refusal t)) = 1"
    "getTLRespState 0 (combo_resp (demo_combo TL_XLATE_DONE t)) = 5"
    unfolding getTLRespState_opcode demo_combo_fields refusal_fields
    by (simp_all add: opcode_defs Let_def bits_get_def)
  then show "action (refusal t) = To_retry" "action (demo_combo TL_XLATE_DONE t) = To_retry"
    by (simp_all add: action_def)
  have x: "TLRespIsXlateDone f \<longleftrightarrow>
      (bits_get 4 4 (getRespOpcode f) AND bits_get 3 3 (getRespOpcode f) :: 1 word) \<noteq> 0" for f
    using opcode_bit [of 3 f] opcode_bit [of 4 f] by (simp add: TLRespIsXlateDone_def)
  show "\<not> TLRespIsXlateDone (combo_resp (refusal t))" "TLRespIsXlateDone (combo_resp (demo_combo TL_XLATE_DONE t))"
    unfolding x demo_combo_fields refusal_fields by (simp_all add: opcode_defs bits_get_def)
qed

lemma egress_end_to_end_witness:
  "\<exists>r y. run_steps (ocx_memory_egress_top 0 1 0 [] [] [] []) 6
       (init_resp\<lparr>smstate := GET_CMD, tlresp_fifo_in := [refusal 3, demo_combo TL_XLATE_DONE 4]\<rparr>, init_rty) =
       Some (r, y) \<and> rty_jail y = [] \<and> length (output_fifo y) = 2"
proof -
  let ?ts = "[(refusal 3, []), (demo_combo TL_XLATE_DONE 4, [])] :: (resp_combo_t \<times> ocxflitbdi_t list) list"
  let ?r = "init_resp\<lparr>smstate := GET_CMD, tlresp_fifo_in := [refusal 3, demo_combo TL_XLATE_DONE 4]\<rparr>"
  let ?p = "(toOCxFlit (retry_cmd (refusal 3)), []) :: packet"
  let ?q = "(toOCxFlit (retry_cmd (demo_combo TL_XLATE_DONE 4)), []) :: packet"
  have n: "data_flits (refusal 3) = 0" "data_flits (demo_combo TL_XLATE_DONE 4) = 0"
    by (simp_all add: data_flits_def retry_demo refusal_fields)
  have ps: "retry_packets [[], [], [], []] ?ts = [?p, ?q]"
    by (simp add: retry_packets_def retry_packet_def retry_demo n)
  have ref: "refused ?p" "\<not> refused ?q"
    using retry_refused [of "[[], [], [], []]" "refusal 3"]
      retry_refused [of "[[], [], [], []]" "demo_combo TL_XLATE_DONE 4"]
    by (simp_all add: retry_packet_def retry_demo refusal_fields n)
  have q: "resp_queued [[], [], [], []] ?r ?ts"
    by (simp add: resp_queued_def init_resp_def clean_zero resp_ok_def retry_demo refusal_fields)
  have six: "6 = (\<Sum>t\<leftarrow>?ts. Suc (data_flits (fst t))) + 2 * length (flits [?p, ?q])" by (simp add: n)
  have out: "rtry_do_cmd_out ?r = []" by (simp add: init_resp_def)
  from egress_end_to_end [OF q out ps [symmetric] six, of 0 1 0] ref obtain r y outs where
    r: "run_steps (ocx_memory_egress_top 0 1 0 [] [] [] []) 6 (?r, init_rty) = Some (r, y)"
      "output_fifo y = flits outs" "rty_jail y = []"
      "filter (Not \<circ> refused) outs = [?q]" "filter refused outs = [?p]" by auto
  have "length (flits outs) = length (flits (filter refused outs)) + length (flits (filter (Not \<circ> refused) outs))"
    by (induction outs) auto
  then show ?thesis using r by auto
qed

text \<open>
  C18: in every reachable state of the egress module, whatever the host answered and when,
  the flits the response engine gave up for a retry are exactly those the retry engine has
  put out, jailed or not yet read.
\<close>

theorem retries_conserved:
  assumes "egress_reachable e"
  shows "in_flight (snd e) = mset (rtry_do_cmd_out (fst e))"
  using assms
proof (induction rule: egress_reachable.induct)
  case start
  show ?case by (simp add: in_flight_def init_rty_def init_resp_def)
next
  case (step e e')
  then show ?case using egress_step_inv by blast
qed

lemma retries_conserved_witness:
  "\<exists>r y. ocx_memory_egress_top 0 1 0 [] [] [] [] (init_resp, init_rty) = Some (r, y) \<and>
     lookup_out r = [1] \<and> in_flight y = {#}"
proof -
  obtain r y where ry: "ocx_memory_egress_top 0 1 0 [] [] [] [] (init_resp, init_rty) = Some (r, y)"
    "lookup_out r = [1]" "rtry_do_cmd_out r = []"
    by (simp add: ocx_memory_egress_top_def RespEngSM_def init_step_def init_resp_def Let_def)
  have "egress_reachable (r, y)"
    using egress_reachable.step [OF egress_reachable.start egress_step.clock [OF ry(1)]] .
  from retries_conserved [OF this] ry show ?thesis by auto
qed

text \<open>
  C19: a command that is to be retried, through both modules: the lookup module takes it from
  its table without its local tag, and the response engine, in any reachable state in which it
  waits for a response, puts the tag of the response in its place.  What it hands to the retry
  engine is the stored command, under the tag the host answered, annotated with the code of
  the answer (with 0, if the answer says that a translation is done).
\<close>

theorem retried_command:
  assumes "ld_input s = [r]" "unat (resp_tag_of r) < length cmdlookup"
    and "bit (getTLRespState 0 (fromTLRespData r OCxFlit)) 0"
    and "egress_reachable (q, y)" "smstate q = GET_CMD" "tlresp_fifo_in q = []"
  shows "\<exists>s' c q' f. ocx_memory_egress_lookup_top r0 c0 cmdlookup s = Some s' \<and>
     ld_output s' = ld_output s @ [c] \<and> ld_input s' = [] \<and> getCappTagLocal (combo_cmd c) = 0 \<and>
     RespEngSM en sel0 d0 d1 d2 d3 (q\<lparr>tlresp_fifo_in := [c]\<rparr>) = Some q' \<and>
     rtry_do_cmd_out q' = rtry_do_cmd_out q @ [f] \<and>
     toTLxCmdFlit fl0 (as_flit f) =
       bits_put 5 0 (if TLRespIsXlateDone (fromTLRespData r OCxFlit) then 0 else getRespCode (fromTLRespData r OCxFlit))
         (bits_put 126 111 (resp_tag_of r) (bits_get 198 0 (cmdlookup ! unat (resp_tag_of r))))"
proof -
  let ?st = "cmdlookup ! unat (resp_tag_of r)"
  let ?c = "combo r (bits_put 214 199 (0 :: tag) ?st)"
  have local: "getCappTagLocal (combo_cmd ?c) = 0"
    by (rule bit_word_eqI)
       (auto simp: combo_cmd_def combo_parts fromTLxCStore_bits getCappTagLocal_def bit_ranges)
  note answer = combo_answer [of r "bits_put 214 199 (0 :: tag) ?st"]
  have "toTLxCmdFlit fl0 (as_flit (toOCxFlit (retry_cmd ?c))) =
      bits_put 5 0 (if TLRespIsXlateDone (combo_resp ?c) then 0 else getRespCode (combo_resp ?c))
        (bits_put 126 111 (resp_tag_of r) (bits_get 198 0 ?st))"
    unfolding retry_cmd_def answer(1) combo_cmd_def combo_parts toTLxCmdFlit_bits
    by (rule bit_word_eqI)
       (auto simp: fromTLxCStore_bits as_flit_def flit_defs bit_ranges OCxFlit_def)
  then have cmd: "toTLxCmdFlit fl0 (as_flit (toOCxFlit (retry_cmd ?c))) =
      bits_put 5 0 (if TLRespIsXlateDone (fromTLRespData r OCxFlit) then 0 else getRespCode (fromTLRespData r OCxFlit))
        (bits_put 126 111 (resp_tag_of r) (bits_get 198 0 ?st))"
    by (simp only: answer(2,3))
  have "action ?c = To_retry" using assms(3) answer(4) by (simp add: action_def Let_def)
  then obtain q' where "RespEngSM en sel0 d0 d1 d2 d3 (q\<lparr>tlresp_fifo_in := [?c]\<rparr>) = Some q'"
      "rtry_do_cmd_out q' = rtry_do_cmd_out q @ [toOCxFlit (retry_cmd ?c)]"
    using get_cmd_action [of "q\<lparr>tlresp_fifo_in := [?c]\<rparr>" ?c "[]" sel0] reachable_clean [OF assms(4)] assms(5)
    by (simp add: RespEngSM_def enter_def Let_def)
  with load_step [OF assms(1,2), of r0 c0] local cmd show ?thesis
    by (auto simp: ocx_memory_egress_lookup_top_def Let_def)
qed

text \<open>A write that is refused, under tag 2, after the start-up.\<close>

definition write_refused :: tlrflit_t where
  "write_refused = bits_put 37 30 TL_WR_RESPFAIL (bits_put 29 14 (2 :: tag) (bits_put 13 10 TLRESP_CODE_RTY 0))"

lemma retried_command_witness:
  "\<exists>s' c q q' f. ocx_memory_egress_lookup_top 0 0 [0, 0, 0x3FC0] (init_load\<lparr>ld_input := [write_refused]\<rparr>) = Some s' \<and>
     ld_output s' = [c] \<and> RespEngSM 1 0 [] [] [] [] (q\<lparr>tlresp_fifo_in := [c]\<rparr>) = Some q' \<and>
     rtry_do_cmd_out q' = [f] \<and>
     toTLxCmdFlit 0 (as_flit f) = bits_put 5 0 TLRESP_CODE_RTY (bits_put 126 111 (2 :: tag) (0x3FC0 :: tlxcflit_t))"
proof -
  have f: "resp_tag_of write_refused = 2" "getRespCode (fromTLRespData write_refused OCxFlit) = TLRESP_CODE_RTY"
    "getRespOpcode (fromTLRespData write_refused OCxFlit) = TL_WR_RESPFAIL"
    unfolding resp_tag_of_def getRespCode_def getRespOpcode_def
    by (rule bit_word_eqI; auto simp: write_refused_def fromTLRespData_bits bit_ranges dest: bit_imp_le_length)+
  have retry: "bit (getTLRespState 0 (fromTLRespData write_refused OCxFlit)) 0"
    unfolding getTLRespState_opcode f by (simp add: opcode_defs Let_def bits_get_def)
  have x: "\<not> TLRespIsXlateDone (fromTLRespData write_refused OCxFlit)"
    using opcode_bit [of 3 "fromTLRespData write_refused OCxFlit"] opcode_bit [of 4 "fromTLRespData write_refused OCxFlit"]
    unfolding f by (simp add: TLRespIsXlateDone_def opcode_defs bits_get_def)
  let ?q = "init_resp\<lparr>capptag_count := 0x201, smstate := GET_CMD, lookup_out := map of_nat [1..<513]\<rparr>"
  have "run_steps (RespEngSM 1 0 [] [] [] []) 512 init_resp = Some ?q"
    using init_done [of init_resp] by (simp add: init_resp_def)
  from top_run [OF this, of 0 init_rty] obtain y where
    "run_steps (ocx_memory_egress_top 0 1 0 [] [] [] []) 512 (init_resp, init_rty) = Some (?q, y)" by blast
  then have reach: "egress_reachable (?q, y)"
    by (rule run_steps_inv [where P = egress_reachable, rotated 1]) (auto intro: egress_reachable.intros egress_step.clock)
  have tag: "unat (resp_tag_of write_refused) < length [0, 0, 0x3FC0 :: tlxscflit_t]" by (simp add: f)
  have st: "bits_get 198 0 (0x3FC0 :: tlxscflit_t) = (0x3FC0 :: tlxcflit_t)" by (simp add: bits_get_def)
  have q: "smstate ?q = GET_CMD" "tlresp_fifo_in ?q = []" "rtry_do_cmd_out ?q = []"
    by (simp_all add: init_resp_def)
  from retried_command [where s = "init_load\<lparr>ld_input := [write_refused]\<rparr>" and r = write_refused,
      OF _ tag retry reach q(1,2), of 0 0 1 0 "[]" "[]" "[]" "[]" 0] obtain s' c q' f where
    "ocx_memory_egress_lookup_top 0 0 [0, 0, 0x3FC0] (init_load\<lparr>ld_input := [write_refused]\<rparr>) = Some s'"
    "ld_output s' = [c]" "RespEngSM 1 0 [] [] [] [] (?q\<lparr>tlresp_fifo_in := [c]\<rparr>) = Some q'"
    "rtry_do_cmd_out q' = [f]"
    "toTLxCmdFlit 0 (as_flit f) = bits_put 5 0 TLRESP_CODE_RTY (bits_put 126 111 (2 :: tag) (0x3FC0 :: tlxcflit_t))"
    using f x q(3) st by (auto simp: init_load_def)
  then show ?thesis by blast
qed

text \<open>The last tag that is handed out has no entry in the table.\<close>

lemma last_tag_has_no_entry:
  "ld_input s = r # rest \<Longrightarrow> resp_tag_of r = 0x200 \<Longrightarrow> length cmdlookup = LOOKUPSIZE \<Longrightarrow>
   CmdFifoLoadSM r0 c0 cmdlookup s = None"
  by (simp add: CmdFifoLoadSM_def response_fields resp_tag_of_def LOOKUPSIZE_def Let_def)

end
