(* ===== verification/TFPipeline.thy ===== *)
theory TFPipeline imports TFEgress begin

text \<open>
  The memory egress path from the responses of the host to the tags, the network and the
  retried commands: the lookup module in front of the egress module, from reset on, while
  the host answers at any time.
\<close>

section \<open>Engines that wait for their input\<close>

datatype resp_in = Combo resp_combo_t | Data_flit ocxflitbdi_t

fun push_resp :: "resp_in \<Rightarrow> resp_eng \<Rightarrow> resp_eng" where
  "push_resp (Combo c) r = r\<lparr>tlresp_fifo_in := tlresp_fifo_in r @ [c]\<rparr>"
| "push_resp (Data_flit d) r = r\<lparr>tlresp_data_in := tlresp_data_in r @ [d]\<rparr>"

lemma push_update:
  "push_resp (Combo c) = tlresp_fifo_in_update (\<lambda>cs. cs @ [c])"
  "push_resp (Data_flit d) = tlresp_data_in_update (\<lambda>ds. ds @ [d])"
  by (rule ext, simp)+

definition resp_stalled :: "resp_eng \<Rightarrow> bool" where
  "resp_stalled r \<longleftrightarrow> smstate r = GET_CMD \<and> tlresp_fifo_in r = [] \<or>
     smstate r = GET_DATA \<and> respdataflag r \<and> tlresp_data_in r = []"

interpretation resp_timing: stalling "RespEngSM en sel0 d0 d1 d2 d3" push_resp resp_stalled
  for en sel0 d0 d1 d2 d3
proof unfold_locales
  fix r x
  show "RespEngSM en sel0 d0 d1 d2 d3 r = Some r" if "resp_stalled r"
    using that by (auto simp: resp_stalled_def RespEngSM_def get_cmd_step_def get_data_step_def)
  show "\<not> resp_stalled (push_resp x r)" if "\<not> resp_stalled r"
    using that by (cases x) (auto simp: resp_stalled_def)
  assume go: "\<not> resp_stalled r"
  show "RespEngSM en sel0 d0 d1 d2 d3 (push_resp x r) =
      map_option (push_resp x) (RespEngSM en sel0 d0 d1 d2 d3 r)"
  proof (cases "smstate r")
    case INIT
    then show ?thesis by (cases x) (simp_all add: RespEngSM_def init_step_def)
  next
    case GET_CMD
    then obtain c rest where "tlresp_fifo_in r = c # rest"
      using go by (cases "tlresp_fifo_in r") (auto simp: resp_stalled_def)
    then show ?thesis using GET_CMD
      by (cases x; cases r)
         (simp_all add: RespEngSM_def get_cmd_step_def Let_def push_update comp_def
           if_distrib [of "tlresp_fifo_in_update f" for f] if_distrib [of "tlresp_data_in_update f" for f]
           cong: if_cong del: push_resp.simps split del: if_split)
  next
    case GET_DATA
    show ?thesis
    proof (cases "respdataflag r")
      case True
      then obtain d rest where "tlresp_data_in r = d # rest"
        using go GET_DATA by (cases "tlresp_data_in r") (auto simp: resp_stalled_def)
      then show ?thesis using GET_DATA True
        by (cases x) (simp_all add: RespEngSM_def get_data_step_def Let_def)
    next
      case False
      then show ?thesis using GET_DATA
        by (cases x) (simp_all add: RespEngSM_def get_data_step_def Let_def)
    qed
  qed
qed

definition push_load :: "tlrflit_t \<Rightarrow> cmd_load \<Rightarrow> cmd_load" where
  "push_load x l = l\<lparr>ld_input := ld_input l @ [x]\<rparr>"

interpretation load_timing: stalling "CmdFifoLoadSM r0 c0 tbl" push_load "\<lambda>l. ld_input l = []" for r0 c0 tbl
proof unfold_locales
  fix l x
  show "CmdFifoLoadSM r0 c0 tbl l = Some l" if "ld_input l = []" using that by (simp add: CmdFifoLoadSM_def)
  show "ld_input (push_load x l) \<noteq> []" if "ld_input l \<noteq> []" using that by (simp add: push_load_def)
  show "CmdFifoLoadSM r0 c0 tbl (push_load x l) = map_option (push_load x) (CmdFifoLoadSM r0 c0 tbl l)"
    if "ld_input l \<noteq> []"
    using that by (cases "ld_input l") (simp_all add: CmdFifoLoadSM_def push_load_def Let_def)
qed

text \<open>What has arrived, stream by stream.\<close>

fun combos_of :: "resp_in list \<Rightarrow> resp_combo_t list" where
  "combos_of [] = []"
| "combos_of (Combo c # xs) = c # combos_of xs"
| "combos_of (Data_flit d # xs) = combos_of xs"

fun data_of :: "resp_in list \<Rightarrow> ocxflitbdi_t list" where
  "data_of [] = []"
| "data_of (Combo c # xs) = data_of xs"
| "data_of (Data_flit d # xs) = d # data_of xs"

lemma fill: "fold push_resp xs r =
    r\<lparr>tlresp_fifo_in := tlresp_fifo_in r @ combos_of xs, tlresp_data_in := tlresp_data_in r @ data_of xs\<rparr>"
  by (induction xs arbitrary: r rule: combos_of.induct) simp_all

section \<open>The path\<close>

text \<open>
  One clock step of both modules: what the lookup module writes goes to the input of the
  egress module.
\<close>

type_synonym path = "cmd_load \<times> resp_eng \<times> rty_eng"

definition egress_path :: "cutimer_t \<Rightarrow> valid_t \<Rightarrow> sel_t \<Rightarrow> tlrflit_t \<Rightarrow> tlxcflit_t \<Rightarrow> tlxscflit_t list \<Rightarrow>
    ocxflit list \<Rightarrow> ocxflit list \<Rightarrow> ocxflit list \<Rightarrow> ocxflit list \<Rightarrow> path \<Rightarrow> path option" where
  "egress_path timeout enable sel0 r0 c0 cmdlookup data0 data1 data2 data3 p = do {
     l \<leftarrow> ocx_memory_egress_lookup_top r0 c0 cmdlookup (fst p);
     let written = drop (length (ld_output (fst p))) (ld_output l);
     e \<leftarrow> ocx_memory_egress_top timeout enable sel0 data0 data1 data2 data3
            (fold (push_resp \<circ> Combo) written (fst (snd p)), snd (snd p));
     Some (l, e) }"

datatype host_in = Host_response tlrflit_t | Host_data ocxflitbdi_t

fun push_host :: "host_in \<Rightarrow> path \<Rightarrow> path" where
  "push_host (Host_response x) (l, r, y) = (push_load x l, r, y)"
| "push_host (Host_data d) (l, r, y) = (l, push_resp (Data_flit d) r, y)"

fun responses_of :: "host_in list \<Rightarrow> tlrflit_t list" where
  "responses_of [] = []"
| "responses_of (Host_response x # xs) = x # responses_of xs"
| "responses_of (Host_data d # xs) = responses_of xs"

fun host_data_of :: "host_in list \<Rightarrow> ocxflitbdi_t list" where
  "host_data_of [] = []"
| "host_data_of (Host_response x # xs) = host_data_of xs"
| "host_data_of (Host_data d # xs) = d # host_data_of xs"

text \<open>A response paired with the command stored under its tag.\<close>

definition paired :: "tlxscflit_t list \<Rightarrow> tlrflit_t \<Rightarrow> resp_combo_t" where
  "paired cmdlookup x = combo x (bits_put 214 199 (0 :: tag) (cmdlookup ! unat (resp_tag_of x)))"

definition in_table :: "tlxscflit_t list \<Rightarrow> tlrflit_t \<Rightarrow> bool" where
  "in_table cmdlookup x \<longleftrightarrow> unat (resp_tag_of x) < length cmdlookup"

lemma lookup_idle: "ld_input l = [] \<Longrightarrow> ocx_memory_egress_lookup_top r0 c0 tbl l = Some l"
  using load_timing.stalls by (simp add: ocx_memory_egress_lookup_top_def)

lemma lookup_busy:
  assumes "ld_input l = x # xs" "in_table tbl x"
  obtains l' where "ocx_memory_egress_lookup_top r0 c0 tbl l = Some l'" "ld_input l' = xs"
    "ld_output l' = ld_output l @ [paired tbl x]"
  using that load_step [OF assms(1), of tbl r0 c0] assms(2)
  by (simp add: in_table_def ocx_memory_egress_lookup_top_def paired_def Let_def)

text \<open>
  The response engine with all that is on its way: \<open>cs\<close> from the lookup module, \<open>ds\<close> from
  the host.
\<close>

definition fed :: "resp_combo_t list \<Rightarrow> ocxflitbdi_t list \<Rightarrow> resp_eng \<Rightarrow> resp_eng" where
  "fed cs ds r = r\<lparr>tlresp_fifo_in := tlresp_fifo_in r @ cs, tlresp_data_in := tlresp_data_in r @ ds\<rparr>"

lemma fed_fold: "fed cs ds r = fold push_resp (map Combo cs @ map Data_flit ds) r"
proof -
  have "combos_of (map Combo cs @ map Data_flit ds) = cs" "data_of (map Combo cs @ map Data_flit ds) = ds"
    by (induction cs; induction ds; simp)+
  then show ?thesis by (simp only: fill fed_def)
qed

lemma fed_push [simp]:
  "fed cs (d # ds) r = fed cs ds (push_resp (Data_flit d) r)"
  "fed (c # cs) ds r = fed cs ds (push_resp (Combo c) r)" "fed [] [] r = r"
  by (simp_all add: fed_def)

text \<open>
  The host interleaved with the clock.  \<open>all\<close> is the response engine with everything queued
  that the host is going to send: at any time the engine is on its run from there.
\<close>

lemma path_run:
  assumes "\<forall>x \<in> set (ld_input l @ responses_of (inputs es)). in_table tbl x"
    and "all = fed (map (paired tbl) (ld_input l @ responses_of (inputs es))) (host_data_of (inputs es)) r"
    and "\<And>k. run_steps (RespEngSM en sel0 d0 d1 d2 d3) k all \<noteq> None"
  shows "\<exists>l' r' evs k.
    run_events (egress_path t en sel0 r0 c0 tbl d0 d1 d2 d3) push_host es (l, r, y) =
      Some (l', r', fold (on_event t) evs y) \<and>
    run_steps (RespEngSM en sel0 d0 d1 d2 d3) k all = Some (fed (map (paired tbl) (ld_input l')) [] r') \<and>
    rtry_do_cmd_out r' = rtry_do_cmd_out r @ pushed evs \<and>
    length (ld_input l') \<le> length (ld_input l @ responses_of (inputs es)) \<and>
    (\<forall>x \<in> set (ld_input l'). in_table tbl x)"
  using assms
proof (induction es arbitrary: l r y all rule: inputs.induct)
  case 1
  show ?case
    by (rule exI [of _ l], rule exI [of _ r], rule exI [of _ "[]"], rule exI [of _ 0]) (use 1 in simp)
next
  case (2 es)
  let ?step = "RespEngSM en sel0 d0 d1 d2 d3"
  obtain l1 cs where l1: "ocx_memory_egress_lookup_top r0 c0 tbl l = Some l1"
      "ld_output l1 = ld_output l @ cs" "map (paired tbl) (ld_input l) = cs @ map (paired tbl) (ld_input l1)"
      "length (ld_input l1) \<le> length (ld_input l)" "set (ld_input l1) \<subseteq> set (ld_input l)"
  proof (cases "ld_input l")
    case Nil
    then show ?thesis using that [of l "[]"] lookup_idle [of l] by simp
  next
    case (Cons x xs)
    then have "in_table tbl x" using "2.prems"(1) by simp
    then obtain l' where "ocx_memory_egress_lookup_top r0 c0 tbl l = Some l'" "ld_input l' = xs"
        "ld_output l' = ld_output l @ [paired tbl x]" by (rule lookup_busy [OF Cons])
    then show ?thesis using that [of l' "[paired tbl x]"] Cons by auto
  qed
  let ?in = "map (paired tbl) (ld_input l1 @ responses_of (inputs es))"
  let ?ds = "host_data_of (inputs es)"
  define r1 where "r1 = fold (push_resp \<circ> Combo) cs r"
  have all: "all = fed ?in ?ds r1"
  proof -
    have "fold (push_resp \<circ> Combo) cs r = r\<lparr>tlresp_fifo_in := tlresp_fifo_in r @ cs\<rparr>"
      by (induction cs arbitrary: r) simp_all
    then show ?thesis using "2.prems"(2) l1(3) by (simp add: r1_def fed_def)
  qed
  obtain r2 k where r2: "?step r1 = Some r2" "\<And>n. run_steps ?step n (fed ?in ?ds r2) \<noteq> None"
      "run_steps ?step k all = Some (fed ?in ?ds r2)"
  proof (cases "resp_stalled r1")
    case True
    then show ?thesis using that [of r1 0] resp_timing.stalls "2.prems"(3) all by simp
  next
    case False
    from resp_timing.fold_step [OF this, of en sel0 d0 d1 d2 d3 "map Combo ?in @ map Data_flit ?ds"]
    have eq: "?step all = map_option (fed ?in ?ds) (?step r1)" unfolding all fed_fold by simp
    have "?step all \<noteq> None" using "2.prems"(3) [of 1] by auto
    then obtain r2 where r2: "?step r1 = Some r2" "?step all = Some (fed ?in ?ds r2)"
      using eq by (cases "?step r1") auto
    have "run_steps ?step n (fed ?in ?ds r2) \<noteq> None" for n using "2.prems"(3) [of "Suc n"] r2(2) by simp
    then show ?thesis using that [of r2 1] r2 by simp
  qed
  have "rtry_do_cmd_out r1 = rtry_do_cmd_out r" unfolding r1_def by (induction cs arbitrary: r) simp_all
  then obtain fls where fls: "rtry_do_cmd_out r2 = rtry_do_cmd_out r @ fls" "rtry_do_cmd_out r2 = rtry_do_cmd_out r1 @ fls"
    using RespEngSM_appends [OF r2(1)] by auto
  let ?y1 = "RtyEngSM t (y\<lparr>input_fifo := input_fifo y @ fls\<rparr>)"
  have step: "egress_path t en sel0 r0 c0 tbl d0 d1 d2 d3 (l, r, y) = Some (l1, r2, ?y1)"
    using l1(1,2) r2(1) fls(2) r1_def
    by (simp add: egress_path_def ocx_memory_egress_top_def Let_def)
  have tbl: "\<forall>x \<in> set (ld_input l1 @ responses_of (inputs es)). in_table tbl x"
    using "2.prems"(1) l1(5) by auto
  from "2.IH" [OF tbl refl r2(2), of ?y1] obtain l' r' evs j where
    r': "run_events (egress_path t en sel0 r0 c0 tbl d0 d1 d2 d3) push_host es (l1, r2, ?y1) =
        Some (l', r', fold (on_event t) evs ?y1)"
      "run_steps ?step j (fed ?in ?ds r2) = Some (fed (map (paired tbl) (ld_input l')) [] r')"
      "rtry_do_cmd_out r' = rtry_do_cmd_out r2 @ pushed evs"
      "length (ld_input l') \<le> length (ld_input l1 @ responses_of (inputs es))"
      "\<forall>x \<in> set (ld_input l'). in_table tbl x" by blast
  have "fold (on_event t) (map Push fls @ Clock # evs) y = fold (on_event t) evs ?y1"
    by (simp add: push_all)
  then show ?case
    using r' step r2(3) fls(1) l1(4)
    by (intro exI [of _ l'] exI [of _ r'] exI [of _ "map Push fls @ Clock # evs"] exI [of _ "k + j"])
       (simp add: run_steps_add)
next
  case (3 x es)
  show ?case
  proof (cases x)
    case (Host_response v)
    from "3.IH" [of "push_load v l" all r y] "3.prems" show ?thesis
      unfolding Host_response by (simp add: push_load_def)
  next
    case (Host_data d)
    from "3.IH" [of l all "push_resp (Data_flit d) r" y] "3.prems" show ?thesis
      unfolding Host_data by (simp del: push_resp.simps) simp
  qed
qed

section \<open>Coming to rest\<close>

lemma lookup_takes:
  "ocx_memory_egress_lookup_top r0 c0 tbl l = Some l' \<Longrightarrow> ld_input l' = tl (ld_input l)"
  by (auto simp: ocx_memory_egress_lookup_top_def CmdFifoLoadSM_def Let_def split: list.splits if_splits)

lemma path_lookup:
  "egress_path t en sel0 r0 c0 tbl d0 d1 d2 d3 (l, e) = Some (l', e') \<Longrightarrow>
   ocx_memory_egress_lookup_top r0 c0 tbl l = Some l'"
  by (auto simp: egress_path_def Let_def split: bind_splits)

lemma path_drains:
  "run_steps (egress_path t en sel0 r0 c0 tbl d0 d1 d2 d3) n (l, e) = Some (l', e') \<Longrightarrow>
   ld_input l' = drop n (ld_input l)"
proof (induction n arbitrary: l e)
  case (Suc n)
  then obtain l1 e1 where "egress_path t en sel0 r0 c0 tbl d0 d1 d2 d3 (l, e) = Some (l1, e1)"
      "run_steps (egress_path t en sel0 r0 c0 tbl d0 d1 d2 d3) n (l1, e1) = Some (l', e')"
    by (auto split: bind_splits)
  then show ?case using Suc.IH lookup_takes [OF path_lookup] by (simp add: drop_Suc)
qed simp

lemma path_idle:
  assumes "ld_input l = []"
  shows "run_steps (egress_path t en sel0 r0 c0 tbl d0 d1 d2 d3) n (l, e) =
    map_option (Pair l) (run_steps (ocx_memory_egress_top t en sel0 d0 d1 d2 d3) n e)"
proof (induction n arbitrary: e)
  case (Suc n)
  have "egress_path t en sel0 r0 c0 tbl d0 d1 d2 d3 (l, e) =
      map_option (Pair l) (ocx_memory_egress_top t en sel0 d0 d1 d2 d3 e)"
    using lookup_idle [OF assms, of r0 c0 tbl]
    by (cases "ocx_memory_egress_top t en sel0 d0 d1 d2 d3 e") (simp_all add: egress_path_def)
  then show ?case
    by (cases "ocx_memory_egress_top t en sel0 d0 d1 d2 d3 e") (simp_all add: Suc)
qed simp

text \<open>The response engine from reset on, with everything queued.\<close>

lemma resp_full_run:
  assumes "\<forall>t \<in> set ts. resp_ok [d0, d1, d2, d3] t"
  shows "\<exists>z. run_steps (RespEngSM 1 sel0 d0 d1 d2 d3) (512 + (\<Sum>t\<leftarrow>ts. Suc (data_flits (fst t))))
      (fed (map fst ts) (concat (map snd ts)) init_resp) = Some z \<and>
    resp_queued [d0, d1, d2, d3] z [] \<and>
    resp_seen z = fold (resp_effect [d0, d1, d2, d3]) ts (map of_nat [1..<513], [], [])"
proof -
  let ?all = "fed (map fst ts) (concat (map snd ts)) init_resp"
  define s where "s = ?all\<lparr>capptag_count := 0x201, smstate := GET_CMD, lookup_out := map of_nat [1..<513]\<rparr>"
  have run: "run_steps (RespEngSM 1 sel0 d0 d1 d2 d3) 512 ?all = Some s"
    using init_done [of ?all] by (simp add: s_def fed_def init_resp_def)
  have "resp_queued [d0, d1, d2, d3] s ts"
    using assms by (simp add: resp_queued_def s_def fed_def init_resp_def clean_zero)
  moreover have "resp_seen s = (map of_nat [1..<513], [], [])"
    by (simp add: resp_seen_def s_def fed_def init_resp_def)
  ultimately show ?thesis
    using resp.works_off [of d0 d1 d2 d3 s ts 1 sel0] run by (simp only: run_steps_add) auto
qed

lemma path_rests:
  assumes rs: "rs = responses_of (inputs es)" "\<forall>x \<in> set rs. in_table tbl x"
    and ts: "map fst ts = map (paired tbl) rs" "concat (map snd ts) = host_data_of (inputs es)"
      "\<forall>t \<in> set ts. resp_ok [d0, d1, d2, d3] t"
    and ps: "ps = retry_packets [d0, d1, d2, d3] ts"
    and n: "512 + length rs + (\<Sum>t\<leftarrow>ts. Suc (data_flits (fst t))) + 2 * length (flits ps) \<le> n"
  shows "\<exists>l r y. run_events (egress_path t 1 sel0 r0 c0 tbl d0 d1 d2 d3) push_host (es @ replicate n Tick)
      (init_load, init_resp, init_rty) = Some (l, r, y) \<and>
    ld_input l = [] \<and> resp_queued [d0, d1, d2, d3] r [] \<and>
    resp_seen r = fold (resp_effect [d0, d1, d2, d3]) ts (map of_nat [1..<513], [], []) \<and>
    at_rest y \<and> (\<exists>outs jail. output_fifo y = flits outs \<and> rty_jail y = flits jail \<and>
      filter (Not \<circ> refused) outs = filter (Not \<circ> refused) ps \<and>
      filter refused outs @ jail = filter refused ps \<and> (jail \<noteq> [] \<longrightarrow> refused (last ps)))"
proof -
  let ?path = "egress_path t 1 sel0 r0 c0 tbl d0 d1 d2 d3"
  let ?step = "RespEngSM 1 sel0 d0 d1 d2 d3"
  let ?top = "ocx_memory_egress_top t 1 sel0 d0 d1 d2 d3"
  let ?m = "512 + (\<Sum>t\<leftarrow>ts. Suc (data_flits (fst t)))"
  let ?all = "fed (map fst ts) (concat (map snd ts)) init_resp"
  let ?init = "(init_load, init_resp, init_rty)"
  obtain z where z: "run_steps ?step ?m ?all = Some z" "resp_queued [d0, d1, d2, d3] z []"
      "resp_seen z = fold (resp_effect [d0, d1, d2, d3]) ts (map of_nat [1..<513], [], [])"
    using resp_full_run [OF ts(3)] by blast
  have stalled: "resp_stalled z" using z(2) by (simp add: resp_queued_def resp_stalled_def)
  have some: "run_steps ?step k ?all \<noteq> None" for k by (rule resp_timing.total [OF z(1) stalled])
  have load0: "ld_input init_load = []" "rtry_do_cmd_out init_resp = []"
    by (simp_all add: init_load_def init_resp_def)
  have run: "\<exists>l r evs k. run_events ?path push_host (es @ replicate j Tick) ?init = Some (l, r, fold (on_event t) evs init_rty) \<and>
      run_steps ?step k ?all = Some (fed (map (paired tbl) (ld_input l)) [] r) \<and>
      rtry_do_cmd_out r = pushed evs \<and> length (ld_input l) \<le> length rs" for j
    using path_run [of init_load "es @ replicate j Tick" tbl ?all init_resp 1 sel0 d0 d1 d2 d3 t r0 c0 init_rty]
      some rs ts(1,2) load0 by simp metis
  obtain l0 e0 where s0: "run_events ?path push_host es ?init = Some (l0, e0)" "length (ld_input l0) \<le> length rs"
    using run [of 0] by auto
  obtain l1 r1 evs k where s1: "run_events ?path push_host (es @ replicate (length rs) Tick) ?init =
        Some (l1, r1, fold (on_event t) evs init_rty)"
      "run_steps ?step k ?all = Some (fed (map (paired tbl) (ld_input l1)) [] r1)"
      "rtry_do_cmd_out r1 = pushed evs"
    using run by blast
  have l1: "ld_input l1 = []"
    using s1(1) s0 path_drains by (simp add: run_events_append run_events_ticks)
  have "run_steps ?step (k + ?m) ?all = Some z" by (rule resp_timing.long_enough [OF z(1) stalled]) simp
  then have "run_steps ?step ?m r1 = Some z" using s1(2) l1 by (simp add: run_steps_add)
  from top_run [OF this, of t "fold (on_event t) evs init_rty"] obtain evs' where
    evs': "run_steps ?top ?m (r1, fold (on_event t) evs init_rty) =
        Some (z, fold (on_event t) (evs @ evs') init_rty)" "rtry_do_cmd_out z = pushed (evs @ evs')"
    using s1(3) by auto
  define q where "q = n - length rs - ?m"
  have q: "n = length rs + (?m + q)" "2 * length (flits ps) \<le> q" using n by (simp_all add: q_def)
  let ?y = "(RtyEngSM t ^^ q) (fold (on_event t) (evs @ evs') init_rty)"
  have "run_steps ?top (?m + q) (r1, fold (on_event t) evs init_rty) = Some (z, ?y)"
    using evs'(1) top_idle [of z] z(2) unfolding run_steps_add [of ?top ?m q] by (simp add: resp_queued_def)
  then have end_run: "run_events ?path push_host (es @ replicate n Tick) ?init = Some (l1, z, ?y)"
    using s1(1) path_idle [OF l1]
    unfolding q(1) replicate_add [of "length rs"] append_assoc [symmetric] run_events_append [of _ _ "_ @ _"]
    by (simp add: run_events_ticks)
  have "rtry_do_cmd_out z = flits ps"
    using arg_cong [OF z(3), of "\<lambda>x. fst (snd x)"] unfolding retry_effect ps by (simp add: resp_seen_def)
  then have pushed: "pushed (evs @ evs') = flits ps" using evs'(2) by simp
  have ok: "\<forall>p \<in> set ps. packet_ok p" unfolding ps retry_packets_def using retry_packet_ok by auto
  show ?thesis using end_run l1 z(2,3) interleaved_rest [OF ok pushed q(2) refl, of t] by blast
qed

section \<open>Properties\<close>

text \<open>
  C2: from reset on, and whatever the host answers in whatever interleaving with the clock: a
  number of clock steps after its last word, which only depends on what it sent, both modules
  are at rest.  The FIFO of tags holds those of the start-up and those the specification gives
  back, the network has got the responses with their data, and every command that was to
  be retried, taken from the table under the tag of the answer, has left as a whole packet,
  or waits in the jail because the last of them was refused.
\<close>

theorem egress_path_rests:
  assumes rs: "rs = responses_of (inputs es)" "\<forall>x \<in> set rs. in_table tbl x"
    and ts: "map fst ts = map (paired tbl) rs" "concat (map snd ts) = host_data_of (inputs es)"
      "\<forall>t \<in> set ts. resp_ok [d0, d1, d2, d3] t"
    and ps: "ps = retry_packets [d0, d1, d2, d3] ts"
    and n: "512 + length rs + (\<Sum>t\<leftarrow>ts. Suc (data_flits (fst t))) + 2 * length (flits ps) \<le> n"
  shows "\<exists>l r y. run_events (egress_path t 1 sel0 r0 c0 tbl d0 d1 d2 d3) push_host (es @ replicate n Tick)
      (init_load, init_resp, init_rty) = Some (l, r, y) \<and>
    ld_input l = [] \<and> resp_queued [d0, d1, d2, d3] r [] \<and>
    resp_seen r = fold (resp_effect [d0, d1, d2, d3]) ts (map of_nat [1..<513], [], []) \<and>
    at_rest y \<and> (\<exists>outs jail. output_fifo y = flits outs \<and> rty_jail y = flits jail \<and>
      filter (Not \<circ> refused) outs = filter (Not \<circ> refused) ps \<and>
      filter refused outs @ jail = filter refused ps \<and> (jail \<noteq> [] \<longrightarrow> refused (last ps)))"
  using assms by (rule path_rests)

text \<open>
  Two reads, of which the first is refused, answered while the tags are still handed out.
\<close>

definition demo_response :: "resp_combo_t \<Rightarrow> tlrflit_t" where
  "demo_response c = bits_get 252 215 c"

lemma paired_demo:
  "resp_tag_of (demo_response (refusal 3)) = 3" "resp_tag_of (demo_response (demo_combo opc 4)) = 4"
  "paired (replicate 8 0) (demo_response (refusal 3)) = refusal 3"
  "paired (replicate 8 0) (demo_response (demo_combo opc 4)) = demo_combo opc 4"
proof -
  show tags: "resp_tag_of (demo_response (refusal 3)) = 3" "resp_tag_of (demo_response (demo_combo opc 4)) = 4"
    by (rule bit_word_eqI; auto simp: resp_tag_of_def demo_response_def refusal_def demo_combo_def bit_ranges
        dest: bit_imp_le_length)+
  show "paired (replicate 8 0) (demo_response (refusal 3)) = refusal 3"
    "paired (replicate 8 0) (demo_response (demo_combo opc 4)) = demo_combo opc 4"
    unfolding paired_def tags
    by (rule bit_word_eqI; auto simp: combo_def demo_response_def refusal_def demo_combo_def bit_ranges
        dest: bit_imp_le_length)+
qed

lemma egress_path_rests_witness:
  "\<exists>l r y. run_events (egress_path 0 1 0 0 0 (replicate 8 0) [] [] [] []) push_host
       ([Tick, Input (Host_response (demo_response (refusal 3))), Tick, Tick,
         Input (Host_response (demo_response (demo_combo TL_XLATE_DONE 4)))] @ replicate 600 Tick)
       (init_load, init_resp, init_rty) = Some (l, r, y) \<and>
     lookup_out r = map of_nat [1..<513] \<and> network_cmd_out0 r = [] \<and>
     rty_jail y = [] \<and> length (output_fifo y) = 2"
proof -
  let ?es = "[Tick, Input (Host_response (demo_response (refusal 3))), Tick, Tick,
    Input (Host_response (demo_response (demo_combo TL_XLATE_DONE 4)))]"
  let ?ts = "[(refusal 3, []), (demo_combo TL_XLATE_DONE 4, [])] :: (resp_combo_t \<times> ocxflitbdi_t list) list"
  let ?p = "(toOCxFlit (retry_cmd (refusal 3)), []) :: packet"
  let ?q = "(toOCxFlit (retry_cmd (demo_combo TL_XLATE_DONE 4)), []) :: packet"
  let ?rs = "[demo_response (refusal 3), demo_response (demo_combo TL_XLATE_DONE 4)]"
  have n: "data_flits (refusal 3) = 0" "data_flits (demo_combo TL_XLATE_DONE 4) = 0"
    by (simp_all add: data_flits_def retry_demo refusal_fields)
  have ps: "[?p, ?q] = retry_packets [[], [], [], []] ?ts"
    by (simp add: retry_packets_def retry_packet_def retry_demo n)
  have ref: "refused ?p" "\<not> refused ?q"
    using retry_refused [of "[[], [], [], []]" "refusal 3"]
      retry_refused [of "[[], [], [], []]" "demo_combo TL_XLATE_DONE 4"]
    by (simp_all add: retry_packet_def retry_demo refusal_fields n)
  have rs: "?rs = responses_of (inputs ?es)" "\<forall>x \<in> set ?rs. in_table (replicate 8 0) x"
    by (simp_all add: in_table_def paired_demo)
  have ts: "map fst ?ts = map (paired (replicate 8 0)) ?rs" "concat (map snd ?ts) = host_data_of (inputs ?es)"
    "\<forall>t \<in> set ?ts. resp_ok [[], [], [], []] t"
    by (simp_all add: paired_demo resp_ok_def retry_demo refusal_fields)
  have le: "512 + length ?rs + (\<Sum>t\<leftarrow>?ts. Suc (data_flits (fst t))) + 2 * length (flits [?p, ?q]) \<le> 600"
    by (simp add: n)
  from egress_path_rests [OF rs ts ps le, of 0 0 0 0] ref obtain l r y outs where
    r: "run_events (egress_path 0 1 0 0 0 (replicate 8 0) [] [] [] []) push_host (?es @ replicate 600 Tick)
        (init_load, init_resp, init_rty) = Some (l, r, y)"
      "resp_seen r = fold (resp_effect [[], [], [], []]) ?ts (map of_nat [1..<513], [], [])"
      "output_fifo y = flits outs" "rty_jail y = []"
      "filter (Not \<circ> refused) outs = [?q]" "filter refused outs = [?p]" by auto
  have "length (flits outs) = length (flits (filter refused outs)) + length (flits (filter (Not \<circ> refused) outs))"
    by (induction outs) auto
  moreover have "lookup_out r = map of_nat [1..<513]" "network_cmd_out0 r = []"
    using r(2) by (simp_all add: resp_seen_def retry_demo)
  ultimately show ?thesis using r(1,3-6) by auto
qed

end
