(* ===== verification/TFDepth.thy ===== *)
theory TFDepth imports TFPipeline begin

text \<open>
  The depths that \<^verbatim>\<open>ocx_memory_egress_top.cpp\<close> gives the two streams inside the egress
  module.  In the other theories streams are unbounded, as they are when the C++ code runs; in
  hardware a write to a full stream blocks the engine that writes.  The output stream
  \<^verbatim>\<open>rty_issue_fifo_out\<close> leaves the module without a depth of its own: here it is always taken.
\<close>

section \<open>Model\<close>

definition RTY_FIFO_DEPTH :: nat where "RTY_FIFO_DEPTH = 128"
definition JAIL_DEPTH :: nat where "JAIL_DEPTH = 512"

text \<open>
  A step that would write to the full jail does not take place: the engine waits in it.  (What
  it has read in that step it holds; here it is still at the input.)
\<close>

definition RtyEngSM_hw :: "cutimer_t \<Rightarrow> rty_eng \<Rightarrow> rty_eng" where
  "RtyEngSM_hw timeout s =
     (let s' = RtyEngSM timeout s in if JAIL_DEPTH < length (rty_jail s') then s else s')"

text \<open>
  \<open>(q, s)\<close>: the engine with its producer; \<open>q\<close> is what the producer wants to write to
  \<^verbatim>\<open>rty_unit_fifo_in\<close>, in this order, and cannot, because the stream is full.
\<close>

type_synonym fed_rty = "ocxflit list \<times> rty_eng"

definition admit :: "ocxflit list \<Rightarrow> rty_eng \<Rightarrow> fed_rty" where
  "admit q s = (let room = RTY_FIFO_DEPTH - length (input_fifo s) in
     (drop room q, s\<lparr>input_fifo := input_fifo s @ take room q\<rparr>))"

fun on_event_hw :: "cutimer_t \<Rightarrow> rty_event \<Rightarrow> fed_rty \<Rightarrow> fed_rty" where
  "on_event_hw t Clock (q, s) = admit q (RtyEngSM_hw t s)"
| "on_event_hw t (Push fl) (q, s) = admit (q @ [fl]) s"

text \<open>
  The egress module: the response engine waits in its step as long as something it has
  written waits.
\<close>

definition ocx_memory_egress_top_hw ::
    "cutimer_t \<Rightarrow> valid_t \<Rightarrow> sel_t \<Rightarrow> ocxflit list \<Rightarrow> ocxflit list \<Rightarrow> ocxflit list \<Rightarrow> ocxflit list \<Rightarrow>
     resp_eng \<times> fed_rty \<Rightarrow> (resp_eng \<times> fed_rty) option" where
  "ocx_memory_egress_top_hw timeout enable sel0 data0 data1 data2 data3 e =
     (if fst (snd e) \<noteq> [] then Some (fst e, on_event_hw timeout Clock (snd e))
      else do {
        r \<leftarrow> RespEngSM enable sel0 data0 data1 data2 data3 (fst e);
        let written = drop (length (rtry_do_cmd_out (fst e))) (rtry_do_cmd_out r);
        Some (r, fold (on_event_hw timeout) (map Push written @ [Clock]) (snd e)) })"

text \<open>The host writes to the inputs of the response engine between two steps.\<close>

fun push_top :: "resp_in \<Rightarrow> resp_eng \<times> 'h \<Rightarrow> resp_eng \<times> 'h" where
  "push_top x (r, h) = (push_resp x r, h)"

section \<open>The depth of the input\<close>

text \<open>
  \<open>unbounded (q, s)\<close>: the engine if its input had room for all.  The depth of the input alone
  does not change what the engine does: a step that finds nothing there finds nothing
  waiting either.
\<close>

fun unbounded :: "fed_rty \<Rightarrow> rty_eng" where
  "unbounded (q, s) = s\<lparr>input_fifo := input_fifo s @ q\<rparr>"

fun fed_ok :: "fed_rty \<Rightarrow> bool" where
  "fed_ok (q, s) \<longleftrightarrow> length (input_fifo s) \<le> RTY_FIFO_DEPTH \<and>
     (q \<noteq> [] \<longrightarrow> length (input_fifo s) = RTY_FIFO_DEPTH)"

fun jail_event :: "cutimer_t \<Rightarrow> rty_event \<Rightarrow> rty_eng \<Rightarrow> rty_eng" where
  "jail_event t Clock s = RtyEngSM_hw t s"
| "jail_event t (Push fl) s = s\<lparr>input_fifo := input_fifo s @ [fl]\<rparr>"

lemma admit_unbounded: "unbounded (admit q s) = s\<lparr>input_fifo := input_fifo s @ q\<rparr>"
  by (simp add: admit_def Let_def)

lemma admit_ok: "length (input_fifo s) \<le> RTY_FIFO_DEPTH \<Longrightarrow> fed_ok (admit q s)"
  by (auto simp: admit_def Let_def)

lemma admit_room: "length (input_fifo s) + length q \<le> RTY_FIFO_DEPTH \<Longrightarrow>
    admit q s = ([], s\<lparr>input_fifo := input_fifo s @ q\<rparr>)"
  by (simp add: admit_def Let_def)

text \<open>What arrives later does not matter to a step that finds a flit at the input.\<close>

lemma later_input:
  "input_fifo s \<noteq> [] \<or> q = [] \<Longrightarrow>
   RtyEngSM t (s\<lparr>input_fifo := input_fifo s @ q\<rparr>) =
     (RtyEngSM t s)\<lparr>input_fifo := input_fifo (RtyEngSM t s) @ q\<rparr>"
  by (cases "rsmstate s"; cases "input_fifo s"; cases "rty_jail s")
     (simp_all add: RtyEngSM_def start_step_def data_step_def jail_data_step_def Let_def)

lemma step_input: "length (input_fifo (RtyEngSM t s)) \<le> length (input_fifo s)"
  by (cases "rsmstate s"; cases "input_fifo s"; cases "rty_jail s")
     (simp_all add: RtyEngSM_def start_step_def data_step_def jail_data_step_def Let_def)

lemma on_event_unbounded:
  assumes "fed_ok h"
  shows "unbounded (on_event_hw t e h) = jail_event t e (unbounded h) \<and> fed_ok (on_event_hw t e h)"
proof (cases h)
  case (Pair q s)
  show ?thesis
  proof (cases e)
    case Clock
    have "input_fifo s \<noteq> [] \<or> q = []" using assms Pair by (auto simp: RTY_FIFO_DEPTH_def)
    from later_input [OF this, of t] step_input [of t s] assms show ?thesis
      unfolding Pair Clock on_event_hw.simps admit_unbounded
      by (auto simp: RtyEngSM_hw_def Let_def intro!: admit_ok)
  next
    case (Push fl)
    then show ?thesis using assms Pair admit_ok [of s "q @ [fl]"] by (simp add: admit_unbounded)
  qed
qed

lemma fold_unbounded:
  "fed_ok h \<Longrightarrow> unbounded (fold (on_event_hw t) es h) = fold (jail_event t) es (unbounded h) \<and>
   fed_ok (fold (on_event_hw t) es h)"
proof (induction es arbitrary: h)
  case (Cons e es)
  from on_event_unbounded [OF Cons.prems, of t e] Cons.IH [of "on_event_hw t e h"] show ?case by simp
qed simp

lemma fed_ok_init: "fed_ok ([], init_rty)" "unbounded ([], init_rty) = init_rty"
  by (simp_all add: init_rty_def)

section \<open>When the jail is deep enough\<close>

lemma sim_jail_length:
  "sim s future a \<Longrightarrow> rsmstate s \<noteq> JAIL_DATA \<Longrightarrow> length (rty_jail s) \<le> length (flits (pk_jail a))"
proof -
  assume s: "sim s future a" "rsmstate s \<noteq> JAIL_DATA"
  then obtain ds where "rty_jail s @ ds = flits (pk_jail a)"
    by (cases "rsmstate s"; cases "jaildata s") (auto simp: sim_def)
  then have "length (flits (pk_jail a)) = length (rty_jail s) + length ds" by (metis length_append)
  then show ?thesis by simp
qed

lemma flits_length: "length (flits ps) = (\<Sum>p\<leftarrow>ps. Suc (length (snd p)))"
  by (induction ps) auto

lemma flits_sub:
  assumes "mset ps \<subseteq># mset qs"
  shows "length (flits ps) \<le> length (flits qs)"
proof -
  have size: "length (flits xs) = (\<Sum>p\<in>#mset xs. Suc (length (snd p)))" for xs
    by (induction xs) simp_all
  obtain R where "mset qs = mset ps + R" using assms by (auto simp: mset_subset_eq_exists_conv)
  then show ?thesis unfolding size by simp
qed

lemma jail_of_refused: "pk_inv ps a \<Longrightarrow> length (flits (pk_jail a)) \<le> length (flits (filter refused ps))"
proof -
  assume "pk_inv ps a"
  then obtain taken where "ps = taken @ pk_todo a" "filter refused (pk_out a) @ pk_jail a = filter refused taken"
    unfolding pk_inv_def by blast
  then have "filter refused ps = filter refused (pk_out a) @ pk_jail a @ filter refused (pk_todo a)" by simp
  then show ?thesis by simp
qed

lemma to_jail_data:
  "rsmstate (RtyEngSM t s) = JAIL_DATA \<Longrightarrow> length (rty_jail (RtyEngSM t s)) \<le> length (rty_jail s)"
  by (cases "rsmstate s")
     (auto simp: RtyEngSM_def start_step_def data_step_def jail_data_step_def Let_def split: list.splits if_splits)

lemma hw_same:
  "sim s (pushed es @ future) a \<Longrightarrow> pk_inv ps a \<Longrightarrow> length (flits (filter refused ps)) \<le> JAIL_DEPTH \<Longrightarrow>
   length (rty_jail s) \<le> JAIL_DEPTH \<Longrightarrow> fold (jail_event t) es s = fold (on_event t) es s"
proof (induction es arbitrary: s a rule: pushed.induct)
  case (2 es)
  obtain a' where a': "a' = a \<or> pk_step a a'" "sim (RtyEngSM t s) (pushed es @ future) a'"
    using sim_clock [of s "pushed es @ future" a t] "2.prems"(1) by auto
  then have inv: "pk_inv ps a'" using pk_step_inv "2.prems"(2) by blast
  have "length (rty_jail (RtyEngSM t s)) \<le> JAIL_DEPTH"
    using sim_jail_length [OF a'(2)] jail_of_refused [OF inv] to_jail_data [of t s] "2.prems"(3,4) by linarith
  with "2.IH" [OF a'(2) inv] "2.prems"(3) show ?case by (simp add: RtyEngSM_hw_def Let_def)
next
  case (3 fl es)
  then show ?case using sim_push [of s fl "pushed es @ future" a] by simp
qed simp

section \<open>When it is not\<close>

text \<open>
  \<open>doomed\<close>: the packets \<open>bad\<close> are refused and have more flits than the jail holds.  Either the
  first of them is still to come, or the lock is on and will not come off: the command that
  would lift it is behind them.
\<close>

definition doomed :: "packet list \<Rightarrow> packet list \<Rightarrow> packet list \<Rightarrow> pk \<Rightarrow> bool" where
  "doomed before bad after a \<longleftrightarrow>
     (\<exists>b. pk_todo a = b @ bad @ after \<and> mset (pk_out a) + mset (pk_jail a) + mset b = mset before) \<or>
     (\<exists>b1 b2 j. bad = b1 @ b2 \<and> pk_todo a = b2 @ after \<and> pk_lock a \<and> pk_jail a = j @ b1 \<and>
        mset (pk_out a) \<subseteq># mset before)"

lemma doomed_init: "doomed before bad after (pk_init (before @ bad @ after))"
  by (simp add: doomed_def pk_init_def)

lemma doomed_out: "doomed before bad after a \<Longrightarrow> mset (pk_out a) \<subseteq># mset before"
  by (auto simp: doomed_def add.assoc mset_subset_eq_add_left dest!: sym [of _ "mset before"])

lemma doomed_step:
  assumes "pk_step a a'" "doomed before bad after a"
    and bad: "\<forall>p \<in> set bad. refused p" "bad \<noteq> []"
    and room: "length (flits (pk_jail a)) < length (flits bad)"
  shows "doomed before bad after a'"
  using assms(2) unfolding doomed_def
proof (elim disjE exE conjE)
  fix b assume a: "pk_todo a = b @ bad @ after" "mset (pk_out a) + mset (pk_jail a) + mset b = mset before"
  from assms(1) show "(\<exists>b. pk_todo a' = b @ bad @ after \<and> mset (pk_out a') + mset (pk_jail a') + mset b = mset before) \<or>
     (\<exists>b1 b2 j. bad = b1 @ b2 \<and> pk_todo a' = b2 @ after \<and> pk_lock a' \<and> pk_jail a' = j @ b1 \<and>
        mset (pk_out a') \<subseteq># mset before)"
  proof cases
    case (jailed p ps)
    show ?thesis
    proof (cases b)
      case Nil
      then obtain bad' where "bad = p # bad'" "ps = bad' @ after" using a(1) jailed(2) bad(2) by (cases bad) auto
      then show ?thesis using a(2) Nil jailed(1)
        by (intro disjI2 exI [of _ "[p]"] exI [of _ bad'] exI [of _ "pk_jail a"]) (auto simp flip: a(2))
    next
      case (Cons q b')
      then show ?thesis using a jailed(1,2) by (intro disjI1 exI [of _ b']) (simp add: ac_simps)
    qed
  next
    case (passed p ps)
    then obtain b' where "b = p # b'" using a(1) bad by (cases b; cases bad) auto
    then show ?thesis using a passed(1,2) by (intro disjI1 exI [of _ b']) (simp add: ac_simps)
  next
    case (released p ps)
    then show ?thesis using a by (intro disjI1 exI [of _ b]) (simp add: ac_simps)
  qed
next
  fix b1 b2 j assume a: "bad = b1 @ b2" "pk_todo a = b2 @ after" "pk_lock a" "pk_jail a = j @ b1"
    "mset (pk_out a) \<subseteq># mset before"
  have "b2 \<noteq> []" using room a(1,4) by auto
  then obtain p b3 where b2: "b2 = p # b3" by (cases b2) auto
  then have "refused p" using a(1) bad(1) by simp
  from assms(1) have "a' = a\<lparr>pk_jail := pk_jail a @ [p], pk_lock := True, pk_todo := b3 @ after\<rparr>"
    by cases (use a(2,3) b2 \<open>refused p\<close> in auto)
  then show "(\<exists>b. pk_todo a' = b @ bad @ after \<and> mset (pk_out a') + mset (pk_jail a') + mset b = mset before) \<or>
     (\<exists>b1 b2 j. bad = b1 @ b2 \<and> pk_todo a' = b2 @ after \<and> pk_lock a' \<and> pk_jail a' = j @ b1 \<and>
        mset (pk_out a') \<subseteq># mset before)"
    using a b2 by (intro disjI2 exI [of _ "b1 @ [p]"] exI [of _ b3] exI [of _ j]) simp
qed

lemma sim_clock_start:
  assumes "sim s future a"
  shows "\<exists>a'. (a' = a \<or> rsmstate s = START \<and> pk_step a a') \<and> sim (RtyEngSM t s) future a'"
proof (cases "rsmstate s")
  case START
  then show ?thesis using sim_start [OF assms] by (simp add: RtyEngSM_def)
next
  case DATA
  then show ?thesis using sim_data [OF assms] by (auto simp: RtyEngSM_def)
next
  case JAIL_DATA
  then show ?thesis using sim_jail_data [OF assms] by (auto simp: RtyEngSM_def)
qed

lemma doomed_run:
  assumes bad: "\<forall>p \<in> set bad. refused p" "JAIL_DEPTH < length (flits bad)"
  shows "sim s (pushed es @ future) a \<Longrightarrow> doomed before bad after a \<Longrightarrow> length (rty_jail s) \<le> JAIL_DEPTH \<Longrightarrow>
    \<exists>a'. sim (fold (jail_event t) es s) future a' \<and> doomed before bad after a' \<and>
      length (rty_jail (fold (jail_event t) es s)) \<le> JAIL_DEPTH"
proof (induction es arbitrary: s a rule: pushed.induct)
  case 1
  then show ?case by auto
next
  case (2 es)
  show ?case
  proof (cases "JAIL_DEPTH < length (rty_jail (RtyEngSM t s))")
    case True
    then show ?thesis using "2.IH" [of s a] "2.prems" by (simp add: RtyEngSM_hw_def Let_def)
  next
    case False
    obtain a' where a': "a' = a \<or> rsmstate s = START \<and> pk_step a a'" "sim (RtyEngSM t s) (pushed es @ future) a'"
      using sim_clock_start [of s "pushed es @ future" a t] "2.prems"(1) by auto
    have "doomed before bad after a'"
    proof (cases "a' = a")
      case False
      then have st: "rsmstate s = START" "pk_step a a'" using a'(1) by auto
      then have "rty_jail s = flits (pk_jail a)" using "2.prems"(1) by (auto simp: sim_def)
      then have "length (flits (pk_jail a)) < length (flits bad)" using "2.prems"(3) bad(2) by simp
      moreover have "bad \<noteq> []" using bad(2) by auto
      ultimately show ?thesis using doomed_step [OF st(2) "2.prems"(2) bad(1)] by blast
    qed (use "2.prems"(2) in simp)
    then show ?thesis using "2.IH" [OF a'(2)] False by (simp add: RtyEngSM_hw_def Let_def)
  qed
next
  case (3 fl es)
  then show ?case using sim_push [of s fl "pushed es @ future" a] by simp
qed

lemma sim_output: "sim s future a \<Longrightarrow> \<exists>rest. output_fifo s @ rest = flits (pk_out a)"
  by (cases "rsmstate s"; cases "jaildata s") (auto simp: sim_def)

lemma jail_event_in_flight:
  "in_flight (fold (jail_event t) es s) = in_flight s + mset (pushed es)"
proof (induction es arbitrary: s rule: pushed.induct)
  case (2 es)
  have "in_flight (RtyEngSM_hw t s) = in_flight s" by (simp add: RtyEngSM_hw_def RtyEngSM_in_flight Let_def)
  with 2 show ?case by simp
next
  case (3 fl es)
  then show ?case by (simp add: in_flight_def)
qed simp

section \<open>The stream between the engines\<close>

text \<open>While the engine empties a packet out of the jail, at most its data flits pile up.\<close>

definition backlog :: "rty_eng \<Rightarrow> nat" where
  "backlog s = length (input_fifo s) + (if rsmstate s = JAIL_DATA then unat (rdata s) else 0)"

lemma unat_count: "n \<le> 4 \<Longrightarrow> unat (of_nat n :: dlsize_t) = n"
  by (simp only: unat_of_nat) (simp add: take_bit_nat_eq_self)

lemma backlog_step:
  assumes "sim s future a" "backlog s \<le> 5"
  shows "backlog (RtyEngSM t s) \<le> 4"
proof (cases "rsmstate s")
  case START
  show ?thesis
  proof (cases "input_fifo s")
    case (Cons fl rest)
    obtain ds ps where p: "pk_todo a = (fl, ds) # ps"
      using flits_Cons [of fl "rest @ future" "pk_todo a"] assms(1) Cons START by (auto simp: sim_def)
    have "packet_ok (fl, ds)" using assms(1) p by (auto simp: sim_def)
    from start_input(1,2) [OF START Cons this] assms(2) Cons START show ?thesis
      by (simp add: backlog_def RtyEngSM_def)
  next
    case Nil
    show ?thesis
    proof (cases "rty_jail s = [] \<or> xlate_lock s")
      case True
      then have "RtyEngSM t s = s" using Nil START by (auto simp: RtyEngSM_def start_step_def split: list.splits)
      then show ?thesis using Nil START by (simp add: backlog_def)
    next
      case False
      then obtain fl rest where j: "rty_jail s = fl # rest" by (cases "rty_jail s") auto
      then obtain ds ps where p: "pk_jail a = (fl, ds) # ps"
        using flits_Cons [of fl rest "pk_jail a"] assms(1) START by (auto simp: sim_def)
      have ok: "packet_ok (fl, ds)" using assms(1) p by (auto simp: sim_def)
      have "\<not> xlate_lock s" using False by simp
      from start_jail [OF START Nil j this ok] packet_data(2) [OF ok] START show ?thesis
        by (auto simp: backlog_def RtyEngSM_def unat_count)
    qed
  qed
next
  case DATA
  then show ?thesis using assms(2)
    by (auto simp: backlog_def RtyEngSM_def data_step_def Let_def split: list.splits)
next
  case JAIL_DATA
  then obtain ds where ds: "ds \<noteq> []" "length ds \<le> 4" "rdata s = of_nat (length ds)" "rty_jail s = ds @ flits (pk_jail a)"
    using assms(1) by (auto simp: sim_def)
  obtain d ds' where d: "ds = d # ds'" "rdata s = 1 \<longleftrightarrow> ds' = []" "rdata s - 1 = of_nat (length ds')" "length ds' \<le> 4"
    using count_down [OF ds(1-3)] by metis
  have "unat (rdata s) = length ds" unfolding ds(3) by (rule unat_count [OF ds(2)])
  then show ?thesis using JAIL_DATA assms(2) d ds(4)
    by (auto simp: backlog_def RtyEngSM_def jail_data_step_def Let_def unat_count)
qed

lemma backlog_push: "backlog (s\<lparr>input_fifo := input_fifo s @ fs\<rparr>) = backlog s + length fs"
  by (simp add: backlog_def)

lemma resp_appends:
  assumes "run_steps (RespEngSM en sel0 d0 d1 d2 d3) n r = Some r'"
  shows "\<exists>fs. rtry_do_cmd_out r' = rtry_do_cmd_out r @ fs"
proof -
  let ?P = "\<lambda>x. \<exists>fs. rtry_do_cmd_out x = rtry_do_cmd_out r @ fs"
  have "?P x'" if "RespEngSM en sel0 d0 d1 d2 d3 x = Some x'" "?P x" for x x'
    using RespEngSM_appends [OF that(1)] that(2) by auto
  from run_steps_inv [where P = ?P, OF this assms] show ?thesis by simp
qed

lemma push_keeps_out [simp]: "rtry_do_cmd_out (push_resp x r) = rtry_do_cmd_out r"
  by (cases x) simp_all

lemma resp_events_append:
  "run_events (RespEngSM en sel0 d0 d1 d2 d3) push_resp es r = Some r' \<Longrightarrow>
   \<exists>fs. rtry_do_cmd_out r' = rtry_do_cmd_out r @ fs"
proof (induction es arbitrary: r rule: inputs.induct)
  case (2 es)
  then obtain r1 where "RespEngSM en sel0 d0 d1 d2 d3 r = Some r1"
      "run_events (RespEngSM en sel0 d0 d1 d2 d3) push_resp es r1 = Some r'" by (auto split: bind_splits)
  then show ?case using RespEngSM_appends "2.IH" by (metis append_assoc)
next
  case (3 x es)
  then show ?case using "3.IH" [of "push_resp x r"] by simp
qed simp

text \<open>
  The module with the depths and the module without them, side by side, while the refused
  flits fit into the jail.  \<open>future\<close> is what the response engine has yet to write.
\<close>

lemma hw_run:
  assumes fits: "length (flits (filter refused ps)) \<le> JAIL_DEPTH"
  shows "run_events (RespEngSM en sel0 d0 d1 d2 d3) push_resp es r = Some r' \<Longrightarrow>
    rtry_do_cmd_out r' @ rest = rtry_do_cmd_out r @ future \<Longrightarrow> sim y future a \<Longrightarrow> pk_inv ps a \<Longrightarrow>
    length (rty_jail y) \<le> JAIL_DEPTH \<Longrightarrow> backlog y \<le> 4 \<Longrightarrow>
    \<exists>y'. run_events (ocx_memory_egress_top t en sel0 d0 d1 d2 d3) push_top es (r, y) = Some (r', y') \<and>
      run_events (ocx_memory_egress_top_hw t en sel0 d0 d1 d2 d3) push_top es (r, [], y) = Some (r', [], y') \<and>
      backlog y' \<le> 4"
proof (induction es arbitrary: r y a future rule: inputs.induct)
  case (2 es)
  let ?top = "ocx_memory_egress_top t en sel0 d0 d1 d2 d3" and ?hw = "ocx_memory_egress_top_hw t en sel0 d0 d1 d2 d3"
  obtain r1 where r1: "RespEngSM en sel0 d0 d1 d2 d3 r = Some r1"
      "run_events (RespEngSM en sel0 d0 d1 d2 d3) push_resp es r1 = Some r'"
    using "2.prems"(1) by (auto split: bind_splits)
  obtain fs where fs: "rtry_do_cmd_out r1 = rtry_do_cmd_out r @ fs" "length fs \<le> 1"
    using RespEngSM_one [OF r1(1)] by blast
  obtain gs where "rtry_do_cmd_out r' = rtry_do_cmd_out r1 @ gs" using resp_events_append [OF r1(2)] by blast
  then have future: "future = fs @ gs @ rest" using "2.prems"(2) fs(1) by simp
  let ?y = "y\<lparr>input_fifo := input_fifo y @ fs\<rparr>"
  have y: "sim ?y (gs @ rest) a"
    using "2.prems"(3) future fs(2) sim_push [of y "hd fs" "gs @ rest" a] by (cases fs) auto
  have b: "backlog ?y \<le> 5" using "2.prems"(6) fs(2) by (simp add: backlog_push)
  obtain a' where a': "a' = a \<or> pk_step a a'" "sim (RtyEngSM t ?y) (gs @ rest) a'" using sim_clock [OF y] by blast
  then have inv: "pk_inv ps a'" using pk_step_inv "2.prems"(4) by blast
  have jail: "length (rty_jail (RtyEngSM t ?y)) \<le> JAIL_DEPTH"
    using sim_jail_length [OF a'(2)] jail_of_refused [OF inv] to_jail_data [of t ?y] fits "2.prems"(5) by fastforce
  have b': "backlog (RtyEngSM t ?y) \<le> 4" by (rule backlog_step [OF y b])
  have top: "?top (r, y) = Some (r1, RtyEngSM t ?y)"
    using r1(1) fs(1) by (simp add: ocx_memory_egress_top_def Let_def)
  have "length (input_fifo y) \<le> 4" using "2.prems"(6) by (simp add: backlog_def)
  moreover have "length (input_fifo (RtyEngSM t ?y)) \<le> 4" using b' by (simp add: backlog_def)
  ultimately have "?hw (r, [], y) = Some (r1, [], RtyEngSM t ?y)"
    using r1(1) fs jail
    by (cases fs) (simp_all add: ocx_memory_egress_top_hw_def admit_room RtyEngSM_hw_def RTY_FIFO_DEPTH_def Let_def)
  moreover have "rtry_do_cmd_out r' @ rest = rtry_do_cmd_out r1 @ gs @ rest"
    using \<open>rtry_do_cmd_out r' = _\<close> by simp
  ultimately show ?case using "2.IH" [OF r1(2) _ a'(2) inv jail b'] top by auto
qed auto

section \<open>Properties\<close>

text \<open>
  C25: from reset on, as long as the refused flits, with their data, fit into the jail and the
  output is taken: however the host's answers interleave with the clock, the depths of the two
  streams do not matter, neither engine ever waits for room, and the stream between them never
  holds more than four flits after a clock step, five within one, of the 128 it has room for.
\<close>

theorem retry_fifo_bound:
  assumes "combos_of (inputs es) = map fst ts" "data_of (inputs es) = concat (map snd ts)"
    and "\<forall>t \<in> set ts. resp_ok [d0, d1, d2, d3] t"
    and "length (flits (filter refused (retry_packets [d0, d1, d2, d3] ts))) \<le> JAIL_DEPTH"
  shows "\<exists>r y. run_events (ocx_memory_egress_top t 1 sel0 d0 d1 d2 d3) push_top es (init_resp, init_rty) = Some (r, y) \<and>
    run_events (ocx_memory_egress_top_hw t 1 sel0 d0 d1 d2 d3) push_top es (init_resp, [], init_rty) =
      Some (r, [], y) \<and>
    length (input_fifo y) \<le> 4 \<and> length (input_fifo y) + 1 < RTY_FIFO_DEPTH"
proof -
  let ?step = "RespEngSM 1 sel0 d0 d1 d2 d3" and ?ps = "retry_packets [d0, d1, d2, d3] ts"
  have all: "fed (map fst ts) (concat (map snd ts)) init_resp = fold push_resp (inputs es) init_resp"
    by (simp add: fill fed_def assms(1,2))
  obtain n z where z: "run_steps ?step n (fold push_resp (inputs es) init_resp) = Some z"
      "resp_queued [d0, d1, d2, d3] z []"
      "resp_seen z = fold (resp_effect [d0, d1, d2, d3]) ts (map of_nat [1..<513], [], [])"
    using resp_full_run [OF assms(3), of sel0] unfolding all by blast
  have stalled: "resp_stalled z" using z(2) by (simp add: resp_queued_def resp_stalled_def)
  obtain k r where r: "run_events ?step push_resp es init_resp = Some r"
      "run_steps ?step k (fold push_resp (inputs es) init_resp) = Some r"
    using resp_timing.determinate [of 1 sel0 d0 d1 d2 d3 es "[]" init_resp] resp_timing.total [OF z(1) stalled] by auto
  have "run_steps ?step n r = Some z"
    using resp_timing.long_enough [OF z(1) stalled, of "k + n"] r(2) by (simp add: run_steps_add)
  then obtain rest where "rtry_do_cmd_out z = rtry_do_cmd_out r @ rest" using resp_appends by blast
  moreover have "rtry_do_cmd_out z = flits ?ps"
    using arg_cong [OF z(3), of "\<lambda>x. fst (snd x)"] unfolding retry_effect by (simp add: resp_seen_def)
  ultimately have future: "rtry_do_cmd_out r @ rest = rtry_do_cmd_out init_resp @ flits ?ps"
    by (simp add: init_resp_def)
  have "\<forall>p \<in> set ?ps. packet_ok p" unfolding retry_packets_def using retry_packet_ok by auto
  then have "sim init_rty (flits ?ps) (pk_init ?ps)" by (rule sim_init)
  from hw_run [OF assms(4) r(1) future this pk_inv_init, of t] show ?thesis
    by (auto simp: backlog_def init_rty_def RTY_FIFO_DEPTH_def)
qed

lemma retry_fifo_bound_witness:
  "\<exists>r y. run_events (ocx_memory_egress_top_hw 0 1 0 [] [] [] []) push_top
       (Tick # Input (Combo (refusal 3)) # replicate 600 Tick) (init_resp, [], init_rty) = Some (r, [], y) \<and>
     length (input_fifo y) \<le> 4"
proof -
  let ?es = "Tick # Input (Combo (refusal 3)) # replicate 600 Tick" and ?ts = "[(refusal 3, [])]"
  have n: "data_flits (refusal 3) = 0" by (simp add: data_flits_def retry_demo refusal_fields)
  have "combos_of (inputs ?es) = map fst ?ts" "data_of (inputs ?es) = concat (map snd ?ts)"
    "\<forall>t \<in> set ?ts. resp_ok [[], [], [], []] t"
    "length (flits (filter refused (retry_packets [[], [], [], []] ?ts))) \<le> JAIL_DEPTH"
    by (simp_all add: resp_ok_def retry_demo refusal_fields retry_packets_def retry_packet_def n JAIL_DEPTH_def)
  from retry_fifo_bound [OF this, of 0 0] show ?thesis by blast
qed

text \<open>
  C24: with the input bounded to 128 flits and the jail to 512 the engine does the same as without
  bounds, but for flits that wait at its full input, under any interleaving, as long as all the
  packets that are refused, together with their data, have 512 flits at most.
\<close>

theorem jail_deep_enough:
  assumes "\<forall>p \<in> set ps. packet_ok p" "pushed es @ future = flits ps"
    and "length (flits (filter refused ps)) \<le> JAIL_DEPTH"
  shows "unbounded (fold (on_event_hw t) es ([], init_rty)) = fold (on_event t) es init_rty"
  using hw_same [of init_rty es future "pk_init ps" ps t] sim_init [OF assms(1)] pk_inv_init assms(2,3)
    fold_unbounded [OF fed_ok_init(1), of t es] fed_ok_init(2)
  by (simp add: init_rty_def)

lemma jail_deep_enough_witness:
  "unbounded (fold (on_event_hw 0) (map Push (flits demo_packets) @ [Clock, Clock, Clock]) ([], init_rty)) =
   fold (on_event 0) (map Push (flits demo_packets) @ [Clock, Clock, Clock]) init_rty"
proof -
  have ok: "\<forall>p \<in> set demo_packets. packet_ok p" using demo_packets_ok(1) by (simp add: arriving_def)
  have "pushed (map Push (flits demo_packets) @ [Clock, Clock, Clock]) @ [] = flits demo_packets"
    "length (flits (filter refused demo_packets)) \<le> JAIL_DEPTH"
    using demo_packets_ok(2,3) by (simp_all add: demo_packets_def JAIL_DEPTH_def)
  from jail_deep_enough [OF ok this] show ?thesis .
qed

text \<open>
  C11: when packets that are refused one after the other have more flits than the jail holds,
  as 171 writes of two data flits have, the engine is blocked for good, under every schedule of
  arrivals and clock steps: no flit of these packets or of any that arrives after them, a
  command that would open the jail included, is ever put out, since the engine waits for room
  in the jail and nobody but itself takes anything out.  The producer is blocked too: of all it
  wants to write, nothing beyond the packets before, a full jail and a full input goes in.
\<close>

theorem full_jail_deadlock:
  assumes "\<forall>p \<in> set (before @ bad @ after). packet_ok p" "\<forall>p \<in> set bad. refused p"
    and "JAIL_DEPTH < length (flits bad)"
    and "pushed es @ future = flits (before @ bad @ after)"
    and "fold (on_event_hw t) es ([], init_rty) = (q, s)"
  shows "(\<exists>outs rest. output_fifo s @ rest = flits outs \<and> mset outs \<subseteq># mset before) \<and>
    length (pushed es) \<le> length (flits before) + JAIL_DEPTH + RTY_FIFO_DEPTH + length q"
proof -
  let ?ps = "before @ bad @ after" and ?s = "fold (jail_event t) es init_rty"
  have s: "?s = s\<lparr>input_fifo := input_fifo s @ q\<rparr>" "length (input_fifo s) \<le> RTY_FIFO_DEPTH"
    using fold_unbounded [OF fed_ok_init(1), of t es] fed_ok_init(2) assms(5) by simp_all
  have "sim init_rty (pushed es @ future) (pk_init ?ps)" using sim_init [OF assms(1)] assms(4) by simp
  from doomed_run [OF assms(2,3) this doomed_init, of t] obtain a where
    a: "sim ?s future a" "doomed before bad after a" "length (rty_jail ?s) \<le> JAIL_DEPTH"
    by (auto simp: init_rty_def)
  obtain rest where out: "output_fifo s @ rest = flits (pk_out a)" using sim_output [OF a(1)] s(1) by auto
  note sub = doomed_out [OF a(2)]
  have "size (in_flight ?s) = size (mset (pushed es))"
    unfolding jail_event_in_flight by (simp add: in_flight_def init_rty_def)
  then have "length (pushed es) = length (output_fifo s) + length (rty_jail s) + length (input_fifo s) + length q"
    using s(1) by (simp add: in_flight_def)
  moreover have "length (output_fifo s) \<le> length (flits before)"
    using arg_cong [OF out, of length] flits_sub [OF sub] by simp
  moreover have "length (rty_jail s) \<le> JAIL_DEPTH" using a(3) s(1) by simp
  ultimately show ?thesis using out sub s(2) by auto
qed

lemma full_jail_deadlock_witness:
  "output_fifo (snd (fold (on_event_hw 0) (concat (map (\<lambda>fl. [Push fl, Clock])
      (flits (replicate 257 (demo_cmd TLRESP_CODE_RTY True, [7]) @ [(demo_cmd 0 False, [])]))))
      ([], init_rty))) = []"
proof -
  let ?bad = "replicate 257 (demo_cmd TLRESP_CODE_RTY True, [7])" and ?after = "[(demo_cmd 0 False, [])]"
  let ?es = "concat (map (\<lambda>fl. [Push fl, Clock]) (flits (?bad @ ?after)))"
  have ok: "\<forall>p \<in> set ([] @ ?bad @ ?after). packet_ok p" "\<forall>p \<in> set ?bad. refused p"
    using demo_packets_ok(1,2) by (simp_all add: arriving_def demo_packets_def)
  have "length (flits ?bad) = 257 * 2" by (simp add: flits_length sum_list_replicate)
  then have long: "JAIL_DEPTH < length (flits ?bad)" by (simp add: JAIL_DEPTH_def)
  have "pushed (concat (map (\<lambda>fl. [Push fl, Clock]) fls)) = fls" for fls by (induction fls) simp_all
  then have p: "pushed ?es @ [] = flits ([] @ ?bad @ ?after)" by simp
  obtain q s where e: "fold (on_event_hw 0) ?es ([], init_rty) = (q, s)" by fastforce
  from full_jail_deadlock [OF ok long p e] show ?thesis unfolding e by auto
qed

end
