(* ===== verification/Spec2Isabelle.thy ===== *)
theory Spec2Isabelle imports TFTests TFThread TFShTests TFKmod TFConsole TFDepth begin

text \<open>
  A verification development for ThymesisFlow, the software and hardware that lets one
  machine (the compute node, or borrower) use the memory of another (the memory node, or
  lender) over OpenCAPI.

  \<^bold>\<open>The program.\<close>  An agent runs on each node and owns the accelerator (AFU).  A client asks
  it, by a message of 333 bytes over a local socket, to attach or detach a circuit: on the
  memory node that allocates memory and exports it through the AFU, on the compute node it
  programs the AFU with the address of that memory and hot-plugs the blocks.  The agent
  keeps its circuits in a linked list.  \<^verbatim>\<open>libtfshmem\<close> calls the same operations directly
  and carves buffers out of one shared pool, which its kernel module maps.  On the FPGA the
  memory egress modules, written in C++ for high-level synthesis, take the responses of the
  host, hand out and take back tags, and re-issue refused commands.

  \<^bold>\<open>The theories\<close> (files under \<^verbatim>\<open>src/\<close>; definitions bear the names of the functions):
  \<^item> \<open>TFPrelude\<close>: C types, \<^verbatim>\<open>memcpy\<close> and string functions on byte lists, little-endian
    integers, the locale \<open>wire_field\<close>.  \<open>TFConst\<close>: the constants of the headers.
  \<^item> \<open>TFPort\<close> (\<^verbatim>\<open>libthymesisflow/src/iport.c\<close>) port lists and their mask.  \<open>TFMsg\<close>
    (\<^verbatim>\<open>proto.c\<close>, \<^verbatim>\<open>protoconst.h\<close>) the message and its accessors.
  \<^item> \<open>TFWorld\<close>: the process: heap of connections, list head, allocated blocks, and the trace
    of all calls to the C library, the kernel and \<^verbatim>\<open>libocxl\<close>, whose answers are the
    parameter \<open>env\<close>.
  \<^item> \<open>TFStats\<close> (\<^verbatim>\<open>stats.c\<close>), \<open>TFConn\<close> (the registry of \<^verbatim>\<open>connection.c\<close>), \<open>TFAfu\<close> (the AFU
    set-up of \<^verbatim>\<open>connection.c\<close>), \<open>TFFlow\<close> (\<^verbatim>\<open>thymesisflow.c\<close>: attach, detach, hot-plug).
  \<^item> \<open>TFProto\<close> (the handlers and request builders of \<^verbatim>\<open>proto.c\<close>), \<open>TFWire\<close> (its socket
    loops), \<open>TFAgent\<close> (\<^verbatim>\<open>agent.c\<close>, \<^verbatim>\<open>cmd/thymesisf-agent.c\<close>), \<open>TFClient\<close> (\<^verbatim>\<open>client.c\<close>,
    \<^verbatim>\<open>cmd/thymesisf-cli.c\<close>), \<open>TFConsole\<close> (what that tool prints).
  \<^item> \<open>TFPortMem\<close>: the port lists as nodes in memory, allocated and freed.  \<open>TFThread\<close>: the
    counter thread interleaved with the agent that cancels and joins it.  \<open>TFLog\<close>
    (\<^verbatim>\<open>logger.h\<close>, \<^verbatim>\<open>list_connections\<close>, \<^verbatim>\<open>print_proto_msg\<close>): what is printed.  \<open>TFTests\<close>
    (\<^verbatim>\<open>unittest/unittest.c\<close>): the unit tests as programs over the models.
  \<^item> \<open>TFMm\<close> (\<^verbatim>\<open>libtfshmem/src/custom_mm.c\<close>), \<open>TFShmem\<close> (\<^verbatim>\<open>tf_shmem.c\<close>), \<open>TFKmod\<close>
    (\<^verbatim>\<open>kernel_module/\<close>), \<open>TFShTests\<close> (\<^verbatim>\<open>libtfshmem/test/\<close>: the two test programs).
  \<^item> \<open>TFFlit\<close> (\<^verbatim>\<open>afu/thymesisflow/hls_modules/memory_egress/ocx_flit.cpp\<close>), \<open>TFEngine\<close> (steps
    and transactions of a state machine), \<open>TFResp\<close> (\<^verbatim>\<open>ocx_resp_eng.cpp\<close>), \<open>TFRty\<close>
    (\<^verbatim>\<open>ocx_rty_eng.cpp\<close>), \<open>TFPackets\<close> (the same engine while its input arrives, against an
    abstract machine on packets), \<open>TFLkFlit\<close> (the copy of \<^verbatim>\<open>ocx_flit.cpp\<close> in
    \<^verbatim>\<open>memory_egress_lookup\<close>), \<open>TFEgress\<close> (that module and both top functions), \<open>TFPipeline\<close>
    (the two modules in a row, as \<^verbatim>\<open>thymesisflow_top.v\<close> connects them, while the host answers),
    \<open>TFDepth\<close> (the depth the streams have in hardware).

  \<^bold>\<open>Conventions.\<close>  A C computation is a function of type \<open>... option\<close>: \<open>None\<close> means that it does
  not return in a defined way (out-of-bounds access, dangling or \<^verbatim>\<open>NULL\<close> pointer, free of
  memory that is not allocated, an endless loop or a call that blocks for ever).  Return
  codes and errors are values.  Integers have their width: \<open>cint\<close> is a 32-bit, \<open>u64\<close> a 64-bit
  word.  Uninitialised memory and what follows a string literal in memory are part of the
  parameter \<open>env\<close>, so a theorem that holds for all \<open>env\<close> does not rely on them.  In the
  hardware modules one call is one clock step and a stream is a list; only in \<open>TFDepth\<close> a write
  to a full stream blocks.  The registry is the map the linked list itself denotes
  (\<open>conn_nodes\<close>, \<open>registry\<close>), not what \<^verbatim>\<open>get_conn\<close> finds in it.

  \<^bold>\<open>What the lemmas show.\<close>  The message accessors implement a record of eight fields, any sequence
  of them (\<open>setters_refine\<close>).  The linked list implements a finite map from circuit ids
  (locale \<open>conn_registry\<close>, \<open>registry_refines\<close>), which every run of attach and detach
  operations keeps (\<open>flow_registry\<close>), without freeing foreign memory when all attachments
  succeeded (\<open>memory_detach_safe\<close>); an attachment and its detachment cancel out
  (\<open>attach_detach_memory\<close>).  A request to the agent performs one abstract operation
  and yields one response (\<open>agent_serves\<close>), from any state the server loop reaches
  (\<open>agent_serving\<close>, \<open>agent_invariant\<close>), the same through the client
  (\<open>attach_memory_end_to_end\<close>, \<open>detach_memory_end_to_end\<close>), and the address the tool of the
  lender prints makes the agent of the borrower attach it (\<open>lend_and_borrow\<close>).
  The pool allocator hands out
  disjoint regions of whole pages (\<open>pool_regions\<close>), its bump pointer is part of the invariant
  of the library (\<open>shm_invariant\<close>), and a buffer mapped on the compute
  node is the same part of the physical window (\<open>shared_buffer_physical\<close>).  The two hardware
  engines refine transactions on whole packets (locale \<open>engine\<close>, \<open>resp_engine_refines\<close>,
  \<open>rty_engine_refines\<close>); no flit is lost between them (\<open>retries_conserved\<close>),
  and run together they put out every packet whole (\<open>egress_end_to_end\<close>), however writes and
  clock interleave (\<open>packets_whole\<close>).  An engine that only waits for its input does the same
  whenever it arrives (locale \<open>stalling\<close>), so that the path from the host to the tags, the
  network and the retries comes to rest with the result the specification gives
  (\<open>egress_path_rests\<close>).  In hardware the depths of the two inner streams do not
  matter as long as the refused flits fit into the jail (\<open>jail_deep_enough\<close>,
  \<open>retry_fifo_bound\<close>); more of them block the engine and its producer for good
  (\<open>full_jail_deadlock\<close>).  Under every
  interleaving the counter thread is quiet when its AFU is closed (\<open>thread_quiesced\<close>) and
  stopping it ends (\<open>stop_terminates\<close>) unless its FIFO is full (\<open>stop_hangs\<close>).  Port lists
  do not leak (\<open>port_memory\<close>).  The unit tests pass (\<open>unit_tests_pass\<close>, except \<^verbatim>\<open>test_iport\<close>, which \<^verbatim>\<open>main\<close> does not call), the
  two shared-memory programs print the same sums as far as the compute node flushes
  (\<open>shared_memory_test\<close>, \<open>flush_block_lines\<close>).  Other theorems
  record where the code deviates: \<open>failed_attach_poisons_detach\<close>, \<open>short_read\<close>,
  \<open>error_hangs\<close>, \<open>eof_reads_junk\<close>, \<open>stale_pool_reused\<close>, \<open>store_loses_tag\<close>, \<open>init_tags\<close>,
  \<open>split_write_frees_twice\<close>, \<open>locked_jail_waits\<close>, \<open>class_failure\<close>, \<open>unterminated_id\<close>,
  \<open>iport_test_undefined\<close>, \<open>second_buffer_half_flushed\<close>, \<open>classifiers_agree\<close>.

  \<^bold>\<open>Loops and bounds.\<close>  There is no fuel.  Loops over the pointer list are
  \<^verbatim>\<open>partial_function\<close>s whose termination on well-formed registries is proved
  (\<open>get_conn_decides\<close>); the socket loops recurse on the script of the kernel's answers, the
  server loop on the list of clients, the hot-plug loop on a number of blocks that
  is bounded by the region size (below 2 to the 59, where the \<^verbatim>\<open>int\<close> counter cannot overflow);
  the counter thread is a \<^verbatim>\<open>partial_function\<close> because it is meant to run for ever.  Number
  of clock steps: computed from the transactions.

  \<^bold>\<open>Not modelled.\<close>  The places where the agent and the library log (what a log call prints is
  \<open>TFLog\<close>, what the tool prints \<open>TFConsole\<close>);
  the interleaving of the \<^verbatim>\<open>SIGTERM\<close> handler with the effects of a request, of
  which only the calls made so far are known (\<open>agent_ends\<close>); the cache behind
  \<^verbatim>\<open>flush_memory_block\<close>; the FIFOs outside the modules and the tables while they are written,
  which belong to the Verilog sources; prototypes and synthesis pragmas other than the stream
  depths; the Verilog sources, board support and scripts.  \<^verbatim>\<open>getopt\<close>, \<^verbatim>\<open>libocxl\<close>, the C
  library and the kernel are parameters.
\<close>

section \<open>From the allocator to the physical window\<close>

text \<open>
  C8: a buffer that the memory node carves out of its pool and the compute node maps by its
  address shows, through the device, the physical memory at the base of the OpenCAPI window
  plus the pages of the buffers carved out before it.
\<close>

theorem shared_buffer_physical:
  assumes pool: "base \<noteq> 0" "next_free m = 0" "\<forall>n \<in> set ns. n \<noteq> 0" "k < length ns"
      "unat base + sum_list (map pages ns) * 65536 < 2 ^ 63"
      "buf = fst (malloc_all ns (init_custom_mm base psz m)) ! k"
    and client: "pool_ea st = base" "tf_buffer_map env buf len st w = (addr, w')" "addr \<noteq> 0"
    and kernel: "PAGE_SHIFT ke \<le> 16" "Mmap len off \<in> set (drop (length (trace w)) (trace w'))"
      "vm_pgoff v = drop_bit (PAGE_SHIFT ke) off"
  shows "\<exists>pfn. ktrace (snd (tfshmem_mmap ke v km)) =
       ktrace km @ [Remap_pfn_range (vm_start v) pfn (vm_end v - vm_start v) (vm_page_prot v)] \<and>
     unat pfn * 2 ^ PAGE_SHIFT ke = 0x2000000000000 + pages_before ns k * 65536"
proof -
  have init: "initialized (init_custom_mm base psz m)" "next_free (init_custom_mm base psz m) = 0"
      "base_address (init_custom_mm base psz m) = base"
    using pool(2) by (simp_all add: init_custom_mm_def)
  have "length (fst (malloc_all ns (init_custom_mm base psz m))) = length ns \<and>
    (\<forall>k < length ns. unat (fst (malloc_all ns (init_custom_mm base psz m)) ! k) =
       unat base + pages_before ns k * 65536)"
    by (rule malloc_run [OF init(1) pool(3) _ pool(1)]) (use pool(5) init(2,3) in simp_all)
  then have buf: "unat buf = unat base + pages_before ns k * 65536"
    using pool(4,6) by simp
  obtain fd where tr: "trace w' = trace w @
      [Open_rdwr ''/dev/tfshmem'', Mmap len (buf - pool_ea st), Close fd, Mlock addr len]"
    using map_trace [OF client(2,3)] by blast
  have off: "off = buf - base" using kernel(2) client(1) by (simp add: tr)
  have d: "unat off = pages_before ns k * 65536"
    unfolding off using buf by (subst unat_sub_if') simp
  have le: "pages_before ns k \<le> sum_list (map pages ns)"
    using append_take_drop_id [of k "map pages ns"] unfolding pages_before_def take_map
    by (metis le_add1 sum_list_append)
  have "(2 :: nat) ^ PAGE_SHIFT ke dvd 2 ^ 16" using kernel(1) by (rule le_imp_power_dvd)
  then have "(2 :: nat) ^ PAGE_SHIFT ke dvd unat off" unfolding d by (intro dvd_mult) simp
  then have pg: "unat (vm_pgoff v) * 2 ^ PAGE_SHIFT ke = pages_before ns k * 65536"
  proof -
    have "unat (vm_pgoff v) = unat off div 2 ^ PAGE_SHIFT ke"
      unfolding kernel(3) unat_drop_bit_eq by (rule drop_bit_eq_div)
    then show ?thesis using \<open>2 ^ PAGE_SHIFT ke dvd unat off\<close> by (simp add: d)
  qed
  have "pages_before ns k * 65536 < 2 ^ 63" using le pool(5) by simp
  then have "unat (vm_pgoff v) * 2 ^ PAGE_SHIFT ke < 2 ^ 63" using pg by simp
  from remap_window [OF kernel(1) this, of km] show ?thesis unfolding pg by blast
qed

lemma shared_buffer_physical_witness:
  "\<exists>pfn. ktrace (snd (tfshmem_mmap demo_kenv \<lparr> vm_start = 0x7000000, vm_end = 0x7020000, vm_pgoff = 1,
       vm_page_prot = 3 \<rparr> init_kmod)) = [Remap_pfn_range 0x7000000 pfn 0x20000 3] \<and>
     unat pfn * 0x10000 = 0x2000000010000"
proof -
  let ?ns = "[100, 70000] :: u64 list"
  let ?st = "init_shm\<lparr>memory_node := 0, pool_ea := 0x10000, pool_size := 0x100000\<rparr>"
  let ?v = "\<lparr> vm_start = 0x7000000, vm_end = 0x7020000, vm_pgoff = 1, vm_page_prot = 3 \<rparr>"
  let ?buf = "fst (malloc_all ?ns (init_custom_mm 0x10000 0x100000 init_mm)) ! 1"
  have buf: "?buf = 0x20000"
    by (simp add: init_mm_def init_custom_mm_def custom_malloc_def align_def PAGE_SIZE_def Let_def)
  have "fst (tf_buffer_map (demo_env True) ?buf 70000 ?st init_world) = 0x2000"
    unfolding buf
    by (simp add: tf_buffer_map_def is_initialized_def init_shm_def buf_map_mmap_def sys_def Let_def)
  then obtain w' where w': "tf_buffer_map (demo_env True) ?buf 70000 ?st init_world = (0x2000, w')"
    by (metis prod.collapse)
  obtain fd where "trace w' = trace init_world @ [Open_rdwr ''/dev/tfshmem'',
      Mmap 70000 (?buf - pool_ea ?st), Close fd, Mlock 0x2000 70000]"
    using map_trace [OF w'] by auto
  then have "Mmap 70000 0x10000 \<in> set (drop (length (trace init_world)) (trace w'))"
    unfolding buf by simp
  note spb = shared_buffer_physical [where base = "0x10000" and m = init_mm and ns = ?ns and k = 1
      and buf = ?buf and st = ?st and ke = demo_kenv and v = ?v and km = init_kmod
      and psz = "0x100000", OF _ _ _ _ _ refl _ w' _ _ this]
  have shift: "PAGE_SHIFT demo_kenv = 16" by (simp add: demo_kenv_def)
  show ?thesis using spb unfolding shift
    by (simp add: init_mm_def pages_before_def pages_def init_kmod_def drop_bit_eq_div)
qed

end
